(* ===== verification/Prelude.thy ===== *)
theory Prelude
  imports Main "HOL-Library.Word" "HOL-Library.Sublist"
begin

text \<open>
  What every component theory shares: the result type that carries the assertions of
  the C++ sources, the decimal rendering of \<^verbatim>\<open>std::to_string\<close>, separator-delimited
  strings, and the locale of transition systems with an invariant.

  The sources are read with assertions active (no \<^verbatim>\<open>NDEBUG\<close>): a violated
  \<^verbatim>\<open>assert()\<close> is the value \<open>Inl (Assert what)\<close>, and an exception that nobody
  catches is \<open>Inl (Uncaught what)\<close>. A call that returns is \<open>Inr\<close> of its result.
\<close>

named_theorems res_simps "reading the assertion/exception monad"

section \<open>Assertions and uncaught exceptions\<close>

datatype panic = Assert string | Uncaught string

type_synonym 'a res = "panic + 'a"

text \<open>\<open>ensure c what k\<close> is \<^verbatim>\<open>assert(c && what); k\<close>.\<close>

definition ensure :: "bool \<Rightarrow> string \<Rightarrow> 'a res \<Rightarrow> 'a res" where
  "ensure c what k = (if c then k else Inl (Assert what))"

definition res_bind :: "'a res \<Rightarrow> ('a \<Rightarrow> 'b res) \<Rightarrow> 'b res" where
  "res_bind m f = (case m of Inl p \<Rightarrow> Inl p | Inr x \<Rightarrow> f x)"

definition returns :: "'a res \<Rightarrow> bool" where
  "returns m = (case m of Inl _ \<Rightarrow> False | Inr _ \<Rightarrow> True)"

lemma ensure_True [simp, res_simps]: "ensure True w k = k"
  and ensure_False [simp, res_simps]: "ensure False w k = Inl (Assert w)"
  by (simp_all add: ensure_def)

lemma ensure_eq_Inr [simp, res_simps]: "ensure c w k = Inr x \<longleftrightarrow> c \<and> k = Inr x"
  by (simp add: ensure_def)

lemma ensure_cong [cong]: "c = c' \<Longrightarrow> w = w' \<Longrightarrow> (c' \<Longrightarrow> k = k') \<Longrightarrow> ensure c w k = ensure c' w' k'"
  by (simp add: ensure_def)

lemma res_bind_simps [simp, res_simps]:
  "res_bind (Inr x) f = f x" "res_bind (Inl p) f = Inl p"
  by (simp_all add: res_bind_def)

lemma res_bind_eq_Inr [res_simps]:
  "res_bind m f = Inr y \<longleftrightarrow> (\<exists>x. m = Inr x \<and> f x = Inr y)"
  by (cases m) simp_all

lemma res_bind_ensure [res_simps]:
  "res_bind (ensure c w k) f = ensure c w (res_bind k f)"
  by (simp add: ensure_def)

lemma returns_simps [simp, res_simps]:
  "returns (Inr x)" "\<not> returns (Inl p)"
  by (simp_all add: returns_def)

lemma returns_ensure [simp, res_simps]: "returns (ensure c w k) \<longleftrightarrow> c \<and> returns k"
  by (simp add: ensure_def)

lemma returns_iff: "returns m \<longleftrightarrow> (\<exists>x. m = Inr x)"
  by (cases m) simp_all

lemma returns_bind [res_simps]:
  "returns (res_bind m f) \<longleftrightarrow> (\<exists>x. m = Inr x \<and> returns (f x))"
  by (cases m) simp_all

section \<open>Decimal rendering: std::to_string\<close>

definition digit_char :: "nat \<Rightarrow> char" where
  "digit_char d = char_of (48 + d)"

fun to_string :: "nat \<Rightarrow> string" where
  "to_string n = (if n < 10 then [digit_char n] else to_string (n div 10) @ [digit_char (n mod 10)])"

declare to_string.simps [simp del]

definition int_to_string :: "int \<Rightarrow> string" where
  "int_to_string i = (if i < 0 then CHR ''-'' # to_string (nat (- i)) else to_string (nat i))"

definition is_digit :: "char \<Rightarrow> bool" where
  "is_digit c \<longleftrightarrow> 48 \<le> (of_char c :: nat) \<and> (of_char c :: nat) < 58"

definition digits_val :: "string \<Rightarrow> nat" where
  "digits_val s = foldl (\<lambda>v c. 10 * v + (of_char c - 48)) 0 s"

lemma of_digit_char: "d < 10 \<Longrightarrow> (of_char (digit_char d) :: nat) = 48 + d"
  by (simp add: digit_char_def of_char_of)

lemma is_digit_digit_char: "d < 10 \<Longrightarrow> is_digit (digit_char d)"
  by (simp add: is_digit_def of_digit_char)

lemma to_string_nonempty [simp]: "to_string n \<noteq> []"
  by (subst to_string.simps) simp

lemma to_string_digits: "c \<in> set (to_string n) \<Longrightarrow> is_digit c"
proof (induction n rule: to_string.induct)
  case (1 n)
  show ?case
  proof (cases "n < 10")
    case True
    with "1.prems" show ?thesis by (simp add: to_string.simps [of n] is_digit_digit_char)
  next
    case False
    with "1.prems" have "c \<in> set (to_string (n div 10)) \<or> c = digit_char (n mod 10)"
      by (subst (asm) to_string.simps) auto
    with False "1.IH" show ?thesis by (auto simp: is_digit_digit_char)
  qed
qed

lemma digits_val_to_string [simp]: "digits_val (to_string n) = n"
proof (induction n rule: to_string.induct)
  case (1 n)
  show ?case
  proof (cases "n < 10")
    case True
    then show ?thesis by (simp add: to_string.simps [of n] digits_val_def of_digit_char)
  next
    case False
    then have "digits_val (to_string n) = 10 * digits_val (to_string (n div 10)) + n mod 10"
      by (simp add: to_string.simps [of n] digits_val_def of_digit_char)
    with False "1.IH" show ?thesis by simp
  qed
qed

lemma to_string_inj [simp]: "to_string m = to_string n \<longleftrightarrow> m = n"
  by (metis digits_val_to_string)

lemma minus_not_digit [simp]: "\<not> is_digit (CHR ''-'')"
  by (simp add: is_digit_def)

lemma to_string_not_minus: "CHR ''-'' # s \<noteq> to_string n"
proof
  assume "CHR ''-'' # s = to_string n"
  then have "CHR ''-'' \<in> set (to_string n)" by (metis list.set_intros(1))
  then show False using to_string_digits minus_not_digit by blast
qed

lemma int_to_string_inj [simp]: "int_to_string i = int_to_string j \<longleftrightarrow> i = j"
  using to_string_not_minus
  by (auto simp: int_to_string_def to_string_not_minus [symmetric] eq_commute [of "to_string _" "CHR ''-'' # _"])

lemma int_to_string_nonempty [simp]: "int_to_string i \<noteq> []"
  by (simp add: int_to_string_def)

lemma int_to_string_chars: "c \<in> set (int_to_string i) \<Longrightarrow> is_digit c \<or> c = CHR ''-''"
  by (auto simp: int_to_string_def dest: to_string_digits split: if_splits)

lemma to_string_0: "to_string 0 = ''0''"
  by (code_simp)

lemma to_string_eq_0 [simp]: "to_string n = ''0'' \<longleftrightarrow> n = 0"
  by (metis to_string_0 to_string_inj)

lemma int_to_string_eq_0 [simp]: "int_to_string i = ''0'' \<longleftrightarrow> i = 0"
  by (auto simp: int_to_string_def)

text \<open>A digit string followed by a non-digit is read back without ambiguity.\<close>

lemma digits_then_mark_inj:
  assumes eq: "to_string m @ c # xs = to_string n @ c # ys" and c: "\<not> is_digit c"
  shows "m = n \<and> xs = ys"
proof -
  have tw: "takeWhile is_digit (to_string k @ c # zs) = to_string k" for k zs
    using c to_string_digits by (subst takeWhile_append2) auto
  from eq have "to_string m = to_string n" by (metis tw)
  with eq show ?thesis by simp
qed

section \<open>Separator-delimited strings\<close>

definition no_sep :: "char \<Rightarrow> string \<Rightarrow> bool" where
  "no_sep sep s \<longleftrightarrow> s \<noteq> [] \<and> sep \<notin> set s"

lemma no_sep_nonempty: "no_sep sep s \<Longrightarrow> s \<noteq> []"
  by (simp add: no_sep_def)

lemma no_sep_takeWhile: "no_sep sep s \<Longrightarrow> takeWhile (\<lambda>c. c \<noteq> sep) (s @ sep # r) = s"
  by (subst takeWhile_append2) (auto simp: no_sep_def)

lemma no_sep_dropWhile: "no_sep sep s \<Longrightarrow> dropWhile (\<lambda>c. c \<noteq> sep) (s @ sep # r) = sep # r"
  by (subst dropWhile_append2) (auto simp: no_sep_def)

lemma sep_split_inj:
  assumes "no_sep sep s" "no_sep sep t" "s @ sep # x = t @ sep # y"
  shows "s = t \<and> x = y"
  using assms no_sep_takeWhile [of sep s x] no_sep_takeWhile [of sep t y]
    no_sep_dropWhile [of sep s x] no_sep_dropWhile [of sep t y] by auto

lemma no_sep_to_string: "\<not> is_digit sep \<Longrightarrow> no_sep sep (to_string n)"
  by (auto simp: no_sep_def dest: to_string_digits)

lemma no_sep_int_to_string:
  "\<not> is_digit sep \<Longrightarrow> sep \<noteq> CHR ''-'' \<Longrightarrow> no_sep sep (int_to_string i)"
  by (auto simp: no_sep_def dest: int_to_string_chars)

section \<open>Transition systems with an invariant\<close>

text \<open>Reachable states of a system given by its initial states and its step relation.\<close>

inductive reach :: "('s \<Rightarrow> bool) \<Rightarrow> ('s \<Rightarrow> 's \<Rightarrow> bool) \<Rightarrow> 's \<Rightarrow> bool"
  for ini :: "'s \<Rightarrow> bool" and stp :: "'s \<Rightarrow> 's \<Rightarrow> bool" where
  reach_init: "ini s \<Longrightarrow> reach ini stp s"
| reach_step: "reach ini stp s \<Longrightarrow> stp s t \<Longrightarrow> reach ini stp t"

lemma steps_reach: "stp\<^sup>*\<^sup>* s t \<Longrightarrow> ini s \<Longrightarrow> reach ini stp t"
  by (induction rule: rtranclp_induct) (auto intro: reach_init reach_step)

text \<open>
  The contract of a component that is a state machine: its invariant holds at the start
  and every step keeps it.
\<close>

locale invariant_system =
  fixes ini :: "'s \<Rightarrow> bool" and stp :: "'s \<Rightarrow> 's \<Rightarrow> bool" and inv :: "'s \<Rightarrow> bool"
  assumes ini_inv: "ini s \<Longrightarrow> inv s"
    and stp_inv: "inv s \<Longrightarrow> stp s t \<Longrightarrow> inv t"
begin

lemma reach_inv: "reach ini stp s \<Longrightarrow> inv s"
  by (induction rule: reach.induct) (auto intro: ini_inv stp_inv)

lemma steps_inv: "stp\<^sup>*\<^sup>* s t \<Longrightarrow> inv s \<Longrightarrow> inv t"
  by (induction rule: rtranclp_induct) (auto intro: stp_inv)

end

text \<open>
  The contract of a machine some of whose steps happen by themselves: each of these uses up some work. So
  they come to an end, wherever they start.
\<close>

locale draining_system = invariant_system ini stp inv
  for ini :: "'s \<Rightarrow> bool" and stp :: "'s \<Rightarrow> 's \<Rightarrow> bool" and inv :: "'s \<Rightarrow> bool" +
  fixes forced :: "'s \<Rightarrow> 's \<Rightarrow> bool" and work :: "'s \<Rightarrow> nat"
  assumes forced_stp: "forced s t \<Longrightarrow> stp s t"
    and forced_less: "inv s \<Longrightarrow> forced s t \<Longrightarrow> work t < work s"
begin

lemma forced_reach: "reach ini stp s \<Longrightarrow> forced\<^sup>*\<^sup>* s t \<Longrightarrow> reach ini stp t"
  by (rotate_tac, induction rule: rtranclp_induct) (auto intro: reach_step forced_stp)

lemma forced_bound: "reach ini stp s \<Longrightarrow> (forced ^^ n) s t \<Longrightarrow> n + work t \<le> work s"
proof (induction n arbitrary: t)
  case (Suc n)
  from Suc.prems(2) obtain u where u: "(forced ^^ n) s u" "forced u t" by auto
  then have "forced\<^sup>*\<^sup>* s u" by (auto intro: relpowp_imp_rtranclp)
  from forced_less [OF reach_inv [OF forced_reach [OF Suc.prems(1) this]] u(2)] Suc.IH [OF Suc.prems(1) u(1)]
  show ?case by simp
qed simp

lemma forced_normal_form: "reach ini stp s \<Longrightarrow> \<exists>t. forced\<^sup>*\<^sup>* s t \<and> (\<nexists>u. forced t u)"
proof (induction "work s" arbitrary: s rule: less_induct)
  case less
  show ?case
  proof (cases "\<exists>u. forced s u")
    case True
    then obtain u where u: "forced s u" by blast
    with less.hyps [OF forced_less [OF reach_inv [OF less.prems] u] forced_reach [OF less.prems, of u]]
    obtain t where "forced\<^sup>*\<^sup>* u t" "\<nexists>w. forced t w" by blast
    with converse_rtranclp_into_rtranclp [of forced, OF u] show ?thesis by blast
  qed blast
qed

end

end
