(* ===== verification/Errors.thy ===== *)
theory Errors
  imports Prelude
begin

text \<open>
  \<^verbatim>\<open>error.hpp\<close> and \<^verbatim>\<open>error.cpp\<close>: the error codes of the session module, their
  integer values, messages and symbols, and the \<^verbatim>\<open>Error_code\<close> values the other
  components pass around. A falsy \<^verbatim>\<open>Error_code\<close> is \<open>None\<close> of \<open>error_code option\<close>;
  codes of the transport layer and of the system are opaque except for the two the
  sources compare with.
\<close>

section \<open>The codes\<close>

datatype code =
    S_INVALID_ARGUMENT
  | S_OBJECT_SHUTDOWN_ABORTED_COMPLETION_HANDLER
  | S_CLIENT_NAMESPACE_STORE_BAD_FORMAT
  | S_CLIENT_MASTER_LOG_IN_RESPONSE_BAD
  | S_SERVER_MASTER_LOG_IN_REQUEST_CLIENT_APP_DISALLOWED_OR_UNKNOWN
  | S_SERVER_MASTER_LOG_IN_REQUEST_CLIENT_APP_INCONSISTENT_CREDS
  | S_SESSION_OPEN_CHANNEL_REMOTE_PEER_REJECTED_PASSIVE_OPEN
  | S_SESSION_OPEN_CHANNEL_SERVER_CANNOT_PROCEED_RESOURCE_UNAVAILABLE
  | S_SESSION_OPEN_CHANNEL_ACTIVE_TIMEOUT
  | S_MUTEX_BIPC_MISC_LIBRARY_ERROR
  | S_SERVER_MASTER_POST_LOG_IN_SEND_FAILED_MISC
  | S_SERVER_MASTER_LOG_IN_REQUEST_CONFIG_MISMATCH
  | S_RESOURCE_OWNER_UNEXPECTED
  | S_SESSION_FINISHED
  | S_END_SENTINEL

definition S_CODE_LOWEST_INT_VALUE :: int where
  "S_CODE_LOWEST_INT_VALUE = 1"

definition codes :: "code list" where
  "codes = [S_INVALID_ARGUMENT, S_OBJECT_SHUTDOWN_ABORTED_COMPLETION_HANDLER,
    S_CLIENT_NAMESPACE_STORE_BAD_FORMAT, S_CLIENT_MASTER_LOG_IN_RESPONSE_BAD,
    S_SERVER_MASTER_LOG_IN_REQUEST_CLIENT_APP_DISALLOWED_OR_UNKNOWN,
    S_SERVER_MASTER_LOG_IN_REQUEST_CLIENT_APP_INCONSISTENT_CREDS,
    S_SESSION_OPEN_CHANNEL_REMOTE_PEER_REJECTED_PASSIVE_OPEN,
    S_SESSION_OPEN_CHANNEL_SERVER_CANNOT_PROCEED_RESOURCE_UNAVAILABLE,
    S_SESSION_OPEN_CHANNEL_ACTIVE_TIMEOUT, S_MUTEX_BIPC_MISC_LIBRARY_ERROR,
    S_SERVER_MASTER_POST_LOG_IN_SEND_FAILED_MISC,
    S_SERVER_MASTER_LOG_IN_REQUEST_CONFIG_MISMATCH, S_RESOURCE_OWNER_UNEXPECTED,
    S_SESSION_FINISHED, S_END_SENTINEL]"

text \<open>The enumerators take consecutive values from the lowest one on.\<close>

fun code_value :: "code \<Rightarrow> int" where
  "code_value S_INVALID_ARGUMENT = S_CODE_LOWEST_INT_VALUE"
| "code_value S_OBJECT_SHUTDOWN_ABORTED_COMPLETION_HANDLER = 2"
| "code_value S_CLIENT_NAMESPACE_STORE_BAD_FORMAT = 3"
| "code_value S_CLIENT_MASTER_LOG_IN_RESPONSE_BAD = 4"
| "code_value S_SERVER_MASTER_LOG_IN_REQUEST_CLIENT_APP_DISALLOWED_OR_UNKNOWN = 5"
| "code_value S_SERVER_MASTER_LOG_IN_REQUEST_CLIENT_APP_INCONSISTENT_CREDS = 6"
| "code_value S_SESSION_OPEN_CHANNEL_REMOTE_PEER_REJECTED_PASSIVE_OPEN = 7"
| "code_value S_SESSION_OPEN_CHANNEL_SERVER_CANNOT_PROCEED_RESOURCE_UNAVAILABLE = 8"
| "code_value S_SESSION_OPEN_CHANNEL_ACTIVE_TIMEOUT = 9"
| "code_value S_MUTEX_BIPC_MISC_LIBRARY_ERROR = 10"
| "code_value S_SERVER_MASTER_POST_LOG_IN_SEND_FAILED_MISC = 11"
| "code_value S_SERVER_MASTER_LOG_IN_REQUEST_CONFIG_MISMATCH = 12"
| "code_value S_RESOURCE_OWNER_UNEXPECTED = 13"
| "code_value S_SESSION_FINISHED = 14"
| "code_value S_END_SENTINEL = 15"

text \<open>The cast \<^verbatim>\<open>static_cast<Code>(val)\<close> read in a \<^verbatim>\<open>switch\<close>: \<open>None\<close> is no case label.\<close>

definition code_of_value :: "int \<Rightarrow> code option" where
  "code_of_value v = List.find (\<lambda>c. code_value c = v) codes"

text \<open>\<^verbatim>\<open>Category::code_symbol()\<close>.\<close>

fun code_symbol :: "code \<Rightarrow> string" where
  "code_symbol S_INVALID_ARGUMENT = ''INVALID_ARGUMENT''"
| "code_symbol S_OBJECT_SHUTDOWN_ABORTED_COMPLETION_HANDLER = ''OBJECT_SHUTDOWN_ABORTED_COMPLETION_HANDLER''"
| "code_symbol S_CLIENT_NAMESPACE_STORE_BAD_FORMAT = ''CLIENT_NAMESPACE_STORE_BAD_FORMAT''"
| "code_symbol S_CLIENT_MASTER_LOG_IN_RESPONSE_BAD = ''CLIENT_MASTER_LOG_IN_RESPONSE_BAD''"
| "code_symbol S_SERVER_MASTER_LOG_IN_REQUEST_CLIENT_APP_DISALLOWED_OR_UNKNOWN =
     ''SERVER_MASTER_LOG_IN_REQUEST_CLIENT_APP_DISALLOWED_OR_UNKNOWN''"
| "code_symbol S_SERVER_MASTER_LOG_IN_REQUEST_CLIENT_APP_INCONSISTENT_CREDS =
     ''SERVER_MASTER_LOG_IN_REQUEST_CLIENT_APP_INCONSISTENT_CREDS''"
| "code_symbol S_SESSION_OPEN_CHANNEL_REMOTE_PEER_REJECTED_PASSIVE_OPEN =
     ''SESSION_OPEN_CHANNEL_REMOTE_PEER_REJECTED_PASSIVE_OPEN''"
| "code_symbol S_SESSION_OPEN_CHANNEL_SERVER_CANNOT_PROCEED_RESOURCE_UNAVAILABLE =
     ''SESSION_OPEN_CHANNEL_SERVER_CANNOT_PROCEED_RESOURCE_UNAVAILABLE''"
| "code_symbol S_SESSION_OPEN_CHANNEL_ACTIVE_TIMEOUT = ''SESSION_OPEN_CHANNEL_ACTIVE_TIMEOUT''"
| "code_symbol S_MUTEX_BIPC_MISC_LIBRARY_ERROR = ''MUTEX_BIPC_MISC_LIBRARY_ERROR''"
| "code_symbol S_SERVER_MASTER_POST_LOG_IN_SEND_FAILED_MISC = ''SERVER_MASTER_POST_LOG_IN_SEND_FAILED_MISC''"
| "code_symbol S_SERVER_MASTER_LOG_IN_REQUEST_CONFIG_MISMATCH = ''SERVER_MASTER_LOG_IN_REQUEST_CONFIG_MISMATCH''"
| "code_symbol S_RESOURCE_OWNER_UNEXPECTED = ''RESOURCE_OWNER_UNEXPECTED''"
| "code_symbol S_SESSION_FINISHED = ''SESSION_FINISHED''"
| "code_symbol S_END_SENTINEL = ''END_SENTINEL''"

text \<open>
  \<^verbatim>\<open>Category::message()\<close>: a total \<^verbatim>\<open>switch\<close> whose sentinel case and whose fall-through
  are failed assertions.
\<close>

definition message :: "int \<Rightarrow> string res" where
  "message v = (case code_of_value v of
      None \<Rightarrow> Inl (Assert ''false'')
    | Some S_INVALID_ARGUMENT \<Rightarrow> Inr ''User called an API with 1 or more arguments against the API spec.''
    | Some S_OBJECT_SHUTDOWN_ABORTED_COMPLETION_HANDLER \<Rightarrow>
        Inr ''Async completion handler is being called prematurely, because underlying object is shutting down, as user desires.''
    | Some S_CLIENT_NAMESPACE_STORE_BAD_FORMAT \<Rightarrow>
        Inr ''Session master channel: log-in as client: The Client Namespace Store (CNS) file (a/k/a PID file) lacks leading newline-terminated line with numeric PID.''
    | Some S_CLIENT_MASTER_LOG_IN_RESPONSE_BAD \<Rightarrow>
        Inr ''Session master channel: log-in as client: received log-in response is not the expected internal message.''
    | Some S_SERVER_MASTER_LOG_IN_REQUEST_CLIENT_APP_DISALLOWED_OR_UNKNOWN \<Rightarrow>
        Inr ''Session master channel: log-in as server: client identifies self as unknown client-app or one that is not registered as an allowed partner to this server-app.''
    | Some S_SERVER_MASTER_LOG_IN_REQUEST_CLIENT_APP_INCONSISTENT_CREDS \<Rightarrow>
        Inr ''Session master channel: log-in as server: client application-level process credentials (UID, etc.) do not match the registered values and/or the OS-reported client peer values from socket stream.''
    | Some S_SESSION_OPEN_CHANNEL_REMOTE_PEER_REJECTED_PASSIVE_OPEN \<Rightarrow>
        Inr ''Session channel opening: User code chose to reject all passive-open requests.''
    | Some S_SESSION_OPEN_CHANNEL_SERVER_CANNOT_PROCEED_RESOURCE_UNAVAILABLE \<Rightarrow>
        Inr ''Session channel opening: Server peer is responsible for low-level resource acquisition but failed to do so.  Session continues; this is not a fatal error.''
    | Some S_SESSION_OPEN_CHANNEL_ACTIVE_TIMEOUT \<Rightarrow>
        Inr ''Session channel opening: Other peer must reply quickly enough as-if non-blocking but did not do so in time.''
    | Some S_MUTEX_BIPC_MISC_LIBRARY_ERROR \<Rightarrow>
        Inr ''Low-level boost.ipc.mutex: boost.interprocess emitted miscellaneous library exception sans a system code; a WARNING message at throw-time should contain all possible details.''
    | Some S_SERVER_MASTER_POST_LOG_IN_SEND_FAILED_MISC \<Rightarrow>
        Inr ''Session master channel: post-log-in setup (such as SHM setup): send failed because channel hosed around that time.  Timing was such that exact reason for this could not be obtained, but logs will show it.''
    | Some S_SERVER_MASTER_LOG_IN_REQUEST_CONFIG_MISMATCH \<Rightarrow>
        Inr ''Session master channel: log-in as server: opposing client's compile-time type config differs from local server's counterpart config; did you use the proper Server/Client_session paired templates and mutually equal template parameters?''
    | Some S_RESOURCE_OWNER_UNEXPECTED \<Rightarrow>
        Inr ''A resource in the file system (file, SHM pool, MQ, etc.) has or could have unexpected owner; ipc::session may emit this when acquiring resources and/or opening session if the server process is not running as the configured user, or a previous iteration was not running as that user.''
    | Some S_SESSION_FINISHED \<Rightarrow>
        Inr ''The opposing end of the session in question has been closed gracefully by the user invoking the end-session API.''
    | Some S_END_SENTINEL \<Rightarrow>
        Inl (Assert ''SENTINEL: Not an error.  This Code must never be issued by an error/success-emitting API; I/O use only.''))"

section \<open>Error codes as values\<close>

text \<open>
  Codes of \<^verbatim>\<open>ipc::transport\<close> (not part of this repository): the two the session module
  distinguishes by name, and the rest.
\<close>

datatype transport_code = T_TIMEOUT | T_OBJECT_SHUTDOWN_ABORTED_COMPLETION_HANDLER | T_OTHER nat

datatype error_code = Session_err code | Transport_err transport_code | System_err int

definition make_error_code :: "code \<Rightarrow> error_code" where
  "make_error_code c = Session_err c"

section \<open>Lemmas\<close>

lemma codes_all: "set codes = UNIV"
proof -
  have "c \<in> set codes" for c by (cases c) (simp_all add: codes_def)
  then show ?thesis by auto
qed

lemma code_of_value_of [simp]: "code_of_value (code_value c) = Some c"
  by (cases c) (simp_all add: code_of_value_def codes_def S_CODE_LOWEST_INT_VALUE_def)

lemma code_of_value_Some: "code_of_value v = Some c \<longleftrightarrow> v = code_value c"
proof
  assume "code_of_value v = Some c"
  then show "v = code_value c"
    unfolding code_of_value_def find_Some_iff by auto
qed simp

lemma code_value_range: "1 \<le> code_value c" "code_value c \<le> 15"
  by (cases c, simp_all add: S_CODE_LOWEST_INT_VALUE_def)+

text \<open>
  An \<^verbatim>\<open>int\<close> has a message exactly when it is the value of a code other than the
  sentinel; every other value trips an assertion.
\<close>

theorem message_returns_iff:
  "returns (message v) \<longleftrightarrow> 1 \<le> v \<and> v < code_value S_END_SENTINEL"
proof (cases "code_of_value v")
  case None
  have "False" if "1 \<le> v" "v < 15"
  proof -
    from None have "\<forall>c. code_value c \<noteq> v"
      by (metis code_of_value_of option.distinct(1))
    then have "v \<notin> code_value ` set codes" by auto
    then show False
      using that by (simp add: codes_def S_CODE_LOWEST_INT_VALUE_def) presburger
  qed
  with None show ?thesis by (auto simp: message_def)
next
  case (Some c)
  then have "v = code_value c" by (simp add: code_of_value_Some)
  with Some show ?thesis
    by (cases c) (simp_all add: message_def S_CODE_LOWEST_INT_VALUE_def)
qed

lemma code_symbol_inj [simp]: "code_symbol c = code_symbol d \<longleftrightarrow> c = d"
  by (cases c; cases d) simp_all

end
