(* ===== verification/Shared_Names.thy ===== *)
theory Shared_Names
  imports Errors
begin

text \<open>
  \<^verbatim>\<open>detail/session_shared_name.{hpp,cpp}\<close>: the two conventional schemes for names of
  shared resources, \<^verbatim>\<open>build_conventional_shared_name()\<close> (overload 1 for resources of a
  session, overload 2 for global ones), the prefix both share, and the two
  \<^verbatim>\<open>decompose_conventional_shared_name()\<close> overloads.

  \<^verbatim>\<open>util::Shared_name\<close> itself is not part of this repository: its constants and operators
  are the record \<open>shared_name_lib\<close>, an argument of every definition, and what the sources
  rely on is the predicate \<open>shared_name_laws\<close>. A \<^verbatim>\<open>Shared_name\<close> is the string of its
  \<^verbatim>\<open>str()\<close>.
\<close>

type_synonym shared_name = string

record shared_name_lib =
  S_SEPARATOR :: char
  S_ROOT_MAGIC :: shared_name
  S_SENTINEL :: shared_name
  S_RESOURCE_TYPE_ID_MUTEX :: shared_name
  ACCEPTOR_RESOURCE_TYPE_ID :: shared_name \<comment> \<open>\<^verbatim>\<open>Native_socket_stream_acceptor::S_RESOURCE_TYPE_ID\<close>\<close>
  MQ_RESOURCE_TYPE_ID :: shared_name \<comment> \<open>\<^verbatim>\<open>Persistent_mq_handle::S_RESOURCE_TYPE_ID\<close>\<close>
  sn_div :: "shared_name \<Rightarrow> shared_name \<Rightarrow> shared_name" \<comment> \<open>\<^verbatim>\<open>operator/=\<close>\<close>
  sn_add :: "shared_name \<Rightarrow> shared_name \<Rightarrow> shared_name" \<comment> \<open>\<^verbatim>\<open>operator+=\<close>\<close>
  sn_has_trailing_separator :: "shared_name \<Rightarrow> bool"

definition sn_piece :: "shared_name_lib \<Rightarrow> string \<Rightarrow> bool" where
  "sn_piece L s \<longleftrightarrow> no_sep (S_SEPARATOR L) s"

text \<open>
  The documented behaviour of \<^verbatim>\<open>Shared_name\<close> the code relies on: \<^verbatim>\<open>+=\<close> appends,
  \<^verbatim>\<open>/=\<close> puts one separator between two names when neither side has it there already,
  and the constants are path components.
\<close>

definition shared_name_laws :: "shared_name_lib \<Rightarrow> bool" where
  "shared_name_laws L \<longleftrightarrow>
     (\<forall>a b. sn_add L a b = a @ b) \<and>
     (\<forall>a b. (a = [] \<or> last a \<noteq> S_SEPARATOR L) \<longrightarrow> (b = [] \<or> hd b \<noteq> S_SEPARATOR L) \<longrightarrow>
        sn_div L a b = a @ [S_SEPARATOR L] @ b) \<and>
     (\<forall>a. sn_has_trailing_separator L a \<longleftrightarrow> a \<noteq> [] \<and> last a = S_SEPARATOR L) \<and>
     \<not> is_digit (S_SEPARATOR L) \<and>
     S_SEPARATOR L \<notin> set ''-uces'' \<and>
     sn_piece L (S_ROOT_MAGIC L) \<and> sn_piece L (S_RESOURCE_TYPE_ID_MUTEX L) \<and>
     sn_piece L (ACCEPTOR_RESOURCE_TYPE_ID L) \<and> sn_piece L (MQ_RESOURCE_TYPE_ID L) \<and>
     S_SENTINEL L = ''0''"

text \<open>A concrete library on which witnesses evaluate.\<close>

definition demo_lib :: shared_name_lib where
  "demo_lib = \<lparr> S_SEPARATOR = CHR ''_'', S_ROOT_MAGIC = ''libipc'', S_SENTINEL = ''0'',
     S_RESOURCE_TYPE_ID_MUTEX = ''mutex'', ACCEPTOR_RESOURCE_TYPE_ID = ''nssa'',
     MQ_RESOURCE_TYPE_ID = ''posixq'',
     sn_div = (\<lambda>a b. if a \<noteq> [] \<and> last a = CHR ''_'' then a @ b else a @ CHR ''_'' # b),
     sn_add = (@), sn_has_trailing_separator = (\<lambda>a. a \<noteq> [] \<and> last a = CHR ''_'') \<rparr>"

section \<open>Building\<close>

definition build_conventional_shared_name_prefix ::
    "shared_name_lib \<Rightarrow> shared_name \<Rightarrow> shared_name \<Rightarrow> shared_name res" where
  "build_conventional_shared_name_prefix L resource_type srv_app_name =
     ensure (resource_type \<noteq> []) ''!resource_type.empty()'' (
     ensure (srv_app_name \<noteq> []) ''!srv_app_name.empty()'' (
     ensure (srv_app_name \<noteq> S_SENTINEL L) ''srv_app_name != SENTINEL'' (
       let name = [];
           name = sn_div L name (S_ROOT_MAGIC L);
           name = sn_div L name resource_type;
           name = sn_div L name srv_app_name;
           name = sn_div L name []
       in Inr name)))"

definition build_conventional_shared_name_1 ::
    "shared_name_lib \<Rightarrow> shared_name \<Rightarrow> shared_name \<Rightarrow> shared_name \<Rightarrow> shared_name \<Rightarrow> shared_name \<Rightarrow>
     shared_name res" where
  "build_conventional_shared_name_1 L resource_type srv_app_name srv_namespace cli_app_name
       cli_namespace_or_sentinel =
     ensure (srv_namespace \<noteq> []) ''!srv_namespace.empty()'' (
     ensure (cli_app_name \<noteq> []) ''!cli_app_name.empty()'' (
     ensure (cli_namespace_or_sentinel \<noteq> []) ''!cli_namespace_or_sentinel.empty()'' (
     ensure (srv_namespace \<noteq> S_SENTINEL L) ''srv_namespace != SENTINEL'' (
     ensure (cli_app_name \<noteq> S_SENTINEL L) ''cli_app_name != SENTINEL'' (
     res_bind (build_conventional_shared_name_prefix L resource_type srv_app_name) (\<lambda>name.
     ensure (sn_has_trailing_separator L name) ''name.has_trailing_separator()'' (
       let name = sn_add L name srv_namespace;
           name = sn_div L name cli_app_name;
           name = sn_div L name cli_namespace_or_sentinel
       in Inr name)))))))"

definition build_conventional_shared_name_2 ::
    "shared_name_lib \<Rightarrow> shared_name \<Rightarrow> shared_name \<Rightarrow> shared_name \<Rightarrow> shared_name res" where
  "build_conventional_shared_name_2 L resource_type srv_app_name srv_namespace_or_sentinel =
     ensure (srv_namespace_or_sentinel \<noteq> []) ''!srv_namespace_or_sentinel.empty()'' (
     res_bind (build_conventional_shared_name_prefix L resource_type srv_app_name) (\<lambda>name.
     ensure (sn_has_trailing_separator L name) ''name.has_trailing_separator()'' (
       let name = sn_add L name srv_namespace_or_sentinel;
           name = sn_div L name (S_SENTINEL L)
       in Inr name)))"

section \<open>Decomposing\<close>

text \<open>
  The regular expressions. \<open>segments\<close> matches \<open>n\<close> groups \<^verbatim>\<open>([^SEP]+)SEP\<close>; as a group
  stops exactly at the next separator, the match is unique. \<open>any_chars\<close> is \<^verbatim>\<open>(.*)\<close> of
  the ECMAScript syntax \<^verbatim>\<open>std::regex\<close> uses by default: no line terminator.
\<close>

definition strip_prefix :: "string \<Rightarrow> string \<Rightarrow> string option" where
  "strip_prefix p s = (if take (length p) s = p then Some (drop (length p) s) else None)"

definition segment :: "char \<Rightarrow> string \<Rightarrow> (string \<times> string) option" where
  "segment sep s = (let g = takeWhile (\<lambda>c. c \<noteq> sep) s; r = dropWhile (\<lambda>c. c \<noteq> sep) s
     in if g = [] \<or> r = [] then None else Some (g, tl r))"

fun segments :: "char \<Rightarrow> nat \<Rightarrow> string \<Rightarrow> (string list \<times> string) option" where
  "segments sep 0 s = Some ([], s)"
| "segments sep (Suc n) s = (case segment sep s of
     None \<Rightarrow> None
   | Some (g, r) \<Rightarrow> map_option (\<lambda>(gs, r'). (g # gs, r')) (segments sep n r))"

definition any_chars :: "string \<Rightarrow> bool" where
  "any_chars s \<longleftrightarrow> (\<forall>c \<in> set s. c \<noteq> CHR 0x0A \<and> c \<noteq> CHR 0x0D)"

text \<open>
  Overload 1 yields \<open>resource_type\<close>, \<open>srv_app_name\<close>, \<open>srv_namespace\<close>, \<open>cli_app_name\<close>,
  \<open>cli_namespace_or_sentinel\<close>, \<open>the_rest\<close>; \<open>None\<close> is \<^verbatim>\<open>false\<close>, with no out-argument set.
\<close>

type_synonym name_parts_1 = "shared_name \<times> shared_name \<times> shared_name \<times> shared_name \<times> shared_name"
type_synonym name_parts_2 = "shared_name \<times> shared_name \<times> shared_name"

definition decompose_conventional_shared_name_1 ::
    "shared_name_lib \<Rightarrow> shared_name \<Rightarrow> (name_parts_1 \<times> shared_name) option" where
  "decompose_conventional_shared_name_1 L name =
     (case strip_prefix (S_SEPARATOR L # S_ROOT_MAGIC L @ [S_SEPARATOR L]) name of
        None \<Rightarrow> None
      | Some s \<Rightarrow> (case segments (S_SEPARATOR L) 5 s of
          Some ([resource_type, srv_app_name, srv_namespace, cli_app_name, cli_namespace_or_sentinel],
                the_rest) \<Rightarrow>
            if \<not> any_chars the_rest then None
            else if srv_namespace = S_SENTINEL L then None
            else Some ((resource_type, srv_app_name, srv_namespace, cli_app_name,
                        cli_namespace_or_sentinel), the_rest)
        | _ \<Rightarrow> None))"

definition decompose_conventional_shared_name_2 ::
    "shared_name_lib \<Rightarrow> shared_name \<Rightarrow> (name_parts_2 \<times> shared_name) option" where
  "decompose_conventional_shared_name_2 L name =
     (case strip_prefix (S_SEPARATOR L # S_ROOT_MAGIC L @ [S_SEPARATOR L]) name of
        None \<Rightarrow> None
      | Some s \<Rightarrow> (case segments (S_SEPARATOR L) 3 s of
          Some ([resource_type, srv_app_name, srv_namespace_or_sentinel], s') \<Rightarrow>
            (case strip_prefix (S_SENTINEL L @ [S_SEPARATOR L]) s' of
               None \<Rightarrow> None
             | Some the_rest \<Rightarrow>
                 if \<not> any_chars the_rest then None
                 else Some ((resource_type, srv_app_name, srv_namespace_or_sentinel), the_rest))
        | _ \<Rightarrow> None))"

section \<open>The laws at work\<close>

named_theorems sn_simps "the documented laws of Shared_name"

lemma demo_lib_laws: "shared_name_laws demo_lib"
  by (auto simp: shared_name_laws_def demo_lib_def sn_piece_def no_sep_def is_digit_def)

lemma sn_add_append [sn_simps]: "shared_name_laws L \<Longrightarrow> sn_add L a b = a @ b"
  by (simp add: shared_name_laws_def)

lemma sn_div_sep:
  "shared_name_laws L \<Longrightarrow> a = [] \<or> last a \<noteq> S_SEPARATOR L \<Longrightarrow> b = [] \<or> hd b \<noteq> S_SEPARATOR L \<Longrightarrow>
   sn_div L a b = a @ [S_SEPARATOR L] @ b"
  unfolding shared_name_laws_def by blast

lemma sn_trailing [sn_simps]:
  "shared_name_laws L \<Longrightarrow> sn_has_trailing_separator L a \<longleftrightarrow> a \<noteq> [] \<and> last a = S_SEPARATOR L"
  by (simp add: shared_name_laws_def)

lemma sn_consts:
  assumes "shared_name_laws L"
  shows "sn_piece L (S_ROOT_MAGIC L)" "sn_piece L (S_RESOURCE_TYPE_ID_MUTEX L)"
    "sn_piece L (ACCEPTOR_RESOURCE_TYPE_ID L)" "sn_piece L (MQ_RESOURCE_TYPE_ID L)"
    "\<not> is_digit (S_SEPARATOR L)"
  using assms by (simp_all add: shared_name_laws_def)

lemma sn_sentinel: "shared_name_laws L \<Longrightarrow> S_SENTINEL L = ''0''"
  by (simp add: shared_name_laws_def)

lemma sn_piece_sentinel: "shared_name_laws L \<Longrightarrow> sn_piece L (S_SENTINEL L)"
  by (auto simp: shared_name_laws_def sn_piece_def no_sep_def is_digit_def)

lemma sn_piece_to_string: "shared_name_laws L \<Longrightarrow> sn_piece L (to_string n)"
  by (simp add: sn_piece_def no_sep_to_string sn_consts)

lemma sn_piece_int_to_string: "shared_name_laws L \<Longrightarrow> sn_piece L (int_to_string i)"
  unfolding sn_piece_def
  by (rule no_sep_int_to_string) (auto simp: shared_name_laws_def)

lemma sn_piece_hd: "sn_piece L b \<Longrightarrow> b \<noteq> [] \<and> hd b \<noteq> S_SEPARATOR L"
  by (cases b) (auto simp: sn_piece_def no_sep_def)

lemma sn_piece_last: "sn_piece L b \<Longrightarrow> b \<noteq> [] \<and> last b \<noteq> S_SEPARATOR L"
  by (metis last_in_set no_sep_def sn_piece_def)

lemma sn_div_piece [sn_simps]:
  "shared_name_laws L \<Longrightarrow> sn_piece L a' \<Longrightarrow> sn_piece L b \<Longrightarrow>
   sn_div L (a @ a') b = a @ a' @ [S_SEPARATOR L] @ b"
  using sn_div_sep [of L "a @ a'" b] sn_piece_last [of L a'] sn_piece_hd [of L b] by auto

lemma sn_div_first [sn_simps]:
  "shared_name_laws L \<Longrightarrow> sn_piece L b \<Longrightarrow> sn_div L [] b = S_SEPARATOR L # b"
  using sn_div_sep [of L "[]" b] sn_piece_hd [of L b] by auto

lemma sn_div_cons_piece [sn_simps]:
  "shared_name_laws L \<Longrightarrow> sn_piece L a' \<Longrightarrow> sn_piece L b \<Longrightarrow>
   sn_div L (S_SEPARATOR L # a') b = S_SEPARATOR L # a' @ [S_SEPARATOR L] @ b"
  using sn_div_piece [of L a' b "[S_SEPARATOR L]"] by simp

lemma sn_div_end [sn_simps]:
  "shared_name_laws L \<Longrightarrow> sn_piece L a' \<Longrightarrow> sn_div L (a @ a') [] = a @ a' @ [S_SEPARATOR L]"
  using sn_div_sep [of L "a @ a'" "[]"] sn_piece_last [of L a'] by auto

text \<open>\<open>join_pieces\<close> is the shape of every conventional name.\<close>

definition join_pieces :: "shared_name_lib \<Rightarrow> shared_name list \<Rightarrow> shared_name" where
  "join_pieces L ps = concat (map (\<lambda>p. S_SEPARATOR L # p) ps)"

lemma join_pieces_simps [simp]:
  "join_pieces L [] = []" "join_pieces L (p # ps) = S_SEPARATOR L # p @ join_pieces L ps"
  "join_pieces L (ps @ qs) = join_pieces L ps @ join_pieces L qs"
  by (simp_all add: join_pieces_def)

lemma prefix_form:
  assumes "shared_name_laws L" "sn_piece L rt" "sn_piece L app"
  shows "build_conventional_shared_name_prefix L rt app =
    (if app = S_SENTINEL L then Inl (Assert ''srv_app_name != SENTINEL'')
     else Inr (join_pieces L [S_ROOT_MAGIC L, rt, app, []]))"
proof -
  note [simp] = sn_consts(1) [OF assms(1)] assms
  have "rt \<noteq> []" "app \<noteq> []" using assms(2,3) [THEN sn_piece_hd] by blast+
  moreover have "sn_div L (S_SEPARATOR L # S_ROOT_MAGIC L @ S_SEPARATOR L # rt) app =
      S_SEPARATOR L # S_ROOT_MAGIC L @ S_SEPARATOR L # rt @ S_SEPARATOR L # app"
    using sn_div_piece [of L rt app "S_SEPARATOR L # S_ROOT_MAGIC L @ [S_SEPARATOR L]"] by simp
  moreover have "sn_div L (S_SEPARATOR L # S_ROOT_MAGIC L @ S_SEPARATOR L # rt @ S_SEPARATOR L # app) [] =
      S_SEPARATOR L # S_ROOT_MAGIC L @ S_SEPARATOR L # rt @ S_SEPARATOR L # app @ [S_SEPARATOR L]"
    using sn_div_end [of L app "S_SEPARATOR L # S_ROOT_MAGIC L @ S_SEPARATOR L # rt @ [S_SEPARATOR L]"]
    by simp
  ultimately show ?thesis
    by (simp add: build_conventional_shared_name_prefix_def Let_def sn_div_first sn_div_cons_piece)
qed

lemma build_1_form:
  assumes L: "shared_name_laws L" and p: "sn_piece L rt" "sn_piece L app" "sn_piece L ns"
    "sn_piece L cli" "sn_piece L cns"
    and s: "app \<noteq> S_SENTINEL L" "ns \<noteq> S_SENTINEL L" "cli \<noteq> S_SENTINEL L"
  shows "build_conventional_shared_name_1 L rt app ns cli cns =
    Inr (join_pieces L [S_ROOT_MAGIC L, rt, app, ns, cli, cns])"
proof -
  have ne: "ns \<noteq> []" "cli \<noteq> []" "cns \<noteq> []" using p by (auto dest: sn_piece_hd)
  have d1: "sn_div L (x @ S_SEPARATOR L # ns) cli = x @ S_SEPARATOR L # ns @ S_SEPARATOR L # cli" for x
    using sn_div_piece [OF L p(3,4), of "x @ [S_SEPARATOR L]"] by simp
  have d2: "sn_div L (x @ S_SEPARATOR L # cli) cns = x @ S_SEPARATOR L # cli @ S_SEPARATOR L # cns" for x
    using sn_div_piece [OF L p(4,5), of "x @ [S_SEPARATOR L]"] by simp
  let ?x = "join_pieces L [S_ROOT_MAGIC L, rt, app]"
  show ?thesis
    using prefix_form [OF L p(1,2)] s ne d1 [of ?x] d2 [of "?x @ S_SEPARATOR L # ns"]
    by (simp add: build_conventional_shared_name_1_def sn_trailing [OF L] sn_add_append [OF L] Let_def)
qed

lemma build_2_form:
  assumes L: "shared_name_laws L" and p: "sn_piece L rt" "sn_piece L app" "sn_piece L ns"
    and s: "app \<noteq> S_SENTINEL L"
  shows "build_conventional_shared_name_2 L rt app ns =
    Inr (join_pieces L [S_ROOT_MAGIC L, rt, app, ns, S_SENTINEL L])"
proof -
  have ne: "ns \<noteq> []" using p by (auto dest: sn_piece_hd)
  have d1: "sn_div L (x @ S_SEPARATOR L # ns) (S_SENTINEL L) =
      x @ S_SEPARATOR L # ns @ S_SEPARATOR L # S_SENTINEL L" for x
    using sn_div_piece [OF L p(3) sn_piece_sentinel [OF L], of "x @ [S_SEPARATOR L]"] by simp
  show ?thesis
    using prefix_form [OF L p(1,2)] s ne d1 [of "join_pieces L [S_ROOT_MAGIC L, rt, app]"]
    by (simp add: build_conventional_shared_name_2_def sn_trailing [OF L] sn_add_append [OF L] Let_def)
qed

section \<open>Decomposition of joined pieces\<close>

lemma segment_piece: "no_sep sep g \<Longrightarrow> segment sep (g @ sep # r) = Some (g, r)"
  by (simp add: segment_def no_sep_takeWhile no_sep_dropWhile no_sep_nonempty)

lemma segment_Some: "segment sep s = Some (g, r) \<Longrightarrow> no_sep sep g \<and> s = g @ sep # r"
proof -
  assume a: "segment sep s = Some (g, r)"
  then have g: "g = takeWhile (\<lambda>c. c \<noteq> sep) s" "g \<noteq> []"
    and r: "dropWhile (\<lambda>c. c \<noteq> sep) s \<noteq> []" "r = tl (dropWhile (\<lambda>c. c \<noteq> sep) s)"
    by (auto simp: segment_def Let_def split: if_splits)
  have "hd (dropWhile (\<lambda>c. c \<noteq> sep) s) = sep"
    using hd_dropWhile r(1) by blast
  then have "dropWhile (\<lambda>c. c \<noteq> sep) s = sep # r" using r by (metis list.collapse)
  moreover have "sep \<notin> set g" using g(1) by (auto dest: set_takeWhileD)
  ultimately show ?thesis using g by (metis no_sep_def takeWhile_dropWhile_id)
qed

lemma segments_pieces:
  "\<forall>g \<in> set gs. no_sep sep g \<Longrightarrow>
   segments sep (length gs) (concat (map (\<lambda>g. g @ [sep]) gs) @ r) = Some (gs, r)"
  by (induction gs) (simp_all add: segment_piece)

lemma segments_Some:
  "segments sep n s = Some (gs, r) \<Longrightarrow>
   length gs = n \<and> (\<forall>g \<in> set gs. no_sep sep g) \<and> s = concat (map (\<lambda>g. g @ [sep]) gs) @ r"
  by (induction n arbitrary: s gs) (auto split: option.splits dest!: segment_Some)

lemma strip_prefix_append [simp]: "strip_prefix p (p @ s) = Some s"
  by (simp add: strip_prefix_def)

lemma strip_prefix_Some: "strip_prefix p s = Some r \<Longrightarrow> s = p @ r"
  by (auto simp: strip_prefix_def split: if_splits) (metis append_take_drop_id)

lemma join_pieces_alt: "concat (map (\<lambda>g. g @ [S_SEPARATOR L]) gs) @ r =
  (if gs = [] then r else tl (join_pieces L gs) @ S_SEPARATOR L # r)"
proof (induction gs)
  case (Cons g gs)
  then show ?case by (cases gs) simp_all
qed simp

lemma length_5: "length gs = 5 \<longleftrightarrow> (\<exists>a b c d e. gs = [a, b, c, d, e])"
  by (simp add: eval_nat_numeral length_Suc_conv) blast

lemma length_3: "length gs = 3 \<longleftrightarrow> (\<exists>a b c. gs = [a, b, c])"
  by (simp add: eval_nat_numeral length_Suc_conv) blast

lemma segments_5:
  "segments sep 5 s = Some (gs, r) \<longleftrightarrow> (\<exists>a b c d e. gs = [a, b, c, d, e] \<and>
     no_sep sep a \<and> no_sep sep b \<and> no_sep sep c \<and> no_sep sep d \<and> no_sep sep e \<and>
     s = a @ sep # b @ sep # c @ sep # d @ sep # e @ sep # r)"
  (is "?l \<longleftrightarrow> ?r")
proof
  assume ?l
  with segments_Some [of sep 5 s gs r] show ?r by (auto simp: length_5)
next
  assume ?r
  then show ?l by (auto simp: eval_nat_numeral segment_piece)
qed

lemma segments_3:
  "segments sep 3 s = Some (gs, r) \<longleftrightarrow> (\<exists>a b c. gs = [a, b, c] \<and>
     no_sep sep a \<and> no_sep sep b \<and> no_sep sep c \<and> s = a @ sep # b @ sep # c @ sep # r)"
  (is "?l \<longleftrightarrow> ?r")
proof
  assume ?l
  with segments_Some [of sep 3 s gs r] show ?r by (auto simp: length_3)
next
  assume ?r
  then show ?l by (auto simp: eval_nat_numeral segment_piece)
qed

text \<open>Both regular expressions accept exactly the joined pieces followed by a separator.\<close>

lemma decompose_1_iff:
  "decompose_conventional_shared_name_1 L s = Some ((rt, app, ns, cli, cns), r) \<longleftrightarrow>
     sn_piece L rt \<and> sn_piece L app \<and> sn_piece L ns \<and> sn_piece L cli \<and> sn_piece L cns \<and>
     ns \<noteq> S_SENTINEL L \<and> any_chars r \<and>
     s = join_pieces L [S_ROOT_MAGIC L, rt, app, ns, cli, cns] @ S_SEPARATOR L # r"
  (is "?l \<longleftrightarrow> ?r")
proof
  assume ?l
  then obtain s' where s': "strip_prefix (S_SEPARATOR L # S_ROOT_MAGIC L @ [S_SEPARATOR L]) s = Some s'"
    and seg: "segments (S_SEPARATOR L) 5 s' = Some ([rt, app, ns, cli, cns], r)"
    and "ns \<noteq> S_SENTINEL L" "any_chars r"
    by (auto simp: decompose_conventional_shared_name_1_def
        split: option.splits list.splits prod.splits if_splits)
  with strip_prefix_Some [OF s'] show ?r by (auto simp: segments_5 sn_piece_def)
next
  assume r: ?r
  let ?p = "S_SEPARATOR L # S_ROOT_MAGIC L @ [S_SEPARATOR L]"
  let ?t = "rt @ S_SEPARATOR L # app @ S_SEPARATOR L # ns @ S_SEPARATOR L # cli @ S_SEPARATOR L # cns @
    S_SEPARATOR L # r"
  from r have s: "s = ?p @ ?t" by simp
  have "segments (S_SEPARATOR L) 5 ?t = Some ([rt, app, ns, cli, cns], r)"
    using r by (simp add: segments_5 sn_piece_def)
  with r show ?l unfolding s decompose_conventional_shared_name_1_def strip_prefix_append by simp
qed

lemma decompose_2_iff:
  "decompose_conventional_shared_name_2 L s = Some ((rt, app, ns), r) \<longleftrightarrow>
     sn_piece L rt \<and> sn_piece L app \<and> sn_piece L ns \<and> any_chars r \<and>
     s = join_pieces L [S_ROOT_MAGIC L, rt, app, ns, S_SENTINEL L] @ S_SEPARATOR L # r"
  (is "?l \<longleftrightarrow> ?r")
proof
  assume ?l
  then obtain s' s'' where s': "strip_prefix (S_SEPARATOR L # S_ROOT_MAGIC L @ [S_SEPARATOR L]) s = Some s'"
    and seg: "segments (S_SEPARATOR L) 3 s' = Some ([rt, app, ns], s'')"
    and s'': "strip_prefix (S_SENTINEL L @ [S_SEPARATOR L]) s'' = Some r" and "any_chars r"
    by (auto simp: decompose_conventional_shared_name_2_def
        split: option.splits list.splits prod.splits if_splits)
  with strip_prefix_Some [OF s'] strip_prefix_Some [OF s'']
  show ?r by (auto simp: segments_3 sn_piece_def)
next
  assume r: ?r
  let ?p = "S_SEPARATOR L # S_ROOT_MAGIC L @ [S_SEPARATOR L]"
  let ?q = "S_SENTINEL L @ [S_SEPARATOR L]"
  let ?t = "rt @ S_SEPARATOR L # app @ S_SEPARATOR L # ns @ S_SEPARATOR L # ?q @ r"
  from r have s: "s = ?p @ ?t" by simp
  have "segments (S_SEPARATOR L) 3 ?t = Some ([rt, app, ns], ?q @ r)"
    using r by (simp add: segments_3 sn_piece_def)
  moreover have "strip_prefix ?q (S_SENTINEL L @ S_SEPARATOR L # r) = Some r"
    using strip_prefix_append [of ?q r] by simp
  ultimately show ?l using r
    unfolding s decompose_conventional_shared_name_2_def strip_prefix_append by simp
qed

section \<open>The naming contract\<close>

text \<open>
  What a naming scheme promises its clients: every well-formed tuple of components has a
  name, and a name followed by a separator and more text is read back unambiguously.
\<close>

locale name_codec =
  fixes build :: "'a \<Rightarrow> shared_name res"
    and decompose :: "shared_name \<Rightarrow> ('a \<times> shared_name) option"
    and sep :: char
    and ok :: "'a \<Rightarrow> bool"
  assumes build_ok: "ok a \<Longrightarrow> returns (build a)"
    and decompose_build: "ok a \<Longrightarrow> build a = Inr n \<Longrightarrow> any_chars r \<Longrightarrow> decompose (n @ sep # r) = Some (a, r)"
    and build_decompose: "ok a \<Longrightarrow> decompose s = Some (a, r) \<Longrightarrow> \<exists>n. build a = Inr n \<and> s = n @ sep # r"
begin

lemma build_inj: "ok a \<Longrightarrow> ok b \<Longrightarrow> build a = Inr n \<Longrightarrow> build b = Inr n \<Longrightarrow> a = b"
  using decompose_build [of a n "[]"] decompose_build [of b n "[]"]
  by (simp add: any_chars_def)

lemma build_prefix_free:
  "ok a \<Longrightarrow> ok b \<Longrightarrow> build a = Inr n \<Longrightarrow> build b = Inr m \<Longrightarrow> any_chars r \<Longrightarrow> any_chars q \<Longrightarrow>
   n @ sep # r = m @ sep # q \<Longrightarrow> a = b \<and> r = q"
  by (metis decompose_build option.inject prod.inject)

lemma decompose_iff:
  "ok a \<Longrightarrow> any_chars r \<Longrightarrow> decompose s = Some (a, r) \<longleftrightarrow> (\<exists>n. build a = Inr n \<and> s = n @ sep # r)"
  using build_decompose decompose_build by blast

end

definition ok_1 :: "shared_name_lib \<Rightarrow> name_parts_1 \<Rightarrow> bool" where
  "ok_1 L = (\<lambda>(rt, app, ns, cli, cns). shared_name_laws L \<and> sn_piece L rt \<and> sn_piece L app \<and>
     sn_piece L ns \<and> sn_piece L cli \<and> sn_piece L cns \<and>
     app \<noteq> S_SENTINEL L \<and> ns \<noteq> S_SENTINEL L \<and> cli \<noteq> S_SENTINEL L)"

definition ok_2 :: "shared_name_lib \<Rightarrow> name_parts_2 \<Rightarrow> bool" where
  "ok_2 L = (\<lambda>(rt, app, ns). shared_name_laws L \<and> sn_piece L rt \<and> sn_piece L app \<and>
     sn_piece L ns \<and> app \<noteq> S_SENTINEL L)"

definition build_1 :: "shared_name_lib \<Rightarrow> name_parts_1 \<Rightarrow> shared_name res" where
  "build_1 L = (\<lambda>(rt, app, ns, cli, cns). build_conventional_shared_name_1 L rt app ns cli cns)"

definition build_2 :: "shared_name_lib \<Rightarrow> name_parts_2 \<Rightarrow> shared_name res" where
  "build_2 L = (\<lambda>(rt, app, ns). build_conventional_shared_name_2 L rt app ns)"

lemma build_1_ok: "ok_1 L (rt, app, ns, cli, cns) \<Longrightarrow>
  build_1 L (rt, app, ns, cli, cns) = Inr (join_pieces L [S_ROOT_MAGIC L, rt, app, ns, cli, cns])"
  using build_1_form [of L rt app ns cli cns] by (simp add: ok_1_def build_1_def)

lemma build_2_ok: "ok_2 L (rt, app, ns) \<Longrightarrow>
  build_2 L (rt, app, ns) = Inr (join_pieces L [S_ROOT_MAGIC L, rt, app, ns, S_SENTINEL L])"
  using build_2_form [of L rt app ns] by (simp add: ok_2_def build_2_def)

lemma decompose_1_ok: "ok_1 L (rt, app, ns, cli, cns) \<Longrightarrow>
  decompose_conventional_shared_name_1 L s = Some ((rt, app, ns, cli, cns), r) \<longleftrightarrow>
  any_chars r \<and> s = join_pieces L [S_ROOT_MAGIC L, rt, app, ns, cli, cns] @ S_SEPARATOR L # r"
  by (simp add: ok_1_def decompose_1_iff)

lemma decompose_2_ok: "ok_2 L (rt, app, ns) \<Longrightarrow>
  decompose_conventional_shared_name_2 L s = Some ((rt, app, ns), r) \<longleftrightarrow>
  any_chars r \<and> s = join_pieces L [S_ROOT_MAGIC L, rt, app, ns, S_SENTINEL L] @ S_SEPARATOR L # r"
  by (simp add: ok_2_def decompose_2_iff)

interpretation session_names: name_codec "build_1 L" "decompose_conventional_shared_name_1 L"
  "S_SEPARATOR L" "ok_1 L" for L
proof (unfold_locales, goal_cases)
  case (1 a)
  then show ?case by (cases a) (simp add: build_1_ok)
next
  case (2 a n r)
  then show ?case by (cases a) (auto simp: build_1_ok decompose_1_ok simp del: join_pieces_simps)
next
  case (3 a s r)
  then show ?case by (cases a) (auto simp: build_1_ok decompose_1_ok simp del: join_pieces_simps)
qed

interpretation global_names: name_codec "build_2 L" "decompose_conventional_shared_name_2 L"
  "S_SEPARATOR L" "ok_2 L" for L
proof (unfold_locales, goal_cases)
  case (1 a)
  then show ?case by (cases a) (simp add: build_2_ok)
next
  case (2 a n r)
  then show ?case by (cases a) (auto simp: build_2_ok decompose_2_ok simp del: join_pieces_simps)
next
  case (3 a s r)
  then show ?case by (cases a) (auto simp: build_2_ok decompose_2_ok simp del: join_pieces_simps)
qed

section \<open>Properties of the naming schemes\<close>

text \<open>
  C39. Overload 1: a name decomposes into well-formed components and a rest exactly when it
  is the name built from these components, a separator, and that rest.
\<close>

theorem session_name_decompose_iff:
  "ok_1 L p \<Longrightarrow> any_chars r \<Longrightarrow>
   decompose_conventional_shared_name_1 L s = Some (p, r) \<longleftrightarrow>
   (\<exists>n. build_1 L p = Inr n \<and> s = n @ S_SEPARATOR L # r)"
  by (rule session_names.decompose_iff)

lemma demo_ok_1: "ok_1 demo_lib (''posixq'', ''srv'', ''77'', ''cli'', ''5'')"
  by (simp add: ok_1_def demo_lib_laws) (simp add: demo_lib_def sn_piece_def no_sep_def)

lemma demo_build_1: "build_1 demo_lib (''posixq'', ''srv'', ''77'', ''cli'', ''5'') =
  Inr ''_libipc_posixq_srv_77_cli_5''"
  by (simp add: build_1_ok [OF demo_ok_1]) (simp add: demo_lib_def)

theorem session_name_decompose_witness:
  "decompose_conventional_shared_name_1 demo_lib ''_libipc_posixq_srv_77_cli_5_9'' =
   Some ((''posixq'', ''srv'', ''77'', ''cli'', ''5''), ''9'')"
  using session_name_decompose_iff [OF demo_ok_1, of "''9''" "''_libipc_posixq_srv_77_cli_5_9''"]
    demo_build_1
  by (simp add: any_chars_def demo_lib_def)

text \<open>
  Overload 2: a name decomposes into well-formed components and a rest exactly when it
  is the name built from these components, a separator, and that rest.
\<close>

theorem global_name_decompose_iff:
  "ok_2 L p \<Longrightarrow> any_chars r \<Longrightarrow>
   decompose_conventional_shared_name_2 L s = Some (p, r) \<longleftrightarrow>
   (\<exists>n. build_2 L p = Inr n \<and> s = n @ S_SEPARATOR L # r)"
  by (rule global_names.decompose_iff)

lemma demo_ok_2: "ok_2 demo_lib (''mutex'', ''srv'', ''0'')"
  by (simp add: ok_2_def demo_lib_laws) (simp add: demo_lib_def sn_piece_def no_sep_def)

lemma demo_build_2: "build_2 demo_lib (''mutex'', ''srv'', ''0'') = Inr ''_libipc_mutex_srv_0_0''"
  by (simp add: build_2_ok [OF demo_ok_2]) (simp add: demo_lib_def)

theorem global_name_decompose_witness:
  "decompose_conventional_shared_name_2 demo_lib ''_libipc_mutex_srv_0_0_cns'' =
   Some ((''mutex'', ''srv'', ''0''), ''cns'')"
  using global_name_decompose_iff [OF demo_ok_2, of "''cns''" "''_libipc_mutex_srv_0_0_cns''"]
    demo_build_2
  by (simp add: any_chars_def demo_lib_def)

text \<open>
  Overload 1 of the decomposition also accepts names overload 1 of the construction
  never makes: a global name of one server process (overload 2), extended by two more
  components, decomposes with the sentinel as the client application's name, and building
  from these components trips an assertion.
\<close>

theorem decompose_1_accepts_global_name:
  assumes "ok_2 L (rt, app, ns)" "ns \<noteq> S_SENTINEL L" "sn_piece L x" "any_chars r"
  shows "\<exists>n. build_conventional_shared_name_2 L rt app ns = Inr n \<and>
    decompose_conventional_shared_name_1 L (n @ S_SEPARATOR L # x @ S_SEPARATOR L # r) =
      Some ((rt, app, ns, S_SENTINEL L, x), r) \<and>
    \<not> returns (build_conventional_shared_name_1 L rt app ns (S_SENTINEL L) x)"
proof (intro exI conjI)
  show "build_conventional_shared_name_2 L rt app ns =
      Inr (join_pieces L [S_ROOT_MAGIC L, rt, app, ns, S_SENTINEL L])"
    using build_2_ok [OF assms(1)] by (simp add: build_2_def)
  show "decompose_conventional_shared_name_1 L
      (join_pieces L [S_ROOT_MAGIC L, rt, app, ns, S_SENTINEL L] @ S_SEPARATOR L # x @ S_SEPARATOR L # r) =
      Some ((rt, app, ns, S_SENTINEL L, x), r)"
    using assms sn_piece_sentinel [of L] by (simp add: decompose_1_iff ok_2_def)
  show "\<not> returns (build_conventional_shared_name_1 L rt app ns (S_SENTINEL L) x)"
    by (simp add: build_conventional_shared_name_1_def)
qed

theorem decompose_1_accepts_global_name_witness:
  "\<exists>n. build_conventional_shared_name_2 demo_lib ''nssa'' ''srv'' ''77'' = Inr n \<and>
    decompose_conventional_shared_name_1 demo_lib (n @ ''_0_'') =
      Some ((''nssa'', ''srv'', ''77'', ''0'', ''0''), []) \<and>
    \<not> returns (build_conventional_shared_name_1 demo_lib ''nssa'' ''srv'' ''77'' ''0'' ''0'')"
proof -
  have ok: "ok_2 demo_lib (''nssa'', ''srv'', ''77'')"
    by (simp add: ok_2_def demo_lib_laws) (simp add: demo_lib_def sn_piece_def no_sep_def)
  have "sn_piece demo_lib ''0''" by (simp add: sn_piece_def no_sep_def demo_lib_def)
  with decompose_1_accepts_global_name [OF ok, of "''0''" "[]"] show ?thesis
    by (simp add: demo_lib_def any_chars_def)
qed

lemma sep_prefix_split:
  assumes "no_sep c a" "no_sep c b" "prefix (a @ c # x) (b @ c # y)"
  shows "a = b \<and> prefix x y"
proof -
  from assms(3) obtain z where "b @ c # y = a @ c # (x @ z)" by (auto elim: prefixE)
  with sep_split_inj [OF assms(2,1)] have "b = a \<and> y = x @ z" by blast
  then show ?thesis by simp
qed

lemma prefix_pieces:
  assumes "sn_piece L rt" "sn_piece L app" "sn_piece L rt'" "sn_piece L app'"
    "prefix (rt' @ S_SEPARATOR L # app' @ S_SEPARATOR L # [])
      (rt @ S_SEPARATOR L # app @ S_SEPARATOR L # ns @ S_SEPARATOR L # cli @ S_SEPARATOR L # cns)"
  shows "rt' = rt \<and> app' = app"
proof -
  have s: "no_sep (S_SEPARATOR L) rt" "no_sep (S_SEPARATOR L) app" "no_sep (S_SEPARATOR L) rt'"
    "no_sep (S_SEPARATOR L) app'"
    using assms(1-4) by (simp_all add: sn_piece_def)
  from sep_prefix_split [OF s(3,1) assms(5)] have r: "rt' = rt"
    "prefix (app' @ S_SEPARATOR L # []) (app @ S_SEPARATOR L # ns @ S_SEPARATOR L # cli @ S_SEPARATOR L # cns)"
    by simp_all
  from sep_prefix_split [OF s(4,2) r(2)] r(1) show ?thesis by simp
qed

text \<open>
  The common prefix selects exactly the names of its own resource type and server
  application: a name of a session resource starts with the prefix of \<open>(rt', app')\<close> if and
  only if it was built for \<open>rt'\<close> and \<open>app'\<close>. (This is what the server relies on when it
  removes the message queues an earlier process left behind, by prefix.)
\<close>

theorem prefix_selects_own_names:
  assumes "ok_1 L (rt, app, ns, cli, cns)" "ok_2 L (rt', app', ns')"
    and n: "build_conventional_shared_name_1 L rt app ns cli cns = Inr n"
    and p: "build_conventional_shared_name_prefix L rt' app' = Inr p"
  shows "prefix p n \<longleftrightarrow> rt' = rt \<and> app' = app"
proof -
  have ok: "shared_name_laws L" "sn_piece L rt" "sn_piece L app" "sn_piece L rt'" "sn_piece L app'"
    "app' \<noteq> S_SENTINEL L"
    using assms(1,2) by (auto simp: ok_1_def ok_2_def)
  have n': "n = join_pieces L [S_ROOT_MAGIC L, rt, app, ns, cli, cns]"
    using build_1_ok [OF assms(1)] n by (simp add: build_1_def)
  have p': "p = join_pieces L [S_ROOT_MAGIC L, rt', app', []]"
    using prefix_form [OF ok(1,4,5)] p ok(6) by simp
  show ?thesis
  proof
    assume "prefix p n"
    then have "prefix (rt' @ S_SEPARATOR L # app' @ S_SEPARATOR L # [])
        (rt @ S_SEPARATOR L # app @ S_SEPARATOR L # ns @ S_SEPARATOR L # cli @ S_SEPARATOR L # cns)"
      by (simp add: n' p')
    then show "rt' = rt \<and> app' = app" by (rule prefix_pieces [OF ok(2-5)])
  qed (simp add: n' p')
qed

theorem prefix_selects_own_names_witness:
  "prefix ''_libipc_posixq_srv_'' ''_libipc_posixq_srv_77_cli_5'' \<longleftrightarrow>
     ''posixq'' = ''posixq'' \<and> ''srv'' = (''srv'' :: string)"
proof (rule prefix_selects_own_names [OF demo_ok_1])
  show "ok_2 demo_lib (''posixq'', ''srv'', ''77'')"
    by (simp add: ok_2_def demo_lib_laws) (simp add: demo_lib_def sn_piece_def no_sep_def)
qed (use demo_build_1 in \<open>simp add: build_1_def\<close>,
  simp add: build_conventional_shared_name_prefix_def demo_lib_def)

end
