(* ===== verification/Apps.thy ===== *)
theory Apps
  imports Errors
begin

text \<open>
  \<^verbatim>\<open>app.hpp\<close> and \<^verbatim>\<open>app.cpp\<close>: the descriptions of applications, client applications and
  server applications, and \<^verbatim>\<open>ensure_resource_owner_is_app()\<close>, the check that a resource of
  the file system belongs to the user and group an application is configured with.
\<close>

type_synonym fs_path = string
type_synonym user_id_t = "32 word"
type_synonym group_id_t = "32 word"
type_synonym process_id_t = "32 word" \<comment> \<open>signed: read by \<open>sint\<close>\<close>

record App =
  m_name :: string
  m_exec_path :: fs_path
  m_user_id :: user_id_t
  m_group_id :: group_id_t

text \<open>\<^verbatim>\<open>Client_app\<close> adds nothing to \<^verbatim>\<open>App\<close>.\<close>

type_synonym Client_app = App

record Server_app = App +
  m_allowed_client_apps :: "string list" \<comment> \<open>read by membership only\<close>
  m_kernel_persistent_run_dir_override :: fs_path
  m_permissions_level_for_client_apps :: int

text \<open>\<^verbatim>\<open>Client_app::Master_set\<close>: a map from names to applications.\<close>

type_synonym Client_app_master_set = "string \<rightharpoonup> Client_app"

section \<open>The owner of a resource\<close>

record file_stat =
  st_uid :: user_id_t
  st_gid :: group_id_t

text \<open>
  What the operating system answers: a descriptor or an \<^verbatim>\<open>errno\<close>. \<open>fds\<close> are the
  descriptors the process has open.
\<close>

record posix =
  os_open :: "fs_path \<Rightarrow> int + nat"
  os_fstat :: "nat \<Rightarrow> int + file_stat"

type_synonym fds = "nat list"

definition open_path :: "posix \<Rightarrow> fs_path \<Rightarrow> fds \<Rightarrow> (int + nat) \<times> fds" where
  "open_path os path fds = (case os_open os path of
     Inl errno \<Rightarrow> (Inl errno, fds)
   | Inr fd \<Rightarrow> (Inr fd, fd # fds))"

definition close_fd :: "nat \<Rightarrow> fds \<Rightarrow> fds" where
  "close_fd fd fds = remove1 fd fds"

text \<open>Overload 2, on a handle; \<open>None\<close> is the null \<^verbatim>\<open>Native_handle\<close>.\<close>

definition ensure_resource_owner_is_app_handle ::
    "posix \<Rightarrow> nat option \<Rightarrow> ('a) App_scheme \<Rightarrow> error_code option res" where
  "ensure_resource_owner_is_app_handle os handle app =
     ensure (handle \<noteq> None) ''Disallowed per contract.'' (
       case os_fstat os (the handle) of
         Inl errno \<Rightarrow> Inr (Some (System_err errno))
       | Inr stats \<Rightarrow>
           if st_uid stats \<noteq> m_user_id app \<or> st_gid stats \<noteq> m_group_id app
           then Inr (Some (make_error_code S_RESOURCE_OWNER_UNEXPECTED))
           else Inr None)"

text \<open>Overload 1, on a path: probe through a descriptor that is closed again.\<close>

definition ensure_resource_owner_is_app ::
    "posix \<Rightarrow> fs_path \<Rightarrow> ('a) App_scheme \<Rightarrow> fds \<Rightarrow> (error_code option \<times> fds) res" where
  "ensure_resource_owner_is_app os path app fds =
     (case open_path os path fds of
        (Inl errno, fds) \<Rightarrow> Inr (Some (System_err errno), fds)
      | (Inr native_handle, fds) \<Rightarrow>
          res_bind (ensure_resource_owner_is_app_handle os (Some native_handle) app) (\<lambda>err_code.
          Inr (err_code, close_fd native_handle fds)))"

text \<open>Who owns what is at a path, as far as the process can find out.\<close>

definition owner_at :: "posix \<Rightarrow> fs_path \<Rightarrow> int + (user_id_t \<times> group_id_t)" where
  "owner_at os path = (case os_open os path of Inl e \<Rightarrow> Inl e
     | Inr fd \<Rightarrow> (case os_fstat os fd of Inl e \<Rightarrow> Inl e | Inr st \<Rightarrow> Inr (st_uid st, st_gid st)))"

text \<open>
  The owner check on a path never trips an assertion, leaves the set of open
  descriptors as it was on every branch, reports the system's error when the owner cannot
  be determined, and otherwise succeeds exactly when both the user and the group are the
  application's.
\<close>

theorem ensure_resource_owner_correct:
  "ensure_resource_owner_is_app os path app fds = Inr
     ((case owner_at os path of
         Inl e \<Rightarrow> Some (System_err e)
       | Inr owner \<Rightarrow> if owner = (m_user_id app, m_group_id app) then None
                     else Some (Session_err S_RESOURCE_OWNER_UNEXPECTED)),
      fds)"
  by (auto simp: ensure_resource_owner_is_app_def ensure_resource_owner_is_app_handle_def
      open_path_def close_fd_def owner_at_def make_error_code_def split: sum.splits)

end
