(* ===== verification/Session_Base.thy ===== *)
theory Session_Base
  imports Shared_Names Apps
begin

text \<open>
  \<^verbatim>\<open>detail/session_base.hpp\<close>: what client and server sessions share. The record
  \<open>session_base\<close> has the data members of \<^verbatim>\<open>Session_base\<close> (the client and server sessions
  extend it, as the classes do), \<open>session_cfg\<close> the template arguments, \<open>graceful_finisher\<close>
  the nested class. \<open>fired\<close> is a ghost: the log of the invocations of the user's on-error
  handler.

  A user handler is a number; an empty \<^verbatim>\<open>Function\<close> is \<open>None\<close>.
\<close>

type_synonym handler = nat

datatype MqType = MQ_NONE | MQ_POSIX | MQ_BIPC
datatype ShmType = SHM_NONE | SHM_CLASSIC | SHM_JEMALLOC

text \<open>What lies outside the repository: the shared-name library, two constants, the parser of
  numbers and the protocol negotiator (given the opposing peer's highest version).\<close>

record session_lib =
  lib_sn :: shared_name_lib
  fs_path_div :: "fs_path \<Rightarrow> string \<Rightarrow> fs_path" \<comment> \<open>\<^verbatim>\<open>fs::path::operator/=\<close>\<close>
  IPC_KERNEL_PERSISTENT_RUN_DIR :: fs_path
  S_MAX_META_BLOB_LENGTH :: nat \<comment> \<open>of \<^verbatim>\<open>Native_socket_stream\<close>\<close>
  lexical_cast_pid :: "string \<Rightarrow> process_id_t option" \<comment> \<open>\<^verbatim>\<open>boost::lexical_cast\<close>; \<open>None\<close> throws\<close>
  compute_negotiated_proto_ver :: "int \<Rightarrow> error_code option" \<comment> \<open>of \<^verbatim>\<open>Protocol_negotiator(.., 1, 1)\<close>\<close>

record session_cfg =
  S_MQ_TYPE_OR_NONE :: MqType
  S_TRANSMIT_NATIVE_HANDLES :: bool
  S_SHM_TYPE_OR_NONE :: ShmType
  S_GRACEFUL_FINISH_REQUIRED :: bool

definition S_MQS_ENABLED :: "session_cfg \<Rightarrow> bool" where
  "S_MQS_ENABLED cfg \<longleftrightarrow> S_MQ_TYPE_OR_NONE cfg \<noteq> MQ_NONE"

definition S_SOCKET_STREAM_ENABLED :: "session_cfg \<Rightarrow> bool" where
  "S_SOCKET_STREAM_ENABLED cfg \<longleftrightarrow> \<not> S_MQS_ENABLED cfg \<or> S_TRANSMIT_NATIVE_HANDLES cfg"

definition S_MQS_MAX_MSG_SZ :: nat where
  "S_MQS_MAX_MSG_SZ = 8 * 1024"

text \<open>Which transports a \<^verbatim>\<open>Channel_obj\<close> of this configuration is made of.\<close>

datatype channel_kind = Mqs_socket_stream_channel | Mqs_channel
  | Socket_stream_channel | Socket_stream_channel_of_blobs

definition Channel_obj :: "session_cfg \<Rightarrow> channel_kind" where
  "Channel_obj cfg = (if S_MQS_ENABLED cfg
     then (if S_TRANSMIT_NATIVE_HANDLES cfg then Mqs_socket_stream_channel else Mqs_channel)
     else (if S_TRANSMIT_NATIVE_HANDLES cfg then Socket_stream_channel else Socket_stream_channel_of_blobs))"

record session_base =
  m_srv_app_ref :: Server_app
  m_cli_app_ptr :: "Client_app option"
  m_srv_namespace :: shared_name
  m_cli_namespace :: shared_name
  m_on_err_func :: "handler option"
  m_on_passive_open_channel_func_or_empty :: "handler option"
  m_peer_state_err_code_or_ok :: "error_code option"
  fired :: "(handler \<times> error_code) list"

section \<open>Constructors and setters\<close>

definition Session_base_cli ::
    "Client_app \<Rightarrow> Server_app \<Rightarrow> handler option \<Rightarrow> handler option \<Rightarrow> session_base" where
  "Session_base_cli cli_app_ref srv_app_ref on_err_func on_passive_open_channel_func_or_empty_arg =
     \<lparr> m_srv_app_ref = srv_app_ref, m_cli_app_ptr = Some cli_app_ref,
       m_srv_namespace = [], m_cli_namespace = [],
       m_on_err_func = on_err_func,
       m_on_passive_open_channel_func_or_empty = on_passive_open_channel_func_or_empty_arg,
       m_peer_state_err_code_or_ok = None, fired = [] \<rparr>"

text \<open>The server's own namespace is its process ID, known from the start.\<close>

definition Session_base_srv :: "process_id_t \<Rightarrow> Server_app \<Rightarrow> session_base" where
  "Session_base_srv own_process_id srv_app_ref =
     \<lparr> m_srv_app_ref = srv_app_ref, m_cli_app_ptr = None,
       m_srv_namespace = int_to_string (sint own_process_id), m_cli_namespace = [],
       m_on_err_func = None, m_on_passive_open_channel_func_or_empty = None,
       m_peer_state_err_code_or_ok = None, fired = [] \<rparr>"

definition set_cli_app_ptr :: "Client_app option \<Rightarrow> 'a session_base_scheme \<Rightarrow> 'a session_base_scheme res" where
  "set_cli_app_ptr cli_app_ptr_new s =
     ensure (cli_app_ptr_new \<noteq> None) ''cli_app_ptr should be set at most once, from null to non-null'' (
     ensure (m_cli_app_ptr s = None) ''cli_app_ptr should be set at most once, from null to non-null'' (
     Inr (s\<lparr> m_cli_app_ptr := cli_app_ptr_new \<rparr>)))"

definition set_srv_namespace ::
    "shared_name_lib \<Rightarrow> shared_name \<Rightarrow> 'a session_base_scheme \<Rightarrow> 'a session_base_scheme res" where
  "set_srv_namespace L srv_namespace_new s =
     ensure (srv_namespace_new \<noteq> []) ''!srv_namespace_new.empty()'' (
     ensure (srv_namespace_new \<noteq> S_SENTINEL L) ''That is a reserved sentinel value.'' (
     ensure (m_srv_namespace s = []) ''srv_namespace should be set at most once, from empty.'' (
     Inr (s\<lparr> m_srv_namespace := srv_namespace_new \<rparr>))))"

definition set_cli_namespace ::
    "shared_name_lib \<Rightarrow> shared_name \<Rightarrow> 'a session_base_scheme \<Rightarrow> 'a session_base_scheme res" where
  "set_cli_namespace L cli_namespace_new s =
     ensure (cli_namespace_new \<noteq> []) ''!cli_namespace_new.empty()'' (
     ensure (cli_namespace_new \<noteq> S_SENTINEL L) ''That is a reserved sentinel value.'' (
     ensure (m_cli_namespace s = []) ''cli_namespace should be set at most once, from empty.'' (
     Inr (s\<lparr> m_cli_namespace := cli_namespace_new \<rparr>))))"

definition set_on_passive_open_channel_func ::
    "handler option \<Rightarrow> 'a session_base_scheme \<Rightarrow> 'a session_base_scheme res" where
  "set_on_passive_open_channel_func on_passive_open_channel_func s =
     ensure (m_on_passive_open_channel_func_or_empty s = None)
       ''m_on_passive_open_channel_func_or_empty.empty()'' (
     Inr (s\<lparr> m_on_passive_open_channel_func_or_empty := on_passive_open_channel_func \<rparr>))"

definition set_on_err_func :: "handler option \<Rightarrow> 'a session_base_scheme \<Rightarrow> 'a session_base_scheme res" where
  "set_on_err_func on_err_func_arg s =
     ensure (on_err_func_arg \<noteq> None) ''!on_err_func_arg.empty()'' (
     ensure (m_on_err_func s = None) ''Call set_on_err_func() once at most'' (
     Inr (s\<lparr> m_on_err_func := on_err_func_arg \<rparr>)))"

section \<open>Getters\<close>

definition cli_app_ptr :: "'a session_base_scheme \<Rightarrow> Client_app option" where
  "cli_app_ptr s = m_cli_app_ptr s"

definition srv_namespace :: "'a session_base_scheme \<Rightarrow> shared_name" where
  "srv_namespace s = m_srv_namespace s"

definition cli_namespace :: "'a session_base_scheme \<Rightarrow> shared_name" where
  "cli_namespace s = m_cli_namespace s"

definition on_passive_open_channel_func_or_empty :: "'a session_base_scheme \<Rightarrow> handler option" where
  "on_passive_open_channel_func_or_empty s = m_on_passive_open_channel_func_or_empty s"

definition on_err_func_set :: "'a session_base_scheme \<Rightarrow> bool" where
  "on_err_func_set s \<longleftrightarrow> m_on_err_func s \<noteq> None"

section \<open>Hosing\<close>

definition hosed :: "'a session_base_scheme \<Rightarrow> bool res" where
  "hosed s = ensure (on_err_func_set s) ''By contract do not call until PEER state'' (
     Inr (m_peer_state_err_code_or_ok s \<noteq> None))"

text \<open>Runs the handler; calling an empty \<^verbatim>\<open>Function\<close> throws.\<close>

definition fire_on_err :: "error_code \<Rightarrow> 'a session_base_scheme \<Rightarrow> 'a session_base_scheme res" where
  "fire_on_err e s = (case m_on_err_func s of
     None \<Rightarrow> Inl (Uncaught ''bad_function_call'')
   | Some h \<Rightarrow> Inr (s\<lparr> fired := fired s @ [(h, e)] \<rparr>))"

definition hose :: "error_code \<Rightarrow> 'a session_base_scheme \<Rightarrow> 'a session_base_scheme res" where
  "hose err_code s = res_bind (hosed s) (\<lambda>h.
     ensure (\<not> h) ''By contract do not call unless hosed() is false.'' (
     fire_on_err err_code (s\<lparr> m_peer_state_err_code_or_ok := Some err_code \<rparr>)))"

section \<open>Conventional names\<close>

definition cur_ns_store_mutex_absolute_name ::
    "session_lib \<Rightarrow> Server_app \<Rightarrow> shared_name res" where
  "cur_ns_store_mutex_absolute_name L srv =
     res_bind (build_conventional_shared_name_2 (lib_sn L)
       (S_RESOURCE_TYPE_ID_MUTEX (lib_sn L)) (m_name srv) (S_SENTINEL (lib_sn L))) (\<lambda>mutex_name.
       let mutex_name = sn_div (lib_sn L) mutex_name ''cur_ns_store'';
           mutex_name = sn_div (lib_sn L) mutex_name ''u'';
           mutex_name = sn_add (lib_sn L) mutex_name (to_string (unat (m_user_id srv)));
           mutex_name = sn_add (lib_sn L) mutex_name ''g'';
           mutex_name = sn_add (lib_sn L) mutex_name (to_string (unat (m_group_id srv)));
           mutex_name = sn_add (lib_sn L) mutex_name ''p'';
           mutex_name = sn_add (lib_sn L) mutex_name (int_to_string (m_permissions_level_for_client_apps srv))
       in Inr mutex_name)"

definition cur_ns_store_absolute_path :: "session_lib \<Rightarrow> Server_app \<Rightarrow> fs_path" where
  "cur_ns_store_absolute_path L srv =
     (let path = (if m_kernel_persistent_run_dir_override srv = []
                  then IPC_KERNEL_PERSISTENT_RUN_DIR L
                  else m_kernel_persistent_run_dir_override srv);
          path = fs_path_div L path (m_name srv)
      in path @ ''.libipc-cns.pid'')"

definition session_master_socket_stream_acceptor_absolute_name ::
    "session_lib \<Rightarrow> 'a session_base_scheme \<Rightarrow> shared_name res" where
  "session_master_socket_stream_acceptor_absolute_name L s =
     ensure (m_srv_namespace s \<noteq> []) ''Serv-namespace must have been set by set_srv_namespace() by now.'' (
     res_bind (build_conventional_shared_name_2 (lib_sn L) (ACCEPTOR_RESOURCE_TYPE_ID (lib_sn L))
       (m_name (m_srv_app_ref s)) (m_srv_namespace s)) (\<lambda>acc_name.
     Inr (sn_div (lib_sn L) acc_name (S_SENTINEL (lib_sn L)))))"

definition heap_fixed_builder_config :: "session_lib \<Rightarrow> session_cfg \<Rightarrow> nat \<times> nat \<times> nat" where
  "heap_fixed_builder_config L cfg =
     (let sz = (if S_MQS_ENABLED cfg \<and> \<not> S_SOCKET_STREAM_ENABLED cfg then S_MQS_MAX_MSG_SZ
                else if \<not> S_MQS_ENABLED cfg \<and> S_SOCKET_STREAM_ENABLED cfg then S_MAX_META_BLOB_LENGTH L
                else min S_MQS_MAX_MSG_SZ (S_MAX_META_BLOB_LENGTH L))
      in (sz, 0, 0))"

definition heap_reader_config :: nat where
  "heap_reader_config = 0"

section \<open>The graceful finisher\<close>

text \<open>
  The promise \<^verbatim>\<open>m_opposing_session_done\<close>; setting it twice throws
  \<^verbatim>\<open>promise_already_satisfied\<close>, which only \<open>on_master_channel_hosed\<close> catches.
\<close>

record graceful_finisher =
  m_opposing_session_done :: bool

definition Graceful_finisher :: graceful_finisher where
  "Graceful_finisher = \<lparr> m_opposing_session_done = False \<rparr>"

text \<open>The handler the constructor registers for an incoming \<^verbatim>\<open>GracefulSessionEnd\<close>.\<close>

definition on_graceful_session_end ::
    "graceful_finisher \<Rightarrow> 'a session_base_scheme \<Rightarrow> (graceful_finisher \<times> 'a session_base_scheme) res" where
  "on_graceful_session_end f s =
     (if m_opposing_session_done f then Inl (Uncaught ''promise_already_satisfied'')
      else let f = f\<lparr> m_opposing_session_done := True \<rparr> in
        res_bind (hosed s) (\<lambda>h.
          if \<not> h then res_bind (hose (make_error_code S_SESSION_FINISHED) s) (\<lambda>s. Inr (f, s))
          else Inr (f, s)))"

definition on_master_channel_hosed :: "graceful_finisher \<Rightarrow> graceful_finisher" where
  "on_master_channel_hosed f =
     (if m_opposing_session_done f then f else f\<lparr> m_opposing_session_done := True \<rparr>)"

text \<open>
  The destructor's first part: post the sending of \<^verbatim>\<open>GracefulSessionEnd\<close> (whose result is
  ignored) and wait for the promise. The wait returns when \<open>on_dtor_start_returns\<close> holds.
\<close>

definition on_dtor_start_returns :: "graceful_finisher \<Rightarrow> bool" where
  "on_dtor_start_returns f \<longleftrightarrow> m_opposing_session_done f"

section \<open>Lemmas\<close>

named_theorems base_defs "definitions of the session base"

lemmas [base_defs] = set_cli_app_ptr_def set_srv_namespace_def set_cli_namespace_def
  set_on_passive_open_channel_func_def set_on_err_func_def
  cli_app_ptr_def srv_namespace_def cli_namespace_def
  on_passive_open_channel_func_or_empty_def on_err_func_set_def

lemma hosed_Inr [simp]: "hosed s = Inr h \<longleftrightarrow>
    m_on_err_func s \<noteq> None \<and> h = (m_peer_state_err_code_or_ok s \<noteq> None)"
  by (auto simp: hosed_def on_err_func_set_def)

lemma hosed_set [simp]: "m_on_err_func s = Some h \<Longrightarrow> hosed s = Inr (m_peer_state_err_code_or_ok s \<noteq> None)"
  by simp

lemma hose_set: "m_on_err_func s = Some h \<Longrightarrow> m_peer_state_err_code_or_ok s = None \<Longrightarrow>
  hose e s = Inr (s\<lparr> m_peer_state_err_code_or_ok := Some e, fired := fired s @ [(h, e)] \<rparr>)"
  by (simp add: hose_def fire_on_err_def)

lemma hose_Inr: "hose e s = Inr t \<longleftrightarrow> (\<exists>h. m_on_err_func s = Some h \<and>
    m_peer_state_err_code_or_ok s = None \<and>
    t = s\<lparr> m_peer_state_err_code_or_ok := Some e, fired := fired s @ [(h, e)] \<rparr>)"
  by (cases "m_on_err_func s")
    (auto simp: hose_def fire_on_err_def ensure_def res_bind_def hosed_def on_err_func_set_def)

text \<open>
  The session's error is emitted at most once: \<^verbatim>\<open>hose()\<close> returns only if an on-error
  handler is set and no error was emitted before; it then has run that handler exactly once
  with the code it stores, and any later \<^verbatim>\<open>hose()\<close> trips an assertion.
\<close>

theorem hose_at_most_once:
  "hose e s = Inr t \<Longrightarrow> hosed s = Inr False \<and>
     fired t = fired s @ [(the (m_on_err_func s), e)] \<and>
     hosed t = Inr True \<and> \<not> returns (hose e' t)"
  by (auto simp: hose_Inr returns_iff)

definition demo_srv_app :: Server_app where
  "demo_srv_app = \<lparr> m_name = ''srv'', m_exec_path = ''/bin/srv'', m_user_id = 1000, m_group_id = 100,
     m_allowed_client_apps = [''cli''], m_kernel_persistent_run_dir_override = [],
     m_permissions_level_for_client_apps = 3 \<rparr>"

definition demo_cli_app :: Client_app where
  "demo_cli_app = \<lparr> m_name = ''cli'', m_exec_path = ''/bin/cli'', m_user_id = 1000, m_group_id = 100 \<rparr>"

theorem hose_at_most_once_witness:
  "\<not> returns (res_bind (hose (Transport_err (T_OTHER 1)) (Session_base_cli demo_cli_app demo_srv_app (Some 7) None))
     (hose (Transport_err (T_OTHER 2))))"
proof -
  obtain t where t: "hose (Transport_err (T_OTHER 1))
      (Session_base_cli demo_cli_app demo_srv_app (Some 7) None) = Inr t"
    by (simp add: hose_Inr Session_base_cli_def)
  with hose_at_most_once [OF t] show ?thesis by simp
qed

lemma on_graceful_session_end_Inr:
  "on_graceful_session_end f s = Inr (f', s') \<longleftrightarrow>
     \<not> m_opposing_session_done f \<and> f' = \<lparr> m_opposing_session_done = True \<rparr> \<and>
     (\<exists>h. m_on_err_func s = Some h \<and>
       s' = (if m_peer_state_err_code_or_ok s = None
             then s\<lparr> m_peer_state_err_code_or_ok := Some (Session_err S_SESSION_FINISHED),
                    fired := fired s @ [(h, Session_err S_SESSION_FINISHED)] \<rparr>
             else s))"
  by (cases "m_on_err_func s"; cases f)
    (auto simp: on_graceful_session_end_def Let_def hose_set make_error_code_def res_bind_eq_Inr hose_Inr)

lemma on_master_channel_hosed_done [simp]:
  "m_opposing_session_done (on_master_channel_hosed f)"
  "on_dtor_start_returns (on_master_channel_hosed f)"
  by (simp_all add: on_master_channel_hosed_def on_dtor_start_returns_def)

section \<open>The names a session computes\<close>

definition srv_app_ok :: "session_lib \<Rightarrow> 'a App_scheme \<Rightarrow> bool" where
  "srv_app_ok L app \<longleftrightarrow> shared_name_laws (lib_sn L) \<and> sn_piece (lib_sn L) (m_name app) \<and>
     m_name app \<noteq> S_SENTINEL (lib_sn L)"

lemma mutex_name_form:
  assumes "srv_app_ok L srv"
  shows "cur_ns_store_mutex_absolute_name L srv = Inr
    (join_pieces (lib_sn L) [S_ROOT_MAGIC (lib_sn L), S_RESOURCE_TYPE_ID_MUTEX (lib_sn L), m_name srv,
       S_SENTINEL (lib_sn L), S_SENTINEL (lib_sn L), ''cur_ns_store'',
       CHR ''u'' # to_string (unat (m_user_id srv)) @ CHR ''g'' # to_string (unat (m_group_id srv)) @
       CHR ''p'' # int_to_string (m_permissions_level_for_client_apps srv)])"
proof -
  let ?L = "lib_sn L"
  have L: "shared_name_laws ?L" and p: "sn_piece ?L (m_name srv)" "m_name srv \<noteq> S_SENTINEL ?L"
    using assms by (simp_all add: srv_app_ok_def)
  have u: "S_SEPARATOR ?L \<noteq> CHR ''u''" "S_SEPARATOR ?L \<noteq> CHR ''c''" "S_SENTINEL ?L = ''0''"
    "S_SEPARATOR ?L \<noteq> CHR ''0''"
    using L by (auto simp: shared_name_laws_def is_digit_def)
  have d1: "sn_div ?L (x @ S_SEPARATOR ?L # ''0'') ''cur_ns_store'' =
      x @ S_SEPARATOR ?L # ''0'' @ S_SEPARATOR ?L # ''cur_ns_store''" for x
    using sn_div_sep [OF L, of "x @ S_SEPARATOR ?L # ''0''" "''cur_ns_store''"] u by simp
  have d2: "sn_div ?L (x @ S_SEPARATOR ?L # ''cur_ns_store'') ''u'' =
      x @ S_SEPARATOR ?L # ''cur_ns_store'' @ S_SEPARATOR ?L # ''u''"
    if "S_SEPARATOR ?L \<noteq> CHR ''e''" for x
    using sn_div_sep [OF L, of "x @ S_SEPARATOR ?L # ''cur_ns_store''" "''u''"] u that by simp
  have e: "S_SEPARATOR ?L \<noteq> CHR ''e''" using L by (auto simp: shared_name_laws_def)
  let ?x = "join_pieces ?L [S_ROOT_MAGIC ?L, S_RESOURCE_TYPE_ID_MUTEX ?L, m_name srv, S_SENTINEL ?L]"
  show ?thesis
    using build_2_form [OF L sn_consts(2) [OF L] p(1) sn_piece_sentinel [OF L] p(2)]
      d1 [of ?x] d2 [OF e, of "?x @ S_SEPARATOR ?L # ''0''"]
    by (simp add: cur_ns_store_mutex_absolute_name_def Let_def sn_add_append [OF L] u)
qed

text \<open>
  The name of the mutex that guards the namespace store identifies its parameters: two
  server applications get the same mutex exactly when they agree in name, user, group and
  permissions level (so the access rights given at creation never conflict).
\<close>

theorem cur_ns_store_mutex_name_inj:
  assumes "srv_app_ok L a" "srv_app_ok L b"
  shows "cur_ns_store_mutex_absolute_name L a = cur_ns_store_mutex_absolute_name L b \<longleftrightarrow>
    m_name a = m_name b \<and> m_user_id a = m_user_id b \<and> m_group_id a = m_group_id b \<and>
    m_permissions_level_for_client_apps a = m_permissions_level_for_client_apps b"
proof -
  let ?sep = "S_SEPARATOR (lib_sn L)"
  let ?u = "\<lambda>a. to_string (unat (m_user_id a)) @ CHR ''g'' # to_string (unat (m_group_id a)) @
    CHR ''p'' # int_to_string (m_permissions_level_for_client_apps a)"
  have "?u a = ?u b \<longleftrightarrow> m_user_id a = m_user_id b \<and> m_group_id a = m_group_id b \<and>
      m_permissions_level_for_client_apps a = m_permissions_level_for_client_apps b"
    by (auto simp: is_digit_def word_unat_eq_iff dest!: digits_then_mark_inj)
  moreover have "m_name a @ ?sep # x = m_name b @ ?sep # y \<longleftrightarrow> m_name a = m_name b \<and> x = y" for x y
    using sep_split_inj [of ?sep "m_name a" "m_name b" x y] assms
    by (auto simp: srv_app_ok_def sn_piece_def)
  ultimately show ?thesis
    using mutex_name_form [OF assms(1)] mutex_name_form [OF assms(2)] by simp
qed

definition demo_lexical_cast_pid :: "string \<Rightarrow> process_id_t option" where
  "demo_lexical_cast_pid s = (if s \<noteq> [] \<and> hd s = CHR ''-'' \<and> list_all is_digit (tl s) \<and> tl s \<noteq> []
     then Some (word_of_int (- int (digits_val (tl s))))
     else if s \<noteq> [] \<and> list_all is_digit s then Some (word_of_nat (digits_val s)) else None)"

definition demo_session_lib :: session_lib where
  "demo_session_lib = \<lparr> lib_sn = demo_lib, fs_path_div = (\<lambda>p q. p @ CHR ''/'' # q),
     IPC_KERNEL_PERSISTENT_RUN_DIR = ''/var/run'', S_MAX_META_BLOB_LENGTH = 65536,
     lexical_cast_pid = demo_lexical_cast_pid,
     compute_negotiated_proto_ver = (\<lambda>v. if 1 \<le> v then None else Some (Transport_err (T_OTHER 9))) \<rparr>"

lemma demo_lib_simps [simp]: "lib_sn demo_session_lib = demo_lib" "S_SENTINEL demo_lib = ''0''"
  "compute_negotiated_proto_ver demo_session_lib 1 = None"
  by (simp_all add: demo_session_lib_def demo_lib_def)

lemma demo_srv_app_ok: "srv_app_ok demo_session_lib demo_srv_app"
  by (simp add: srv_app_ok_def demo_session_lib_def demo_lib_laws)
    (simp add: demo_srv_app_def demo_lib_def sn_piece_def no_sep_def)

theorem cur_ns_store_mutex_name_inj_witness:
  "cur_ns_store_mutex_absolute_name demo_session_lib demo_srv_app \<noteq>
   cur_ns_store_mutex_absolute_name demo_session_lib (demo_srv_app\<lparr> m_user_id := 1001 \<rparr>)"
proof -
  have "srv_app_ok demo_session_lib (demo_srv_app\<lparr> m_user_id := 1001 \<rparr>)"
    using demo_srv_app_ok by (simp add: srv_app_ok_def)
  from cur_ns_store_mutex_name_inj [OF demo_srv_app_ok this] show ?thesis
    by (simp add: demo_srv_app_def)
qed

definition acceptor_name :: "session_lib \<Rightarrow> 'a App_scheme \<Rightarrow> shared_name \<Rightarrow> shared_name" where
  "acceptor_name L srv ns = join_pieces (lib_sn L) [S_ROOT_MAGIC (lib_sn L), ACCEPTOR_RESOURCE_TYPE_ID (lib_sn L),
     m_name srv, ns, S_SENTINEL (lib_sn L), S_SENTINEL (lib_sn L)]"

lemma acceptor_name_form:
  assumes "srv_app_ok L (m_srv_app_ref s)" "sn_piece (lib_sn L) (m_srv_namespace s)"
  shows "session_master_socket_stream_acceptor_absolute_name L s =
    Inr (acceptor_name L (m_srv_app_ref s) (m_srv_namespace s))"
proof -
  let ?L = "lib_sn L"
  have L: "shared_name_laws ?L" and p: "sn_piece ?L (m_name (m_srv_app_ref s))"
    "m_name (m_srv_app_ref s) \<noteq> S_SENTINEL ?L"
    using assms by (simp_all add: srv_app_ok_def)
  have d: "sn_div ?L (x @ S_SEPARATOR ?L # S_SENTINEL ?L) (S_SENTINEL ?L) =
      x @ S_SEPARATOR ?L # S_SENTINEL ?L @ S_SEPARATOR ?L # S_SENTINEL ?L" for x
    using sn_div_piece [OF L sn_piece_sentinel [OF L] sn_piece_sentinel [OF L], of "x @ [S_SEPARATOR ?L]"]
    by simp
  have "m_srv_namespace s \<noteq> []" using assms(2) by (auto dest: sn_piece_hd)
  then show ?thesis
    using build_2_form [OF L sn_consts(3) [OF L] p(1) assms(2) p(2)]
      d [of "join_pieces ?L [S_ROOT_MAGIC ?L, ACCEPTOR_RESOURCE_TYPE_ID ?L, m_name (m_srv_app_ref s),
         m_srv_namespace s]"]
    by (simp add: session_master_socket_stream_acceptor_absolute_name_def acceptor_name_def)
qed

end
