(* ===== verification/Messages.thy ===== *)
theory Messages
  imports Session_Base
begin

text \<open>
  What travels on the session master channel (\<^verbatim>\<open>schema/detail/session_master_channel.capnp\<close>,
  \<^verbatim>\<open>schema/common.capnp\<close>), the answers of \<^verbatim>\<open>struc::Channel\<close>'s operations, and the channels
  a session opens. \<^verbatim>\<open>struc::Channel\<close> and the transports are not part of this repository: their
  answers are arguments of the handlers that call them.
\<close>

section \<open>Messages\<close>

type_synonym mdt = "nat list" \<comment> \<open>the user's metadata payload, opaque\<close>
type_synonym native_handle = "nat option" \<comment> \<open>\<open>None\<close> is the null handle\<close>

record process_creds =
  pc_process_id :: process_id_t
  pc_user_id :: user_id_t
  pc_group_id :: group_id_t

record log_in_req =
  lq_max_proto_ver :: int
  lq_max_proto_ver_aux :: int
  lq_mq_type :: MqType
  lq_native_handles :: bool
  lq_creds :: process_creds
  lq_own_app :: string
  lq_shm_type :: ShmType
  lq_mdt :: mdt
  lq_n_init_by_cli :: "64 word" \<comment> \<open>\<^verbatim>\<open>Size\<close>\<close>

record log_in_rsp =
  lr_max_proto_ver :: int
  lr_max_proto_ver_aux :: int
  lr_cli_namespace :: shared_name
  lr_mdt :: mdt
  lr_n_init_by_srv :: "64 word"

datatype open_channel_result = ACCEPTED | REJECTED_PASSIVE_OPEN | REJECTED_RESOURCE_UNAVAILABLE
  | OPEN_END_SENTINEL

record open_channel_to_client_req =
  oc_mq_c2s_or_empty :: shared_name
  oc_mq_s2c_or_empty :: shared_name
  oc_mdt :: mdt

record open_channel_to_server_rsp =
  os_result :: open_channel_result
  os_mq_c2s_or_empty :: shared_name
  os_mq_s2c_or_empty :: shared_name

datatype msg_body =
    LogInReq log_in_req
  | LogInRsp log_in_rsp
  | JemallocShmSetup
  | OpenChannelToClientReq open_channel_to_client_req
  | OpenChannelToClientRsp open_channel_result
  | OpenChannelToServerReq mdt
  | OpenChannelToServerRsp open_channel_to_server_rsp
  | GracefulSessionEnd

record msg =
  body :: msg_body
  native_handle_or_null :: native_handle

text \<open>A getter of a union member that is not set fails.\<close>

definition getOpenChannelToClientReq :: "msg \<Rightarrow> open_channel_to_client_req res" where
  "getOpenChannelToClientReq m = (case body m of OpenChannelToClientReq r \<Rightarrow> Inr r
     | _ \<Rightarrow> Inl (Uncaught ''union member not set''))"

definition getOpenChannelToServerRsp :: "msg \<Rightarrow> open_channel_to_server_rsp res" where
  "getOpenChannelToServerRsp m = (case body m of OpenChannelToServerRsp r \<Rightarrow> Inr r
     | _ \<Rightarrow> Inl (Uncaught ''union member not set''))"

definition getOpenChannelToClientRsp :: "msg \<Rightarrow> open_channel_result res" where
  "getOpenChannelToClientRsp m = (case body m of OpenChannelToClientRsp r \<Rightarrow> Inr r
     | _ \<Rightarrow> Inl (Uncaught ''union member not set''))"

definition getOpenChannelToServerReq :: "msg \<Rightarrow> mdt res" where
  "getOpenChannelToServerReq m = (case body m of OpenChannelToServerReq r \<Rightarrow> Inr r
     | _ \<Rightarrow> Inl (Uncaught ''union member not set''))"

definition getLogInReq :: "msg \<Rightarrow> log_in_req res" where
  "getLogInReq m = (case body m of LogInReq r \<Rightarrow> Inr r
     | _ \<Rightarrow> Inl (Uncaught ''union member not set''))"

section \<open>Answers of the channel\<close>

text \<open>
  \<^verbatim>\<open>send()\<close> and \<^verbatim>\<open>async_request()\<close>: \<^verbatim>\<open>false\<close> (an error was emitted before, through the on-error
  handler), or \<^verbatim>\<open>true\<close> with a falsy or a truthy \<^verbatim>\<open>Error_code\<close>.
\<close>

datatype send_answer = Refused | Sent_ok | Sent_err error_code

text \<open>What the master channel has been told to do with the messages that come in.\<close>

datatype metadata_kind = For_log_in | For_open_channel

record mdt_builder =
  mb_kind :: metadata_kind
  mb_mdt :: mdt

section \<open>Channels\<close>

text \<open>
  A \<^verbatim>\<open>Channel_obj\<close> by what it is made of: its nickname, its transports, the names of its two
  message queues and its socket handle; \<open>Blank\<close> is a default-constructed one.
\<close>

datatype channel_obj = Blank
  | Channel (ch_nickname: string) (ch_kind: channel_kind)
      (ch_mqs: "(shared_name \<times> shared_name) option") (ch_hndl: native_handle)

text \<open>
  The state of the master channel as its documentation has it: it emits a channel-hosing error
  at most once, either from a call (\<open>Sent_err\<close>) or through the on-error handler; from
  then on every operation is refused. \<open>Ch_err_pending e\<close>: the on-error handler was invoked with
  \<open>e\<close> in the channel's own thread and the session's thread has not yet run its part of it.
\<close>

datatype chan_status = Ch_ok | Ch_err_pending error_code | Ch_err_emitted

section \<open>What the channel may answer\<close>

text \<open>An operation that is refused means the channel was hosed by then.\<close>

inductive op_answer :: "chan_status \<Rightarrow> bool \<Rightarrow> chan_status \<Rightarrow> bool" where
  "op_answer Ch_ok True Ch_ok"
| "op_answer Ch_ok False (Ch_err_pending e)"
| "st \<noteq> Ch_ok \<Longrightarrow> op_answer st False st"

inductive_simps op_answer_simps [simp]: "op_answer st b st'"

inductive sending :: "chan_status \<Rightarrow> send_answer \<Rightarrow> chan_status \<Rightarrow> bool" where
  "sending Ch_ok Sent_ok Ch_ok"
| "sending Ch_ok (Sent_err e) Ch_err_emitted"
| "sending Ch_ok Refused (Ch_err_pending e)"
| "st \<noteq> Ch_ok \<Longrightarrow> sending st Refused st"

inductive_simps sending_simps [simp]: "sending st a st'"

inductive requesting :: "chan_status \<Rightarrow> msg option \<Rightarrow> error_code option \<Rightarrow> chan_status \<Rightarrow> bool" where
  "requesting Ch_ok (Some m) None Ch_ok"
| "requesting Ch_ok None (Some (Transport_err T_TIMEOUT)) Ch_ok"
| "e \<noteq> Transport_err T_TIMEOUT \<Longrightarrow> requesting Ch_ok None (Some e) Ch_err_emitted"
| "requesting Ch_ok None None (Ch_err_pending e)"
| "st \<noteq> Ch_ok \<Longrightarrow> requesting st None None st"

end
