(* ===== verification/Client_Session.thy ===== *)
theory Client_Session
  imports Messages
begin

text \<open>
  \<^verbatim>\<open>detail/client_session_impl.hpp\<close>: the client side of a session. The record
  \<open>client_session\<close> extends \<open>session_base\<close>; each operation and each handler of thread W is
  one function, the answers of the channel, the file system and the mutex being its
  arguments. \<open>c_expect\<close> is what the master channel has been told to expect (with what the
  closures capture), \<open>c_out\<close> the variables of the user behind the out-arguments of the connect
  call in progress; \<open>done_calls\<close>, \<open>passive_calls\<close> and \<open>sent\<close> log what leaves the session.
\<close>

datatype client_state = S_NULL | S_CONNECTING | S_PEER

text \<open>
  The out-arguments of a connect: the two channel containers and the metadata; \<open>None\<close> is a null
  pointer, \<open>Some\<close> the current content of the pointee.
\<close>

record connect_out =
  out_by_cli :: "channel_obj list option" \<comment> \<open>\<^verbatim>\<open>init_channels_by_cli_req_pre_sized\<close>\<close>
  out_mdt :: "mdt option option" \<comment> \<open>\<^verbatim>\<open>mdt_from_srv_or_null\<close>: a pointer to a nullable pointer\<close>
  out_by_srv :: "channel_obj list option" \<comment> \<open>\<^verbatim>\<open>init_channels_by_srv_req\<close>\<close>

datatype client_expect = Expect_nothing
  | Expect_log_in_rsp
  | Expect_init_channels nat "channel_obj list" "mdt option"
  | Expect_open_channel

record client_session = session_base +
  m_state :: client_state
  m_conn_on_done_func_or_empty :: "handler option"
  m_last_actively_opened_channel_id :: "32 word"
  m_last_passively_opened_channel_id :: "32 word"
  m_master_channel :: "nat option" \<comment> \<open>the identity of the channel\<close>
  m_graceful_finisher :: "graceful_finisher option"
  c_expect :: client_expect
  c_out :: connect_out
  done_calls :: "(handler \<times> error_code option) list"
  passive_calls :: "(handler \<times> channel_obj \<times> mdt) list"
  sent :: "msg list"

definition no_out :: connect_out where
  "no_out = \<lparr> out_by_cli = None, out_mdt = None, out_by_srv = None \<rparr>"

definition Client_session_impl ::
    "Client_app \<Rightarrow> Server_app \<Rightarrow> handler option \<Rightarrow> handler option \<Rightarrow> client_session" where
  "Client_session_impl cli_app_ref srv_app_ref on_err_func on_passive_open_channel_func_or_empty_arg =
     session_base.extend (Session_base_cli cli_app_ref srv_app_ref on_err_func
         on_passive_open_channel_func_or_empty_arg)
       \<lparr> m_state = S_NULL, m_conn_on_done_func_or_empty = None,
         m_last_actively_opened_channel_id = 0, m_last_passively_opened_channel_id = 0,
         m_master_channel = None, m_graceful_finisher = None,
         c_expect = Expect_nothing, c_out = no_out,
         done_calls = [], passive_calls = [], sent = [] \<rparr>"

section \<open>The completion handler\<close>

text \<open>
  \<open>hook\<close> is what the handler itself does to the session when it runs: nothing for a user's
  handler, and possibly a call of \<open>cancel_peer_state_to_null\<close> or
  \<open>cancel_peer_state_to_connecting\<close> for the handler of a subclass.
\<close>

type_synonym done_hook = "error_code option \<Rightarrow> client_session \<Rightarrow> client_session res"

definition user_hook :: done_hook where
  "user_hook e s = Inr s"

definition invoke_conn_on_done_func ::
    "done_hook \<Rightarrow> error_code option \<Rightarrow> client_session \<Rightarrow> client_session res" where
  "invoke_conn_on_done_func hook err_code s = (case m_conn_on_done_func_or_empty s of
     None \<Rightarrow> Inl (Uncaught ''bad_function_call'')
   | Some func \<Rightarrow>
       hook err_code (s\<lparr> m_conn_on_done_func_or_empty := None,
         done_calls := done_calls s @ [(func, err_code)] \<rparr>))"

section \<open>Creating a channel from what the server sent\<close>

text \<open>
  The answers of the message-queue handles' constructors and of \<^verbatim>\<open>Channel_obj\<close>'s constructor.
\<close>

record channel_env =
  ce_open_c2s :: "error_code option"
  ce_open_s2c :: "error_code option"
  ce_channel :: "error_code option"

definition channel_nickname :: "bool \<Rightarrow> client_session \<Rightarrow> string \<times> client_session" where
  "channel_nickname active_else_passive s =
     (if active_else_passive
      then let n = m_last_actively_opened_channel_id s + 1
           in (''active'' @ to_string (unat n), s\<lparr> m_last_actively_opened_channel_id := n \<rparr>)
      else let n = m_last_passively_opened_channel_id s + 1
           in (''passive'' @ to_string (unat n), s\<lparr> m_last_passively_opened_channel_id := n \<rparr>))"

text \<open>
  The second assertion compares the name of the client-to-server queue twice, as the code does.
\<close>

definition create_channel_obj ::
    "session_cfg \<Rightarrow> channel_env \<Rightarrow> shared_name \<Rightarrow> shared_name \<Rightarrow> native_handle \<Rightarrow> bool \<Rightarrow>
     client_session \<Rightarrow> (client_session \<times> channel_obj \<times> error_code option) res" where
  "create_channel_obj cfg env mq_name_c2s_or_none mq_name_s2c_or_none local_hndl_or_null
       active_else_passive s =
     (let (nickname, s) = channel_nickname active_else_passive s in
      ensure (S_SOCKET_STREAM_ENABLED cfg = (local_hndl_or_null \<noteq> None))
        ''We and server peer agreed on has-socket-stream channel config'' (
      ensure ((\<not> S_MQS_ENABLED cfg) = (mq_name_c2s_or_none = []) \<and>
              (\<not> S_MQS_ENABLED cfg) = (mq_name_c2s_or_none = []))
        ''We and server peer agreed on MQ-type channel config'' (
      if S_MQS_ENABLED cfg then
        (case (if ce_open_c2s env \<noteq> None then ce_open_c2s env else ce_open_s2c env) of
           Some e \<Rightarrow> Inr (s, Blank, Some e)
         | None \<Rightarrow>
             if ce_channel env \<noteq> None then Inr (s, Blank, ce_channel env)
             else Inr (s, Channel nickname (Channel_obj cfg)
               (Some (mq_name_c2s_or_none, mq_name_s2c_or_none)) local_hndl_or_null, None))
      else Inr (s, Channel nickname (Channel_obj cfg) None local_hndl_or_null, None))))"

section \<open>Connecting: reading the namespace store\<close>

text \<open>
  The answers of the environment during \<open>async_connect\<close>: the creation of the mutex handle
  (an error code if an exception was mapped to one), the store file (an \<^verbatim>\<open>errno\<close> or its
  content), the socket connect, the peer's credentials, the identity of the new channel and
  the sending of the log-in request.
\<close>

record connect_env =
  env_mutex :: "shared_name \<Rightarrow> error_code option"
  env_file :: "fs_path \<Rightarrow> int + string"
  env_sock_connect :: "shared_name \<Rightarrow> error_code option"
  env_remote_creds :: "error_code option"
  env_new_channel :: nat
  env_request :: send_answer
  env_own_creds :: process_creds

text \<open>
  \<^verbatim>\<open>getline()\<close> up to a newline; the stream stays \<^verbatim>\<open>good()\<close> exactly if there was one.
\<close>

definition getline :: "string \<Rightarrow> string \<times> bool" where
  "getline content = (takeWhile (\<lambda>c. c \<noteq> CHR 0x0A) content, CHR 0x0A \<in> set content)"

definition read_cns :: "connect_env \<Rightarrow> shared_name \<Rightarrow> fs_path \<Rightarrow> error_code + string" where
  "read_cns env mutex_name cns_path = (case env_mutex env mutex_name of
     Some e \<Rightarrow> Inl e
   | None \<Rightarrow> (case env_file env cns_path of
       Inl errno \<Rightarrow> Inl (System_err errno)
     | Inr content \<Rightarrow>
         let (srv_namespace_mv, good) = getline content in
         if \<not> good then Inl (make_error_code S_CLIENT_NAMESPACE_STORE_BAD_FORMAT)
         else Inr srv_namespace_mv))"

section \<open>Connecting: the log-in request\<close>

definition fill_log_in_req :: "session_cfg \<Rightarrow> connect_env \<Rightarrow> mdt \<Rightarrow> client_session \<Rightarrow> msg" where
  "fill_log_in_req cfg env md s =
     \<lparr> body = LogInReq
         \<lparr> lq_max_proto_ver = 1, lq_max_proto_ver_aux = 1,
           lq_mq_type = S_MQ_TYPE_OR_NONE cfg,
           lq_native_handles = S_TRANSMIT_NATIVE_HANDLES cfg,
           lq_creds = env_own_creds env,
           lq_own_app = m_name (the (cli_app_ptr s)),
           lq_shm_type = S_SHM_TYPE_OR_NONE cfg,
           lq_mdt = md,
           lq_n_init_by_cli = (case out_by_cli (c_out s) of None \<Rightarrow> 0 | Some cs \<Rightarrow> word_of_nat (length cs)) \<rparr>,
       native_handle_or_null = None \<rparr>"

text \<open>The common end of all failures inside \<open>async_connect\<close>.\<close>

definition connect_failed ::
    "done_hook \<Rightarrow> error_code \<Rightarrow> client_session \<Rightarrow> (bool \<times> client_session) res" where
  "connect_failed hook err_code s =
     ensure (m_state s = S_CONNECTING) ''A lot of (albeit synchronous) code above... just making sure.'' (
     ensure (m_conn_on_done_func_or_empty s \<noteq> None)
       ''m_conn_on_done_func_or_empty can only be emptied upon executing it.'' (
     res_bind (invoke_conn_on_done_func hook (Some err_code) (s\<lparr> m_state := S_NULL \<rparr>)) (\<lambda>s.
     Inr (True, s))))"

text \<open>With the socket stream connected: wrap it and send the log-in request.\<close>

definition start_log_in ::
    "session_cfg \<Rightarrow> connect_env \<Rightarrow> done_hook \<Rightarrow> mdt \<Rightarrow> client_session \<Rightarrow> (bool \<times> client_session) res" where
  "start_log_in cfg env hook md s =
     ensure (env_remote_creds env = None) ''It really should not fail that early.'' (
     ensure (m_master_channel s = None) ''!m_master_channel'' (
     let s = s\<lparr> m_master_channel := Some (env_new_channel env), c_expect := Expect_nothing \<rparr>;
         log_in_req_msg = fill_log_in_req cfg env md s
     in case env_request env of
          Refused \<Rightarrow> Inr (True, s)
        | Sent_ok \<Rightarrow> Inr (True, s\<lparr> sent := sent s @ [log_in_req_msg], c_expect := Expect_log_in_rsp \<rparr>)
        | Sent_err e \<Rightarrow> connect_failed hook e (s\<lparr> m_master_channel := None \<rparr>)))"

text \<open>With the first line of the store: parse it, compute the acceptor's name, connect.\<close>

definition connect_to_namespace ::
    "session_lib \<Rightarrow> session_cfg \<Rightarrow> connect_env \<Rightarrow> done_hook \<Rightarrow> mdt \<Rightarrow> string \<Rightarrow> client_session \<Rightarrow>
     (bool \<times> client_session) res" where
  "connect_to_namespace L cfg env hook md srv_namespace_mv s =
     (case lexical_cast_pid L srv_namespace_mv of
        None \<Rightarrow> connect_failed hook (make_error_code S_CLIENT_NAMESPACE_STORE_BAD_FORMAT) s
      | Some pid \<Rightarrow>
          res_bind (set_srv_namespace (lib_sn L) (int_to_string (sint pid)) s) (\<lambda>s.
          res_bind (session_master_socket_stream_acceptor_absolute_name L s) (\<lambda>acc_name.
          case env_sock_connect env acc_name of
            Some e \<Rightarrow> connect_failed hook e s
          | None \<Rightarrow> start_log_in cfg env hook md s)))"

definition async_connect ::
    "session_lib \<Rightarrow> session_cfg \<Rightarrow> connect_env \<Rightarrow> done_hook \<Rightarrow> mdt_builder option \<Rightarrow> connect_out \<Rightarrow> handler \<Rightarrow>
     client_session \<Rightarrow> (bool \<times> client_session) res" where
  "async_connect L cfg env hook mdt outs on_done_func s = (case mdt of
     None \<Rightarrow> Inl (Uncaught ''null mdt dereferenced'')
   | Some b \<Rightarrow>
     ensure (mb_kind b = For_log_in) ''Did you pass PEER-state-mdt_builder() result to async_connect()?'' (
     if m_state s \<noteq> S_NULL then Inr (False, s)
     else
       let s = s\<lparr> m_state := S_CONNECTING, m_conn_on_done_func_or_empty := Some on_done_func,
                  c_out := outs \<rparr> in
       res_bind (cur_ns_store_mutex_absolute_name L (m_srv_app_ref s)) (\<lambda>mutex_name.
       case read_cns env mutex_name (cur_ns_store_absolute_path L (m_srv_app_ref s)) of
         Inl e \<Rightarrow> connect_failed hook e s
       | Inr srv_namespace_mv \<Rightarrow> connect_to_namespace L cfg env hook (mb_mdt b) srv_namespace_mv s)))"

section \<open>Connecting: the log-in response\<close>

definition n_by_cli :: "client_session \<Rightarrow> nat" where
  "n_by_cli s = (case out_by_cli (c_out s) of None \<Rightarrow> 0 | Some cs \<Rightarrow> length cs)"

text \<open>
  The checks of the response, in their order. On success: the number of init-channels to
  expect (a \<^verbatim>\<open>size_t\<close> sum) and the metadata if the user asked for it; the namespace is saved.
\<close>

definition check_log_in_rsp ::
    "session_lib \<Rightarrow> msg \<Rightarrow> client_session \<Rightarrow> (client_session \<times> (error_code + (nat \<times> mdt option))) res" where
  "check_log_in_rsp L log_in_rsp s = (case body log_in_rsp of
     LogInRsp root \<Rightarrow>
       (case compute_negotiated_proto_ver L (lr_max_proto_ver root) of
          Some e \<Rightarrow> Inr (s, Inl e)
        | None \<Rightarrow> (case compute_negotiated_proto_ver L (lr_max_proto_ver_aux root) of
            Some e \<Rightarrow> Inr (s, Inl e)
          | None \<Rightarrow>
              if lr_n_init_by_srv root \<noteq> 0 \<and> out_by_srv (c_out s) = None
              then Inr (s, Inl (make_error_code S_INVALID_ARGUMENT))
              else if lr_cli_namespace root = [] \<or> lr_cli_namespace root = S_SENTINEL (lib_sn L)
              then Inr (s, Inl (make_error_code S_CLIENT_MASTER_LOG_IN_RESPONSE_BAD))
              else res_bind (set_cli_namespace (lib_sn L) (lr_cli_namespace root) s) (\<lambda>s.
                Inr (s, Inr (unat (lr_n_init_by_srv root + word_of_nat (n_by_cli s)),
                       if out_mdt (c_out s) \<noteq> None then Some (lr_mdt root) else None)))))
   | _ \<Rightarrow> Inr (s, Inl (make_error_code S_CLIENT_MASTER_LOG_IN_RESPONSE_BAD)))"

text \<open>What follows the completion handler on both paths to PEER state.\<close>

definition after_peer :: "session_cfg \<Rightarrow> client_session \<Rightarrow> client_session res" where
  "after_peer cfg s =
     (if S_GRACEFUL_FINISH_REQUIRED cfg
      then ensure (m_state s \<noteq> S_PEER) ''In practice only SHM-jemalloc should use GRACEFUL_FINISH_REQUIRED=true'' (Inr s)
      else Inr s)"

text \<open>
  No init-channels: write the out-arguments, then expect open-channel requests (\<open>expect_ok\<close>
  is the answer), then go to PEER.
\<close>

definition log_in_finish ::
    "session_cfg \<Rightarrow> done_hook \<Rightarrow> bool \<Rightarrow> mdt option \<Rightarrow> client_session \<Rightarrow> client_session res" where
  "log_in_finish cfg hook expect_ok mdt_from_srv s =
     (let s = (if out_by_srv (c_out s) \<noteq> None
               then s\<lparr> c_out := (c_out s)\<lparr> out_by_srv := Some [] \<rparr> \<rparr> else s) in
      ensure (out_by_cli (c_out s) = None \<or> out_by_cli (c_out s) = Some [])
        ''Otherwise could n_init_channels remain 0?'' (
      ensure ((out_mdt (c_out s) \<noteq> None) = (mdt_from_srv \<noteq> None)) ''Some logic above must be broken.'' (
      let s = (if out_mdt (c_out s) \<noteq> None
               then s\<lparr> c_out := (c_out s)\<lparr> out_mdt := Some mdt_from_srv \<rparr> \<rparr> else s) in
      if \<not> expect_ok then Inr s
      else
        let s = s\<lparr> c_expect := Expect_open_channel, m_state := S_PEER \<rparr> in
        res_bind (invoke_conn_on_done_func hook None s) (after_peer cfg))))"

definition on_master_channel_log_in_rsp ::
    "session_lib \<Rightarrow> session_cfg \<Rightarrow> done_hook \<Rightarrow> bool \<Rightarrow> msg \<Rightarrow> client_session \<Rightarrow> client_session res" where
  "on_master_channel_log_in_rsp L cfg hook expect_ok log_in_rsp s =
     res_bind (check_log_in_rsp L log_in_rsp (s\<lparr> c_expect := Expect_nothing \<rparr>)) (\<lambda>(s, result).
     ensure (m_state s = S_CONNECTING) ''on_master_channel_log_in_rsp(): CONNECTING state'' (
     ensure (m_conn_on_done_func_or_empty s \<noteq> None)
       ''m_conn_on_done_func_or_empty can only be emptied upon executing it.'' (
     case result of
       Inl err_code \<Rightarrow>
         invoke_conn_on_done_func hook (Some err_code) (s\<lparr> m_master_channel := None, m_state := S_NULL \<rparr>)
     | Inr (n_init_channels, mdt_from_srv) \<Rightarrow>
         if n_init_channels = 0 then log_in_finish cfg hook expect_ok mdt_from_srv s
         else Inr (if expect_ok then s\<lparr> c_expect := Expect_init_channels n_init_channels [] mdt_from_srv \<rparr>
                   else s))))"

section \<open>Connecting: the init-channels\<close>

text \<open>
  Hand the collected channels out: the first ones fill the pre-sized container of the client,
  the rest go to the container for the server's, then the metadata.
\<close>

definition emit_init_channels ::
    "nat \<Rightarrow> channel_obj list \<Rightarrow> mdt option \<Rightarrow> client_session \<Rightarrow> client_session res" where
  "emit_init_channels n_init_channels init_channels mdt_from_srv s =
     (if n_by_cli s > length init_channels then Inl (Uncaught ''init_channels[idx] out of range'') else
      let idx = n_by_cli s;
          out = c_out s;
          out = (if out_by_cli out \<noteq> None then out\<lparr> out_by_cli := Some (take idx init_channels) \<rparr> else out);
          (idx, out) = (if out_by_srv out \<noteq> None
                        then (n_init_channels, out\<lparr> out_by_srv := Some (drop idx init_channels) \<rparr>)
                        else (idx, out)) in
      ensure (idx = n_init_channels) ''idx == n_init_channels'' (
      ensure ((out_mdt out \<noteq> None) = (mdt_from_srv \<noteq> None)) ''Some logic in log-in handler must be broken.'' (
      Inr (s\<lparr> c_out := (if out_mdt out \<noteq> None then out\<lparr> out_mdt := Some mdt_from_srv \<rparr> else out) \<rparr>))))"

text \<open>
  The answers: the channel construction, \<^verbatim>\<open>undo_expect_msgs()\<close>, \<^verbatim>\<open>expect_msgs()\<close> and the sending
  of the response to the last message.
\<close>

record init_env =
  ie_channel :: channel_env
  ie_undo_ok :: bool
  ie_expect_ok :: bool
  ie_rsp :: send_answer

definition open_channel_rsp_to_srv :: "open_channel_result \<Rightarrow> msg" where
  "open_channel_rsp_to_srv r = \<lparr> body = OpenChannelToClientRsp r, native_handle_or_null = None \<rparr>"

text \<open>After the last init-channel: switch the expectation, respond, emit, go to PEER.\<close>

definition complete_init_channels ::
    "session_cfg \<Rightarrow> done_hook \<Rightarrow> init_env \<Rightarrow> nat \<Rightarrow> channel_obj list \<Rightarrow> mdt option \<Rightarrow> client_session \<Rightarrow>
     client_session res" where
  "complete_init_channels cfg hook env n_init_channels init_channels mdt_from_srv s =
     (if \<not> ie_undo_ok env then Inr s
      else let s = s\<lparr> c_expect := Expect_nothing \<rparr> in
      if \<not> ie_expect_ok env then Inr s
      else let s = s\<lparr> c_expect := Expect_open_channel \<rparr> in
      case ie_rsp env of
        Refused \<Rightarrow> Inr s
      | Sent_err err_code \<Rightarrow> invoke_conn_on_done_func hook (Some err_code) (s\<lparr> m_state := S_NULL \<rparr>)
      | Sent_ok \<Rightarrow>
          let s = s\<lparr> sent := sent s @ [open_channel_rsp_to_srv ACCEPTED] \<rparr> in
          res_bind (emit_init_channels n_init_channels init_channels mdt_from_srv s) (\<lambda>s.
          res_bind (invoke_conn_on_done_func hook None (s\<lparr> m_state := S_PEER \<rparr>)) (after_peer cfg)))"

definition on_master_channel_init_open_channel ::
    "session_cfg \<Rightarrow> done_hook \<Rightarrow> init_env \<Rightarrow> msg \<Rightarrow> nat \<Rightarrow> channel_obj list \<Rightarrow> mdt option \<Rightarrow>
     client_session \<Rightarrow> client_session res" where
  "on_master_channel_init_open_channel cfg hook env open_channel_msg n_init_channels init_channels
       mdt_from_srv s =
     ensure (m_state s = S_CONNECTING) ''on_master_channel_init_open_channel(): CONNECTING state'' (
     ensure (m_conn_on_done_func_or_empty s \<noteq> None)
       ''m_conn_on_done_func_or_empty can only be emptied upon executing it.'' (
     res_bind (getOpenChannelToClientReq open_channel_msg) (\<lambda>root.
     res_bind (create_channel_obj cfg (ie_channel env) (oc_mq_c2s_or_empty root) (oc_mq_s2c_or_empty root)
       (native_handle_or_null open_channel_msg) False s) (\<lambda>(s, opened_channel, err_code).
     ensure (err_code = None) ''!err_code'' (
     ensure (length init_channels < n_init_channels) ''init_channels.size() < n_init_channels'' (
     let init_channels = init_channels @ [opened_channel];
         s = s\<lparr> c_expect := Expect_init_channels n_init_channels init_channels mdt_from_srv \<rparr> in
     if length init_channels \<noteq> n_init_channels then Inr s
     else complete_init_channels cfg hook env n_init_channels init_channels mdt_from_srv s))))))"

section \<open>Errors of the master channel\<close>

text \<open>
  \<open>observer\<close> is what the weak pointer locks to: the identity of the channel the error came
  from, or \<open>None\<close> when that channel is gone.
\<close>

definition on_master_channel_error ::
    "session_cfg \<Rightarrow> done_hook \<Rightarrow> nat option \<Rightarrow> error_code \<Rightarrow> client_session \<Rightarrow> client_session res" where
  "on_master_channel_error cfg hook observer err_code s =
     (if observer = None then Inr s
      else
        ensure (observer = m_master_channel s) ''master_channel == m_master_channel'' (
        ensure (m_state s \<noteq> S_NULL) ''State cannot change to NULL while keeping m_master_channel alive.'' (
        if m_state s = S_CONNECTING then
          let s = s\<lparr> m_master_channel := None, c_expect := Expect_nothing \<rparr> in
          ensure (m_conn_on_done_func_or_empty s \<noteq> None)
            ''m_conn_on_done_func_or_empty can only be emptied upon executing it.'' (
          invoke_conn_on_done_func hook (Some err_code) (s\<lparr> m_state := S_NULL \<rparr>))
        else
          res_bind (hosed s) (\<lambda>h.
          res_bind (if \<not> h then hose err_code s else Inr s) (\<lambda>s.
          if S_GRACEFUL_FINISH_REQUIRED cfg then (case m_graceful_finisher s of
              None \<Rightarrow> Inl (Uncaught ''empty optional dereferenced'')
            | Some f \<Rightarrow> Inr (s\<lparr> m_graceful_finisher := Some (on_master_channel_hosed f) \<rparr>))
          else Inr s)))))"

section \<open>Accessors\<close>

text \<open>The session token is the identity of the master channel; \<open>None\<close> is the null token.\<close>

definition session_token :: "client_session \<Rightarrow> nat option res" where
  "session_token s =
     (if m_state s \<noteq> S_PEER then Inr None
      else res_bind (hosed s) (\<lambda>h.
        if h then Inr None
        else ensure (m_master_channel s \<noteq> None) ''m_master_channel'' (Inr (m_master_channel s))))"

text \<open>
  \<open>None\<close> is a null pointer; otherwise the kind of request the builder belongs to (the user
  fills in the payload).
\<close>

definition mdt_builder :: "client_session \<Rightarrow> metadata_kind option" where
  "mdt_builder s = (if m_state s = S_CONNECTING then None
     else if m_state s = S_NULL then Some For_log_in else Some For_open_channel)"

definition filled :: "mdt \<Rightarrow> metadata_kind option \<Rightarrow> mdt_builder option" where
  "filled payload kind = map_option (\<lambda>k. \<lparr> mb_kind = k, mb_mdt = payload \<rparr>) kind"

section \<open>Opening a channel actively\<close>

text \<open>
  The answers: the response (if any) and the error of \<^verbatim>\<open>sync_request()\<close>, and those of the
  channel construction.
\<close>

record open_env =
  oe_rsp :: "msg option"
  oe_err :: "error_code option"
  oe_channel :: channel_env

text \<open>
  The returned \<^verbatim>\<open>bool\<close>, the final \<^verbatim>\<open>*err_code\<close>, and the final \<^verbatim>\<open>*target_channel\<close> if it was
  assigned.
\<close>

type_synonym open_result = "bool \<times> error_code option \<times> channel_obj option"

definition rejection :: "open_channel_result \<Rightarrow> error_code option res" where
  "rejection r = (case r of
     ACCEPTED \<Rightarrow> Inr None
   | REJECTED_PASSIVE_OPEN \<Rightarrow>
       Inr (Some (make_error_code S_SESSION_OPEN_CHANNEL_REMOTE_PEER_REJECTED_PASSIVE_OPEN))
   | REJECTED_RESOURCE_UNAVAILABLE \<Rightarrow>
       Inr (Some (make_error_code S_SESSION_OPEN_CHANNEL_SERVER_CANNOT_PROCEED_RESOURCE_UNAVAILABLE))
   | OPEN_END_SENTINEL \<Rightarrow> Inl (Assert ''false''))"

text \<open>With the server's response.\<close>

definition open_channel_with_rsp ::
    "session_cfg \<Rightarrow> channel_env \<Rightarrow> msg \<Rightarrow> client_session \<Rightarrow> (open_result \<times> client_session) res" where
  "open_channel_with_rsp cfg env open_channel_rsp s =
     res_bind (getOpenChannelToServerRsp open_channel_rsp) (\<lambda>root.
     res_bind (rejection (os_result root)) (\<lambda>err_code.
     if err_code \<noteq> None then Inr ((True, err_code, None), s)
     else
       res_bind (create_channel_obj cfg env (os_mq_c2s_or_empty root) (os_mq_s2c_or_empty root)
         (native_handle_or_null open_channel_rsp) True s) (\<lambda>(s, target_channel, err_code).
       ensure (err_code = None) ''!*err_code'' (
       Inr ((True, None, Some target_channel), s)))))"

definition open_channel ::
    "session_cfg \<Rightarrow> open_env \<Rightarrow> mdt_builder option \<Rightarrow> error_code option \<Rightarrow> client_session \<Rightarrow>
     (open_result \<times> client_session) res" where
  "open_channel cfg env mdt err_code s = (case mdt of
     None \<Rightarrow> Inr ((False, err_code, None), s)
   | Some open_channel_req \<Rightarrow>
       ensure (m_state s = S_PEER)
         ''mdt is non-null, yet state is not PEER, even though PEER is an end state?  Bug.'' (
       res_bind (hosed s) (\<lambda>h.
       if h then Inr ((False, None, None), s)
       else
         ensure (mb_kind open_channel_req = For_open_channel)
           ''Did you pass NULL-state-mdt_builder() result to open_channel()?'' (
         case (oe_rsp env, oe_err env) of
           (None, None) \<Rightarrow> Inr ((False, None, None), s)
         | (Some _, Some _) \<Rightarrow>
             Inl (Assert ''struc::Channel::sync_request() must emit no Error_code if it gets response.'')
         | (None, Some e) \<Rightarrow>
             if e = Transport_err T_TIMEOUT
             then Inr ((True, Some (make_error_code S_SESSION_OPEN_CHANNEL_ACTIVE_TIMEOUT), None), s)
             else res_bind (hose e s) (\<lambda>s. Inr ((False, None, None), s))
         | (Some rsp, None) \<Rightarrow> open_channel_with_rsp cfg (oe_channel env) rsp s))))"

text \<open>The overload without metadata.\<close>

definition open_channel_no_mdt ::
    "session_cfg \<Rightarrow> open_env \<Rightarrow> error_code option \<Rightarrow> client_session \<Rightarrow> (open_result \<times> client_session) res" where
  "open_channel_no_mdt cfg env err_code s =
     open_channel cfg env (filled [] (mdt_builder s)) err_code s"

section \<open>Opening a channel passively\<close>

record passive_env =
  pe_channel :: channel_env
  pe_rsp :: send_answer

text \<open>
  What is sent back to the server after the channel has been set up (or refused), and what the
  outcome of sending does.
\<close>

definition respond_passive_open ::
    "send_answer \<Rightarrow> handler option \<Rightarrow> channel_obj option \<Rightarrow> mdt \<Rightarrow> client_session \<Rightarrow> client_session res" where
  "respond_passive_open rsp on_passive_open_func opened_channel mdt s =
     (let open_channel_result = (if opened_channel = None then REJECTED_PASSIVE_OPEN else ACCEPTED) in
      case rsp of
        Refused \<Rightarrow> Inr s
      | Sent_err err_code \<Rightarrow> hose err_code s
      | Sent_ok \<Rightarrow>
          let s = s\<lparr> sent := sent s @ [open_channel_rsp_to_srv open_channel_result] \<rparr> in
          (case (opened_channel, on_passive_open_func) of
             (Some ch, Some f) \<Rightarrow> Inr (s\<lparr> passive_calls := passive_calls s @ [(f, ch, mdt)] \<rparr>)
           | (Some ch, None) \<Rightarrow> Inl (Uncaught ''bad_function_call'')
           | (None, _) \<Rightarrow> Inr s))"

definition on_master_channel_open_channel_req ::
    "session_cfg \<Rightarrow> passive_env \<Rightarrow> msg \<Rightarrow> client_session \<Rightarrow> client_session res" where
  "on_master_channel_open_channel_req cfg env open_channel_req s =
     res_bind (hosed s) (\<lambda>h.
     if h then Inr s
     else case on_passive_open_channel_func_or_empty s of
       None \<Rightarrow> respond_passive_open (pe_rsp env) None None [] s
     | Some f \<Rightarrow>
         res_bind (getOpenChannelToClientReq open_channel_req) (\<lambda>root.
         res_bind (create_channel_obj cfg (pe_channel env) (oc_mq_c2s_or_empty root)
           (oc_mq_s2c_or_empty root) (native_handle_or_null open_channel_req) False s)
           (\<lambda>(s, opened_channel, err_code).
         ensure (err_code = None) ''!err_code'' (
         respond_passive_open (pe_rsp env) (Some f) (Some opened_channel) (oc_mdt root) s))))"

section \<open>For subclasses: leaving PEER state again\<close>

definition cancel_peer_state_to_null :: "client_session \<Rightarrow> client_session" where
  "cancel_peer_state_to_null s = s\<lparr> m_master_channel := None, m_state := S_NULL \<rparr>"

definition cancel_peer_state_to_connecting :: "handler \<Rightarrow> client_session \<Rightarrow> nat option \<times> client_session" where
  "cancel_peer_state_to_connecting on_done_func s =
     (m_master_channel s,
      s\<lparr> m_state := S_CONNECTING, m_conn_on_done_func_or_empty := Some on_done_func \<rparr>)"

definition complete_async_connect_after_canceling_peer_state ::
    "session_cfg \<Rightarrow> done_hook \<Rightarrow> error_code option \<Rightarrow> client_session \<Rightarrow> client_session res" where
  "complete_async_connect_after_canceling_peer_state cfg hook err_code_or_success s =
     res_bind (hosed s) (\<lambda>h.
     ensure (\<not> h) ''Per contract caller should avoid calling us if already hosed.'' (
     let s = (if err_code_or_success \<noteq> None
              then s\<lparr> m_master_channel := None, m_state := S_NULL \<rparr>
              else if S_GRACEFUL_FINISH_REQUIRED cfg
              then s\<lparr> m_state := S_PEER, m_graceful_finisher := Some Graceful_finisher \<rparr>
              else s\<lparr> m_state := S_PEER \<rparr>) in
     invoke_conn_on_done_func hook err_code_or_success s))"

section \<open>Destruction\<close>

text \<open>
  The destructor waits for the graceful finisher, if there is one, flushes and stops thread W;
  \<open>None\<close>: it blocks in this state. (The flush of the outgoing data is the channel's.)
\<close>

definition dtor_async_worker_stop :: "session_cfg \<Rightarrow> client_session \<Rightarrow> client_session option" where
  "dtor_async_worker_stop cfg s =
     (if S_GRACEFUL_FINISH_REQUIRED cfg
      then (case m_graceful_finisher s of
          None \<Rightarrow> Some s
        | Some f \<Rightarrow> if on_dtor_start_returns f then Some s else None)
      else Some s)"

definition dtor_Client_session_impl :: "session_cfg \<Rightarrow> client_session \<Rightarrow> unit res option" where
  "dtor_Client_session_impl cfg s = map_option (\<lambda>s.
     ensure (m_conn_on_done_func_or_empty s = None)
       ''async_connect() is used internally from sync_connect() only at this time'' (Inr ()))
     (dtor_async_worker_stop cfg s)"

section \<open>The public connect\<close>

text \<open>
  \<^verbatim>\<open>sync_connect()\<close> runs \<open>async_connect\<close> with a completion handler that stores the code, and
  unless that returned \<^verbatim>\<open>false\<close> waits for it: it returns when the handler has run.
\<close>

definition sync_connect_start ::
    "session_lib \<Rightarrow> session_cfg \<Rightarrow> connect_env \<Rightarrow> mdt_builder option \<Rightarrow> connect_out \<Rightarrow> handler \<Rightarrow>
     client_session \<Rightarrow> (bool \<times> client_session) res" where
  "sync_connect_start L cfg env mdt outs on_done_func s =
     async_connect L cfg env user_hook mdt outs on_done_func s"

definition sync_connect_returned :: "handler \<Rightarrow> client_session \<Rightarrow> error_code option option" where
  "sync_connect_returned on_done_func s = map_of (rev (done_calls s)) on_done_func"

text \<open>The overload without metadata and init-channels.\<close>

definition sync_connect_plain ::
    "session_lib \<Rightarrow> session_cfg \<Rightarrow> connect_env \<Rightarrow> handler \<Rightarrow> client_session \<Rightarrow>
     (bool \<times> client_session) res" where
  "sync_connect_plain L cfg env on_done_func s =
     sync_connect_start L cfg env (filled [] (mdt_builder s)) no_out on_done_func s"

end
