(* ===== verification/Client_System.thy ===== *)
theory Client_System
  imports Client_Session
begin

text \<open>
  The client session as a state machine: its calls and thread-W handlers in any order the
  documented behaviour of the master channel allows. The invariant relates the state, the
  completion handler, the channel and what was emitted to the user; from it follow the
  exactly-once guarantees. The machine is the one of a plain (non-SHM) session, whose
  completion handler is the user's.
\<close>

record client_sys =
  cs :: client_session
  cst :: chan_status
  accepted :: nat \<comment> \<open>connect calls that returned \<^verbatim>\<open>true\<close>\<close>

section \<open>The machine\<close>

definition client_ini :: "client_sys \<Rightarrow> bool" where
  "client_ini x \<longleftrightarrow> (\<exists>cli srv h p. x =
     \<lparr> cs = Client_session_impl cli srv (Some h) p, cst = Ch_ok, accepted = 0 \<rparr>)"

inductive client_step :: "session_lib \<Rightarrow> session_cfg \<Rightarrow> client_sys \<Rightarrow> client_sys \<Rightarrow> bool"
  for L :: session_lib and cfg :: session_cfg where
  connect:
    "async_connect L cfg env user_hook mdt outs h (cs x) = Inr (b, s') \<Longrightarrow>
     m_master_channel (cs x) \<noteq> Some (env_new_channel env) \<Longrightarrow>
     (if m_master_channel s' = m_master_channel (cs x) then st' = cst x
      else sending Ch_ok (env_request env) st') \<Longrightarrow>
     client_step L cfg x \<lparr> cs = s', cst = st', accepted = (if b then accepted x + 1 else accepted x) \<rparr>"
| channel_fails:
    "m_master_channel (cs x) \<noteq> None \<Longrightarrow> cst x = Ch_ok \<Longrightarrow>
     client_step L cfg x (x\<lparr> cst := Ch_err_pending e \<rparr>)"
| error:
    "cst x = Ch_err_pending e \<Longrightarrow>
     on_master_channel_error cfg user_hook (m_master_channel (cs x)) e (cs x) = Inr s' \<Longrightarrow>
     client_step L cfg x (x\<lparr> cs := s', cst := Ch_err_emitted \<rparr>)"
| log_in_rsp:
    "m_master_channel (cs x) \<noteq> None \<Longrightarrow> c_expect (cs x) = Expect_log_in_rsp \<Longrightarrow>
     op_answer (cst x) expect_ok st' \<Longrightarrow>
     on_master_channel_log_in_rsp L cfg user_hook expect_ok m (cs x) = Inr s' \<Longrightarrow>
     client_step L cfg x (x\<lparr> cs := s', cst := st' \<rparr>)"
| init_channel:
    "m_master_channel (cs x) \<noteq> None \<Longrightarrow> c_expect (cs x) = Expect_init_channels n chans md \<Longrightarrow>
     op_answer (cst x) (ie_undo_ok env) st1 \<Longrightarrow> op_answer st1 (ie_expect_ok env) st2 \<Longrightarrow>
     sending st2 (ie_rsp env) st' \<Longrightarrow>
     (if length chans + 1 = n then True else st' = cst x) \<Longrightarrow>
     on_master_channel_init_open_channel cfg user_hook env m n chans md (cs x) = Inr s' \<Longrightarrow>
     client_step L cfg x (x\<lparr> cs := s', cst := st' \<rparr>)"
| open_channel_req:
    "m_master_channel (cs x) \<noteq> None \<Longrightarrow> c_expect (cs x) = Expect_open_channel \<Longrightarrow>
     sending (cst x) (pe_rsp env) st' \<Longrightarrow>
     on_master_channel_open_channel_req cfg env m (cs x) = Inr s' \<Longrightarrow>
     client_step L cfg x (x\<lparr> cs := s', cst := st' \<rparr>)"
| open_channel:
    "requesting (cst x) (oe_rsp env) (oe_err env) st' \<Longrightarrow>
     (if m_state (cs x) = S_PEER \<and> mdt \<noteq> None then True else st' = cst x) \<Longrightarrow>
     open_channel cfg env mdt err (cs x) = Inr (r, s') \<Longrightarrow>
     client_step L cfg x (x\<lparr> cs := s', cst := st' \<rparr>)"

section \<open>The invariant\<close>

definition client_inv :: "client_sys \<Rightarrow> bool" where
  "client_inv x \<longleftrightarrow> (let s = cs x; st = cst x in
     (m_state s = S_CONNECTING \<longleftrightarrow> m_conn_on_done_func_or_empty s \<noteq> None) \<and>
     (m_state s = S_CONNECTING \<longrightarrow> m_master_channel s \<noteq> None \<and> st \<noteq> Ch_err_emitted \<and>
        (st = Ch_ok \<longrightarrow> c_expect s = Expect_log_in_rsp \<or>
           (\<exists>n chans md. c_expect s = Expect_init_channels n chans md))) \<and>
     (m_state s = S_PEER \<longrightarrow> m_master_channel s \<noteq> None \<and>
        (m_peer_state_err_code_or_ok s \<noteq> None \<longleftrightarrow> st = Ch_err_emitted) \<and> c_expect s = Expect_open_channel) \<and>
     (m_state s = S_NULL \<longrightarrow> m_master_channel s = None \<or> st = Ch_err_emitted \<and> c_expect s = Expect_open_channel) \<and>
     (m_peer_state_err_code_or_ok s \<noteq> None \<longrightarrow> m_state s = S_PEER) \<and>
     m_on_err_func s \<noteq> None \<and>
     (m_peer_state_err_code_or_ok s = None \<longrightarrow> fired s = []) \<and>
     (\<forall>e. m_peer_state_err_code_or_ok s = Some e \<longrightarrow> fired s = [(the (m_on_err_func s), e)]) \<and>
     length (done_calls s) + (if m_state s = S_CONNECTING then 1 else 0) = accepted x \<and>
     (if m_state s = S_PEER then done_calls s \<noteq> [] \<and> snd (last (done_calls s)) = None \<and>
          (\<forall>c \<in> set (butlast (done_calls s)). snd c \<noteq> None)
      else (\<forall>c \<in> set (done_calls s). snd c \<noteq> None)) \<and>
     (m_state s \<noteq> S_PEER \<longrightarrow> passive_calls s = []) \<and>
     (m_state s \<noteq> S_NULL \<longrightarrow> m_srv_namespace s \<noteq> []) \<and>
     (c_expect s = Expect_log_in_rsp \<longrightarrow> m_cli_namespace s = []) \<and>
     (m_srv_namespace s = [] \<longrightarrow> m_cli_namespace s = []))"

section \<open>What each operation does\<close>

lemma invoke_user [simp]:
  "invoke_conn_on_done_func user_hook e s = Inr s' \<longleftrightarrow>
     (\<exists>f. m_conn_on_done_func_or_empty s = Some f \<and>
       s' = s\<lparr> m_conn_on_done_func_or_empty := None, done_calls := done_calls s @ [(f, e)] \<rparr>)"
  by (auto simp: invoke_conn_on_done_func_def user_hook_def split: option.splits)

lemma connect_failed_user:
  "connect_failed user_hook e s = Inr (b, s') \<longleftrightarrow> m_state s = S_CONNECTING \<and> b \<and>
     (\<exists>f. m_conn_on_done_func_or_empty s = Some f \<and>
       s' = s\<lparr> m_state := S_NULL, m_conn_on_done_func_or_empty := None,
              done_calls := done_calls s @ [(f, Some e)] \<rparr>)"
  by (auto simp: connect_failed_def res_bind_eq_Inr)

lemma set_srv_namespace_Inr:
  "set_srv_namespace N ns s = Inr s' \<longleftrightarrow> ns \<noteq> [] \<and> ns \<noteq> S_SENTINEL N \<and> m_srv_namespace s = [] \<and>
     s' = s\<lparr> m_srv_namespace := ns \<rparr>"
  by (auto simp: set_srv_namespace_def)

lemma set_cli_namespace_Inr:
  "set_cli_namespace N ns s = Inr s' \<longleftrightarrow> ns \<noteq> [] \<and> ns \<noteq> S_SENTINEL N \<and> m_cli_namespace s = [] \<and>
     s' = s\<lparr> m_cli_namespace := ns \<rparr>"
  by (auto simp: set_cli_namespace_def)

text \<open>The three ways \<open>async_connect\<close> ends: not started, failed at once, or under way.\<close>

lemma start_log_in_cases:
  assumes "start_log_in cfg env user_hook md s = Inr (b, s')"
  shows "b \<and> m_master_channel s = None \<and>
    ((\<exists>e f. env_request env = Sent_err e \<and> m_state s = S_CONNECTING \<and>
        m_conn_on_done_func_or_empty s = Some f \<and>
        s' = s\<lparr> c_expect := Expect_nothing, m_state := S_NULL, m_conn_on_done_func_or_empty := None,
               done_calls := done_calls s @ [(f, Some e)] \<rparr>) \<or>
     (env_request env = Refused \<and>
        s' = s\<lparr> m_master_channel := Some (env_new_channel env), c_expect := Expect_nothing \<rparr>) \<or>
     (env_request env = Sent_ok \<and> (\<exists>m. s' = s\<lparr> m_master_channel := Some (env_new_channel env),
        c_expect := Expect_log_in_rsp, sent := sent s @ [m] \<rparr>)))"
  using assms by (cases s) (auto simp: start_log_in_def Let_def connect_failed_user split: send_answer.splits)

lemma connect_to_namespace_cases:
  assumes "connect_to_namespace L cfg env hook md line s = Inr r"
  shows "(\<exists>e. connect_failed hook e s = Inr r) \<or>
    (\<exists>ns. ns \<noteq> [] \<and> m_srv_namespace s = [] \<and>
      ((\<exists>e. connect_failed hook e (s\<lparr> m_srv_namespace := ns \<rparr>) = Inr r) \<or>
       start_log_in cfg env hook md (s\<lparr> m_srv_namespace := ns \<rparr>) = Inr r))"
proof (cases "lexical_cast_pid L line")
  case None
  with assms show ?thesis by (auto simp: connect_to_namespace_def)
next
  case (Some pid)
  let ?ns = "int_to_string (sint pid)"
  from assms Some obtain acc where "m_srv_namespace s = []"
    "(case env_sock_connect env acc of
        Some e \<Rightarrow> connect_failed hook e (s\<lparr> m_srv_namespace := ?ns \<rparr>)
      | None \<Rightarrow> start_log_in cfg env hook md (s\<lparr> m_srv_namespace := ?ns \<rparr>)) = Inr r"
    by (auto simp: connect_to_namespace_def res_bind_eq_Inr set_srv_namespace_Inr)
  moreover have "?ns \<noteq> []" by simp
  ultimately show ?thesis
    by (intro disjI2 exI [of _ ?ns]) (auto split: option.splits)
qed

lemma async_connect_cases:
  assumes "async_connect L cfg env user_hook mdt outs h s = Inr (b, s')"
  shows "(\<not> b \<and> m_state s \<noteq> S_NULL \<and> s' = s) \<or>
    (b \<and> m_state s = S_NULL \<and> (\<exists>e ns ex. s' = s\<lparr> c_out := outs, m_srv_namespace := ns, c_expect := ex,
        m_conn_on_done_func_or_empty := None, done_calls := done_calls s @ [(h, Some e)] \<rparr> \<and>
        (ns = m_srv_namespace s \<or> m_srv_namespace s = []) \<and>
        (ex = c_expect s \<or> ex = Expect_nothing \<and> m_master_channel s = None))) \<or>
    (b \<and> m_state s = S_NULL \<and> m_master_channel s = None \<and> m_srv_namespace s = [] \<and>
      (\<exists>ns. ns \<noteq> [] \<and>
       ((env_request env = Refused \<and>
          s' = s\<lparr> m_state := S_CONNECTING, m_conn_on_done_func_or_empty := Some h, c_out := outs,
                 m_srv_namespace := ns, m_master_channel := Some (env_new_channel env),
                 c_expect := Expect_nothing \<rparr>) \<or>
        (env_request env = Sent_ok \<and> (\<exists>m.
          s' = s\<lparr> m_state := S_CONNECTING, m_conn_on_done_func_or_empty := Some h, c_out := outs,
                 m_srv_namespace := ns, m_master_channel := Some (env_new_channel env),
                 c_expect := Expect_log_in_rsp, sent := sent s @ [m] \<rparr>)))))"
proof -
  obtain md where md: "mdt = Some md" using assms by (cases mdt) (simp_all add: async_connect_def)
  show ?thesis
  proof (cases "m_state s = S_NULL")
    case False
    then show ?thesis using assms md by (auto simp: async_connect_def)
  next
    case True
    let ?s = "s\<lparr> m_state := S_CONNECTING, m_conn_on_done_func_or_empty := Some h, c_out := outs \<rparr>"
    from assms md True obtain mx where mx:
      "(case read_cns env mx (cur_ns_store_absolute_path L (m_srv_app_ref ?s)) of
         Inl e \<Rightarrow> connect_failed user_hook e ?s
       | Inr line \<Rightarrow> connect_to_namespace L cfg env user_hook (mb_mdt md) line ?s) = Inr (b, s')"
      by (auto simp: async_connect_def Let_def res_bind_eq_Inr)
    show ?thesis
    proof (cases "\<exists>e. connect_failed user_hook e ?s = Inr (b, s')")
      case True
      then show ?thesis using \<open>m_state s = S_NULL\<close> by (cases s) (auto simp: connect_failed_user)
    next
      case False
      with mx obtain line where "connect_to_namespace L cfg env user_hook (mb_mdt md) line ?s = Inr (b, s')"
        by (auto split: sum.splits)
      with False connect_to_namespace_cases [OF this] obtain ns where "ns \<noteq> []" "m_srv_namespace s = []"
        "(\<exists>e. connect_failed user_hook e (?s\<lparr> m_srv_namespace := ns \<rparr>) = Inr (b, s')) \<or>
         start_log_in cfg env user_hook (mb_mdt md) (?s\<lparr> m_srv_namespace := ns \<rparr>) = Inr (b, s')"
        by auto
      then show ?thesis using \<open>m_state s = S_NULL\<close>
        by (cases s) (auto simp: connect_failed_user dest!: start_log_in_cases)
    qed
  qed
qed

lemma check_log_in_rsp_cases:
  assumes "check_log_in_rsp L m s = Inr (s', r)"
  shows "(\<exists>e. r = Inl e \<and> s' = s) \<or>
    (\<exists>ns n md. r = Inr (n, md) \<and> s' = s\<lparr> m_cli_namespace := ns \<rparr> \<and> m_cli_namespace s = [] \<and>
       ns \<noteq> [] \<and> (md \<noteq> None \<longleftrightarrow> out_mdt (c_out s) \<noteq> None))"
  using assms
  by (auto simp: check_log_in_rsp_def res_bind_eq_Inr set_cli_namespace_Inr
      split: msg_body.splits option.splits if_splits)

lemma after_peer_Inr: "after_peer cfg s = Inr s' \<longleftrightarrow>
    s' = s \<and> (S_GRACEFUL_FINISH_REQUIRED cfg \<longrightarrow> m_state s \<noteq> S_PEER)"
  by (auto simp: after_peer_def)

lemma log_in_finish_cases:
  assumes "log_in_finish cfg user_hook expect_ok md s = Inr s'"
  shows "(\<not> expect_ok \<and> (\<exists>out. s' = s\<lparr> c_out := out \<rparr>)) \<or>
    (expect_ok \<and> (\<exists>out f. m_conn_on_done_func_or_empty s = Some f \<and>
       s' = s\<lparr> c_out := out, c_expect := Expect_open_channel, m_state := S_PEER,
              m_conn_on_done_func_or_empty := None, done_calls := done_calls s @ [(f, None)] \<rparr>))"
  using assms
  by (cases s) (auto simp: log_in_finish_def Let_def res_bind_eq_Inr after_peer_Inr split: if_splits)

lemma log_in_rsp_cases:
  assumes "on_master_channel_log_in_rsp L cfg user_hook expect_ok m s = Inr s'"
  shows "m_state s = S_CONNECTING \<and> (\<exists>f. m_conn_on_done_func_or_empty s = Some f \<and>
    ((\<exists>e. s' = s\<lparr> c_expect := Expect_nothing, m_master_channel := None, m_state := S_NULL,
         m_conn_on_done_func_or_empty := None, done_calls := done_calls s @ [(f, Some e)] \<rparr>) \<or>
     (\<exists>ns. m_cli_namespace s = [] \<and>
      ((\<not> expect_ok \<and> (\<exists>out. s' = s\<lparr> c_expect := Expect_nothing, m_cli_namespace := ns, c_out := out \<rparr>)) \<or>
       (expect_ok \<and> (\<exists>n md. n \<noteq> 0 \<and>
          s' = s\<lparr> c_expect := Expect_init_channels n [] md, m_cli_namespace := ns \<rparr>)) \<or>
       (expect_ok \<and> (\<exists>out. s' = s\<lparr> m_cli_namespace := ns, c_out := out, c_expect := Expect_open_channel,
          m_state := S_PEER, m_conn_on_done_func_or_empty := None,
          done_calls := done_calls s @ [(f, None)] \<rparr>))))))"
proof -
  let ?s = "s\<lparr> c_expect := Expect_nothing \<rparr>"
  obtain s1 r where c: "check_log_in_rsp L m ?s = Inr (s1, r)"
    using assms by (auto simp: on_master_channel_log_in_rsp_def res_bind_eq_Inr)
  from check_log_in_rsp_cases [OF this] assms c show ?thesis
    by (cases s) (fastforce simp: on_master_channel_log_in_rsp_def split: if_splits dest!: log_in_finish_cases)
qed

lemma create_channel_obj_Inr:
  assumes "create_channel_obj cfg env c2s s2c h act s = Inr (s', ch, e)"
  shows "\<exists>a p. s' = s\<lparr> m_last_actively_opened_channel_id := a, m_last_passively_opened_channel_id := p \<rparr>"
  using assms
  by (cases s) (auto simp: create_channel_obj_def channel_nickname_def Let_def split: if_splits option.splits)

lemma emit_init_channels_Inr:
  "emit_init_channels n chans md s = Inr s' \<Longrightarrow> \<exists>out. s' = s\<lparr> c_out := out \<rparr>"
  by (cases s) (auto simp: emit_init_channels_def Let_def split: if_splits)

lemma complete_init_channels_cases:
  assumes "complete_init_channels cfg user_hook env n chans md s = Inr s'"
  shows "(\<not> ie_undo_ok env \<and> s' = s) \<or>
    (ie_undo_ok env \<and> \<not> ie_expect_ok env \<and> s' = s\<lparr> c_expect := Expect_nothing \<rparr>) \<or>
    (ie_undo_ok env \<and> ie_expect_ok env \<and> ie_rsp env = Refused \<and> s' = s\<lparr> c_expect := Expect_open_channel \<rparr>) \<or>
    (ie_undo_ok env \<and> ie_expect_ok env \<and> (\<exists>f e. m_conn_on_done_func_or_empty s = Some f \<and> ie_rsp env = Sent_err e \<and>
       s' = s\<lparr> c_expect := Expect_open_channel, m_state := S_NULL, m_conn_on_done_func_or_empty := None,
         done_calls := done_calls s @ [(f, Some e)] \<rparr>)) \<or>
    (ie_undo_ok env \<and> ie_expect_ok env \<and> ie_rsp env = Sent_ok \<and> (\<exists>f out. m_conn_on_done_func_or_empty s = Some f \<and>
       s' = s\<lparr> c_expect := Expect_open_channel, sent := sent s @ [open_channel_rsp_to_srv ACCEPTED],
         c_out := out, m_state := S_PEER, m_conn_on_done_func_or_empty := None,
         done_calls := done_calls s @ [(f, None)] \<rparr>))"
  using assms
  by (cases s) (auto simp: complete_init_channels_def Let_def res_bind_eq_Inr after_peer_Inr
      split: if_splits send_answer.splits dest!: emit_init_channels_Inr)

lemma init_open_channel_cases:
  assumes "on_master_channel_init_open_channel cfg user_hook env m n chans md s = Inr s'"
  shows "m_state s = S_CONNECTING \<and> m_conn_on_done_func_or_empty s \<noteq> None \<and> length chans < n \<and>
    (\<exists>a p ch. let t = s\<lparr> m_last_actively_opened_channel_id := a, m_last_passively_opened_channel_id := p,
                        c_expect := Expect_init_channels n (chans @ [ch]) md \<rparr> in
       (length chans + 1 \<noteq> n \<and> s' = t) \<or>
       (length chans + 1 = n \<and> complete_init_channels cfg user_hook env n (chans @ [ch]) md t = Inr s'))"
  using assms
  by (fastforce simp: on_master_channel_init_open_channel_def Let_def res_bind_eq_Inr
      split: if_splits dest: create_channel_obj_Inr)

lemma respond_passive_open_cases:
  assumes "respond_passive_open rsp f ch md s = Inr s'"
  shows "(rsp = Refused \<and> s' = s) \<or> (\<exists>e. rsp = Sent_err e \<and> hose e s = Inr s') \<or>
    (rsp = Sent_ok \<and> (\<exists>m c. s' = s\<lparr> sent := sent s @ [m], passive_calls := passive_calls s @ c \<rparr>))"
  using assms
  by (cases s) (auto simp: respond_passive_open_def Let_def split: send_answer.splits option.splits)

lemma open_channel_req_cases:
  assumes "on_master_channel_open_channel_req cfg env m s = Inr s'"
  shows "(m_peer_state_err_code_or_ok s \<noteq> None \<and> s' = s) \<or>
    (m_peer_state_err_code_or_ok s = None \<and>
      (\<exists>a p f ch md. respond_passive_open (pe_rsp env) f ch md
        (s\<lparr> m_last_actively_opened_channel_id := a, m_last_passively_opened_channel_id := p \<rparr>) = Inr s'))"
proof (cases "m_peer_state_err_code_or_ok s = None \<and> on_passive_open_channel_func_or_empty s = None")
  case True
  have "s = s\<lparr> m_last_actively_opened_channel_id := m_last_actively_opened_channel_id s,
      m_last_passively_opened_channel_id := m_last_passively_opened_channel_id s \<rparr>" by simp
  moreover have "respond_passive_open (pe_rsp env) None None [] s = Inr s'"
    using True assms by (auto simp: on_master_channel_open_channel_req_def res_bind_eq_Inr)
  ultimately show ?thesis using True by metis
next
  case False
  with assms show ?thesis
    by (auto simp: on_master_channel_open_channel_req_def res_bind_eq_Inr
        split: if_splits option.splits dest!: create_channel_obj_Inr) blast
qed

lemma open_channel_with_rsp_Inr:
  assumes "open_channel_with_rsp cfg env rsp s = Inr (r, s')"
  shows "\<exists>a p. s' = s\<lparr> m_last_actively_opened_channel_id := a, m_last_passively_opened_channel_id := p \<rparr>"
proof -
  have "s = s\<lparr> m_last_actively_opened_channel_id := m_last_actively_opened_channel_id s,
      m_last_passively_opened_channel_id := m_last_passively_opened_channel_id s \<rparr>" by simp
  moreover have "s' = s \<or> (\<exists>c2s s2c h e ch. create_channel_obj cfg env c2s s2c h True s = Inr (s', ch, e))"
    using assms by (auto simp: open_channel_with_rsp_def res_bind_eq_Inr split: if_splits)
  ultimately show ?thesis by (metis create_channel_obj_Inr)
qed

lemma open_channel_cases:
  assumes "open_channel cfg env mdt err s = Inr (r, s')"
  shows "(s' = s \<and> (mdt = None \<or> m_state s = S_PEER \<and>
        (m_peer_state_err_code_or_ok s \<noteq> None \<or> oe_err env = None \<and> oe_rsp env = None \<or>
         oe_err env = Some (Transport_err T_TIMEOUT)))) \<or>
    (m_state s = S_PEER \<and> mdt \<noteq> None \<and> oe_rsp env = None \<and>
       (\<exists>e. oe_err env = Some e \<and> e \<noteq> Transport_err T_TIMEOUT \<and> hose e s = Inr s')) \<or>
    (m_state s = S_PEER \<and> mdt \<noteq> None \<and> oe_rsp env \<noteq> None \<and> oe_err env = None \<and>
       (\<exists>a p. s' = s\<lparr> m_last_actively_opened_channel_id := a, m_last_passively_opened_channel_id := p \<rparr>))"
proof (cases mdt)
  case None
  with assms show ?thesis by (simp add: open_channel_def)
next
  case (Some b)
  with assms show ?thesis
    by (cases "oe_rsp env"; cases "oe_err env")
      (auto simp: open_channel_def res_bind_eq_Inr split: if_splits dest: open_channel_with_rsp_Inr)
qed

text \<open>The invariant by the state of the session.\<close>

lemma client_inv_connecting:
  assumes "m_state (cs x) = S_CONNECTING"
  shows "client_inv x \<longleftrightarrow> (let s = cs x; st = cst x in m_conn_on_done_func_or_empty s \<noteq> None \<and>
    m_master_channel s \<noteq> None \<and> st \<noteq> Ch_err_emitted \<and>
    (st = Ch_ok \<longrightarrow> c_expect s = Expect_log_in_rsp \<or> (\<exists>n chans md. c_expect s = Expect_init_channels n chans md)) \<and>
    m_peer_state_err_code_or_ok s = None \<and> m_on_err_func s \<noteq> None \<and> fired s = [] \<and>
    length (done_calls s) + 1 = accepted x \<and> (\<forall>c \<in> set (done_calls s). snd c \<noteq> None) \<and>
    passive_calls s = [] \<and> m_srv_namespace s \<noteq> [] \<and> (c_expect s = Expect_log_in_rsp \<longrightarrow> m_cli_namespace s = []))"
  using assms by (simp add: client_inv_def Let_def cong: conj_cong)

lemma client_inv_null:
  assumes "m_state (cs x) = S_NULL"
  shows "client_inv x \<longleftrightarrow> (let s = cs x; st = cst x in m_conn_on_done_func_or_empty s = None \<and>
    (m_master_channel s = None \<or> st = Ch_err_emitted \<and> c_expect s = Expect_open_channel) \<and>
    m_peer_state_err_code_or_ok s = None \<and> m_on_err_func s \<noteq> None \<and> fired s = [] \<and>
    length (done_calls s) = accepted x \<and> (\<forall>c \<in> set (done_calls s). snd c \<noteq> None) \<and>
    passive_calls s = [] \<and> (c_expect s = Expect_log_in_rsp \<or> m_srv_namespace s = [] \<longrightarrow> m_cli_namespace s = []))"
  using assms by (simp add: client_inv_def Let_def cong: conj_cong)

lemma client_inv_peer:
  assumes "m_state (cs x) = S_PEER"
  shows "client_inv x \<longleftrightarrow> (let s = cs x; st = cst x in m_conn_on_done_func_or_empty s = None \<and>
    m_master_channel s \<noteq> None \<and> (m_peer_state_err_code_or_ok s \<noteq> None \<longleftrightarrow> st = Ch_err_emitted) \<and>
    c_expect s = Expect_open_channel \<and> m_on_err_func s \<noteq> None \<and>
    fired s = (case m_peer_state_err_code_or_ok s of None \<Rightarrow> [] | Some e \<Rightarrow> [(the (m_on_err_func s), e)]) \<and>
    length (done_calls s) = accepted x \<and> done_calls s \<noteq> [] \<and> snd (last (done_calls s)) = None \<and>
    (\<forall>c \<in> set (butlast (done_calls s)). snd c \<noteq> None) \<and> m_srv_namespace s \<noteq> [])"
  using assms by (cases "m_peer_state_err_code_or_ok (cs x)") (simp_all add: client_inv_def Let_def conj_ac cong: conj_cong)

lemmas client_inv_phases = client_inv_connecting client_inv_null client_inv_peer

lemma client_inv_init: "client_ini x \<Longrightarrow> client_inv x"
  by (auto simp: client_ini_def client_inv_def Client_session_impl_def Session_base_cli_def
      session_base.extend_def)

lemma client_inv_connect:
  assumes "client_inv x" "async_connect L cfg env user_hook mdt outs h (cs x) = Inr (b, s')"
    "m_master_channel (cs x) \<noteq> Some (env_new_channel env)"
    "if m_master_channel s' = m_master_channel (cs x) then st' = cst x else sending Ch_ok (env_request env) st'"
  shows "client_inv \<lparr> cs = s', cst = st', accepted = (if b then accepted x + 1 else accepted x) \<rparr>"
  using async_connect_cases [OF assms(2)]
proof (elim disjE, goal_cases)
  case 1
  then show ?case using assms(1,4)
    by (cases "m_state (cs x)") (auto simp: client_inv_def Let_def)
next
  case 2
  then show ?case using assms(1,4) by (fastforce simp: client_inv_def Let_def)
next
  case 3
  then show ?case using assms(1,3,4) by (fastforce simp: client_inv_def Let_def)
qed

lemma client_inv_error:
  assumes "client_inv x" "cst x = Ch_err_pending e"
    "on_master_channel_error cfg user_hook (m_master_channel (cs x)) e (cs x) = Inr s'"
  shows "client_inv (x\<lparr> cs := s', cst := Ch_err_emitted \<rparr>)"
proof (cases "m_state (cs x)")
  case S_NULL
  with assms show ?thesis
    by (auto simp: client_inv_null on_master_channel_error_def Let_def split: if_splits)
next
  case S_CONNECTING
  with assms show ?thesis
    by (auto simp: client_inv_phases on_master_channel_error_def Let_def)
next
  case S_PEER
  note inv = assms(1) [unfolded client_inv_peer [of x, OF S_PEER] Let_def]
  from inv assms(2) obtain f where p: "m_peer_state_err_code_or_ok (cs x) = None" "m_on_err_func (cs x) = Some f" by auto
  let ?t = "(cs x)\<lparr> m_peer_state_err_code_or_ok := Some e, fired := [(f, e)] \<rparr>"
  from inv assms(3) S_PEER p have "s' = ?t \<or> (\<exists>g. s' = ?t\<lparr> m_graceful_finisher := g \<rparr>)"
    by (auto simp: on_master_channel_error_def res_bind_eq_Inr hose_Inr split: if_splits option.splits)
  with inv S_PEER p show ?thesis by (auto simp: client_inv_peer Let_def)
qed

lemma client_inv_log_in_rsp:
  assumes "client_inv x" "m_master_channel (cs x) \<noteq> None" "c_expect (cs x) = Expect_log_in_rsp"
    "op_answer (cst x) ok st'" "on_master_channel_log_in_rsp L cfg user_hook ok m (cs x) = Inr s'"
  shows "client_inv (x\<lparr> cs := s', cst := st' \<rparr>)"
proof -
  note cases = log_in_rsp_cases [OF assms(5)]
  then have c: "m_state (cs x) = S_CONNECTING" by blast
  note inv = assms(1) [unfolded client_inv_connecting [of x, OF c] Let_def]
  from cases show ?thesis
    by (elim conjE disjE exE) (use inv c assms(2-4) in \<open>auto simp: client_inv_phases Let_def\<close>)
qed

lemma client_inv_init_channel:
  assumes "client_inv x" "m_master_channel (cs x) \<noteq> None"
    "c_expect (cs x) = Expect_init_channels n chans md"
    "op_answer (cst x) (ie_undo_ok env) st1" "op_answer st1 (ie_expect_ok env) st2" "sending st2 (ie_rsp env) st'"
    "if length chans + 1 = n then True else st' = cst x"
    "on_master_channel_init_open_channel cfg user_hook env m n chans md (cs x) = Inr s'"
  shows "client_inv (x\<lparr> cs := s', cst := st' \<rparr>)"
proof -
  from init_open_channel_cases [OF assms(8)] obtain a p ch where
    s: "m_state (cs x) = S_CONNECTING" and
    c: "length chans + 1 \<noteq> n \<and> s' = (cs x)\<lparr> m_last_actively_opened_channel_id := a,
          m_last_passively_opened_channel_id := p, c_expect := Expect_init_channels n (chans @ [ch]) md \<rparr> \<or>
        length chans + 1 = n \<and> complete_init_channels cfg user_hook env n (chans @ [ch]) md
         ((cs x)\<lparr> m_last_actively_opened_channel_id := a,
          m_last_passively_opened_channel_id := p, c_expect := Expect_init_channels n (chans @ [ch]) md \<rparr>) = Inr s'"
    by (auto simp: Let_def)
  note inv = assms(1) [unfolded client_inv_connecting [of x, OF s] Let_def]
  from c show ?thesis
  proof (elim disjE conjE, goal_cases)
    case 1
    with inv assms(7) s show ?case by (simp add: client_inv_connecting Let_def)
  next
    case 2
    from complete_init_channels_cases [OF this(2)] show ?case
      by (elim conjE disjE exE) (use inv s assms(4-6) in \<open>auto simp: client_inv_phases Let_def\<close>)
  qed
qed

lemma client_inv_hose:
  assumes "client_inv x" "m_state (cs x) = S_PEER" "hose e t = Inr s'"
    "t = (cs x)\<lparr> m_last_actively_opened_channel_id := a, m_last_passively_opened_channel_id := p \<rparr>"
  shows "client_inv (x\<lparr> cs := s', cst := Ch_err_emitted \<rparr>)"
proof -
  from assms(3) obtain h where "m_on_err_func t = Some h" "m_peer_state_err_code_or_ok t = None"
    "s' = t\<lparr> m_peer_state_err_code_or_ok := Some e, fired := fired t @ [(h, e)] \<rparr>"
    by (auto simp: hose_Inr)
  with assms(1,2,4) show ?thesis by (simp add: client_inv_def Let_def)
qed

lemma client_inv_ids:
  assumes "client_inv x"
  shows "client_inv (x\<lparr> cs := (cs x)\<lparr> m_last_actively_opened_channel_id := a, m_last_passively_opened_channel_id := p \<rparr> \<rparr>)"
  using assms by (cases "m_state (cs x)") (simp_all add: client_inv_def Let_def)

lemma client_inv_sent:
  assumes "client_inv x" "m_state (cs x) = S_PEER"
  shows "client_inv (x\<lparr> cs := (cs x)\<lparr> m_last_actively_opened_channel_id := a, m_last_passively_opened_channel_id := p,
    sent := ms, passive_calls := c \<rparr> \<rparr>)"
  using assms by (simp add: client_inv_def Let_def)

lemma client_inv_pending:
  assumes "client_inv x" "cst x = Ch_ok" "m_state (cs x) \<noteq> S_NULL"
  shows "client_inv (x\<lparr> cst := Ch_err_pending e \<rparr>)"
  using assms by (cases "m_state (cs x)") (simp_all add: client_inv_phases Let_def)

lemma client_inv_open_peer: "client_inv x \<Longrightarrow> c_expect (cs x) = Expect_open_channel \<Longrightarrow> cst x = Ch_ok \<Longrightarrow>
    m_master_channel (cs x) \<noteq> None \<Longrightarrow> m_state (cs x) = S_PEER"
  by (cases "m_state (cs x)") (auto simp: client_inv_def Let_def)

lemma client_inv_open_channel_req:
  assumes "client_inv x" "m_master_channel (cs x) \<noteq> None" "c_expect (cs x) = Expect_open_channel"
    "sending (cst x) (pe_rsp env) st'" "on_master_channel_open_channel_req cfg env m (cs x) = Inr s'"
  shows "client_inv (x\<lparr> cs := s', cst := st' \<rparr>)"
  using open_channel_req_cases [OF assms(5)]
proof (elim disjE conjE exE, goal_cases)
  case 1
  then have "m_state (cs x) = S_PEER" "cst x = Ch_err_emitted"
    using assms(1) by (auto simp: client_inv_def Let_def)
  with assms(4) have "st' = cst x" by simp
  with 1 show ?case using assms(1) by simp
next
  case (2 a p f ch md)
  let ?t = "(cs x)\<lparr> m_last_actively_opened_channel_id := a, m_last_passively_opened_channel_id := p \<rparr>"
  show ?case
  proof (cases "cst x = Ch_ok")
    case True
    note peer = client_inv_open_peer [OF assms(1,3) True assms(2)]
    from respond_passive_open_cases [OF 2(2)] show ?thesis
    proof (elim disjE conjE exE)
      assume "pe_rsp env = Refused" "s' = ?t"
      moreover obtain e where "st' = Ch_err_pending e"
        using assms(4) True \<open>pe_rsp env = Refused\<close> by auto
      ultimately show ?thesis
        using client_inv_pending [OF client_inv_ids [OF assms(1), where a = a and p = p], of e] True peer by simp
    next
      fix e assume "pe_rsp env = Sent_err e" "hose e ?t = Inr s'"
      then show ?thesis using client_inv_hose [OF assms(1) peer] assms(4) True by simp
    next
      fix m c assume "pe_rsp env = Sent_ok"
        "s' = ?t\<lparr> sent := sent ?t @ [m], passive_calls := passive_calls ?t @ c \<rparr>"
      then show ?thesis
        using client_inv_sent [OF assms(1) peer, where a = a and p = p and ms = "sent ?t @ [m]" and c = "passive_calls ?t @ c"] assms(4) True
        by (cases x) simp
    qed
  next
    case False
    with assms(4) have "pe_rsp env = Refused" "st' = cst x" by auto
    with respond_passive_open_cases [OF 2(2)] show ?thesis
      using client_inv_ids [OF assms(1), where a = a and p = p] by auto
  qed
qed

lemma client_inv_open_channel:
  assumes "client_inv x" "requesting (cst x) (oe_rsp env) (oe_err env) st'"
    "if m_state (cs x) = S_PEER \<and> mdt \<noteq> None then True else st' = cst x"
    "open_channel cfg env mdt err (cs x) = Inr (r, s')"
  shows "client_inv (x\<lparr> cs := s', cst := st' \<rparr>)"
  using open_channel_cases [OF assms(4)]
proof (elim disjE, goal_cases)
  case 1
  show ?case
  proof (cases "st' = cst x")
    case True
    with 1 assms(1) show ?thesis by simp
  next
    case False
    then have "cst x = Ch_ok" "m_state (cs x) = S_PEER" "mdt \<noteq> None"
      using assms(2,3) by (auto simp: requesting.simps split: if_splits)
    moreover from this 1 assms(1) have "oe_err env = None \<and> oe_rsp env = None \<or>
        oe_err env = Some (Transport_err T_TIMEOUT)"
      by (auto simp: client_inv_def Let_def)
    ultimately obtain e where "st' = Ch_err_pending e"
      using False assms(2) by (auto simp: requesting.simps)
    with 1 show ?thesis using client_inv_pending [OF assms(1) \<open>cst x = Ch_ok\<close>, of e] \<open>m_state (cs x) = S_PEER\<close>
      by simp
  qed
next
  case 2
  then obtain e where e: "hose e (cs x) = Inr s'" "oe_err env = Some e" "e \<noteq> Transport_err T_TIMEOUT"
    "m_state (cs x) = S_PEER" by blast
  with assms(2) have "st' = Ch_err_emitted" by (auto simp: requesting.simps)
  with e show ?case
    using client_inv_hose [OF assms(1) e(4,1), where a = "m_last_actively_opened_channel_id (cs x)"
        and p = "m_last_passively_opened_channel_id (cs x)"] by simp
next
  case 3
  then have "st' = cst x" using assms(2) by (auto simp: requesting.simps)
  with 3 show ?case using client_inv_ids [OF assms(1)] by auto
qed

interpretation client: invariant_system client_ini "client_step L cfg" client_inv for L cfg
proof (unfold_locales, goal_cases)
  case (1 s)
  then show ?case by (rule client_inv_init)
next
  case (2 s t)
  from 2(2) show ?case
  proof cases
    case connect
    show ?thesis unfolding connect(1) by (rule client_inv_connect [OF 2(1) connect(2-4)])
  next
    case (channel_fails e)
    with 2(1) show ?thesis by (cases "m_state (cs s)") (auto simp: client_inv_def Let_def)
  next
    case error
    with 2(1) show ?thesis by (auto intro: client_inv_error)
  next
    case log_in_rsp
    with 2(1) show ?thesis by (auto intro: client_inv_log_in_rsp)
  next
    case init_channel
    with 2(1) show ?thesis using client_inv_init_channel by blast
  next
    case open_channel_req
    with 2(1) show ?thesis using client_inv_open_channel_req by blast
  next
    case open_channel
    with 2(1) show ?thesis using client_inv_open_channel by blast
  qed
qed

end
