(* ===== verification/Client_Properties.thy ===== *)
theory Client_Properties
  imports Client_System
begin

text \<open>
  What the client session guarantees: the properties of its reachable states, the functional
  behaviour of connecting (request, response, init-channels), of opening channels actively and
  passively, and the places where an assertion can trip. The witnesses follow a concrete run.
\<close>

lemma invoke_some: "m_conn_on_done_func_or_empty s = Some f \<Longrightarrow>
  invoke_conn_on_done_func user_hook e s =
    Inr (s\<lparr> m_conn_on_done_func_or_empty := None, done_calls := done_calls s @ [(f, e)] \<rparr>)"
  by simp

section \<open>What the user sees of a client session\<close>

definition accepts_log_in_rsp :: "session_lib \<Rightarrow> connect_out \<Rightarrow> msg \<Rightarrow> bool" where
  "accepts_log_in_rsp L out m \<longleftrightarrow> (\<exists>r. body m = LogInRsp r \<and>
     compute_negotiated_proto_ver L (lr_max_proto_ver r) = None \<and>
     compute_negotiated_proto_ver L (lr_max_proto_ver_aux r) = None \<and>
     (lr_n_init_by_srv r = 0 \<or> out_by_srv out \<noteq> None) \<and>
     lr_cli_namespace r \<notin> {[], S_SENTINEL (lib_sn L)})"

text \<open>
  C21. The client's user-visible guarantees, in every reachable state: a connect call that was
  accepted gets its completion handler run exactly once (all but the one in progress, if any,
  have been run); a session is in PEER state exactly if one of these runs reported success,
  and that is the last one; the on-error handler has run at most once, and only in PEER state.
\<close>

theorem client_emits_once:
  assumes "reach client_ini (client_step L cfg) x"
  shows "length (done_calls (cs x)) + (if m_state (cs x) = S_CONNECTING then 1 else 0) = accepted x \<and>
    (m_state (cs x) = S_PEER \<longleftrightarrow> (\<exists>cs' h. done_calls (cs x) = cs' @ [(h, None)])) \<and>
    (\<forall>c \<in> set (butlast (done_calls (cs x))). snd c \<noteq> None) \<and>
    length (fired (cs x)) \<le> 1 \<and> (fired (cs x) \<noteq> [] \<longrightarrow> m_state (cs x) = S_PEER)"
proof -
  note inv = client.reach_inv [OF assms]
  have "done_calls (cs x) \<noteq> [] \<Longrightarrow> snd (last (done_calls (cs x))) = None \<Longrightarrow>
      \<exists>cs' h. done_calls (cs x) = cs' @ [(h, None)]"
    by (metis append_butlast_last_id prod.collapse)
  with inv show ?thesis
    by (cases "m_state (cs x)"; cases "m_peer_state_err_code_or_ok (cs x)")
      (auto simp: client_inv_def Let_def in_set_butlastD)
qed

text \<open>
  C24. A connecting client is never stuck: in every reachable state in which a connect is in
  progress, the master channel either waits for a message of the log-in exchange, or has an
  error on its way; when the error arrives, its handler returns (no assertion trips), the
  session is back in NULL state without a channel, and the completion handler has been run
  with that error.
\<close>

theorem client_connect_progress:
  assumes "reach client_ini (client_step L cfg) x" "m_state (cs x) = S_CONNECTING"
  shows "(cst x = Ch_ok \<and> c_expect (cs x) \<notin> {Expect_nothing, Expect_open_channel}) \<or>
    (\<exists>e h. cst x = Ch_err_pending e \<and> m_conn_on_done_func_or_empty (cs x) = Some h \<and>
      on_master_channel_error cfg user_hook (m_master_channel (cs x)) e (cs x) = Inr
        ((cs x)\<lparr> m_master_channel := None, c_expect := Expect_nothing, m_state := S_NULL,
           m_conn_on_done_func_or_empty := None, done_calls := done_calls (cs x) @ [(h, Some e)] \<rparr>))"
proof -
  have inv: "m_conn_on_done_func_or_empty (cs x) \<noteq> None" "m_master_channel (cs x) \<noteq> None"
    "cst x \<noteq> Ch_err_emitted" "cst x = Ch_ok \<Longrightarrow> c_expect (cs x) \<notin> {Expect_nothing, Expect_open_channel}"
    using client.reach_inv [OF assms(1)] assms(2) by (auto simp: client_inv_def Let_def)
  then obtain h c where h: "m_conn_on_done_func_or_empty (cs x) = Some h" "m_master_channel (cs x) = Some c"
    by blast
  show ?thesis
  proof (cases "cst x")
    case (Ch_err_pending e)
    have "on_master_channel_error cfg user_hook (m_master_channel (cs x)) e (cs x) = Inr
        ((cs x)\<lparr> m_master_channel := None, c_expect := Expect_nothing, m_state := S_NULL,
           m_conn_on_done_func_or_empty := None, done_calls := done_calls (cs x) @ [(h, Some e)] \<rparr>)"
      using h assms(2)
      by (simp add: on_master_channel_error_def Let_def invoke_some del: invoke_user)
    with Ch_err_pending h show ?thesis by blast
  qed (use inv in simp_all)
qed

text \<open>
  In PEER state an error of the master channel reaches the user: as long as the session
  is not hosed the handler of a pending channel error returns, having run the on-error
  handler once, with that error; a session that is hosed already stays as it is.
\<close>

theorem client_peer_error_reported:
  assumes "reach client_ini (client_step L cfg) x" "m_state (cs x) = S_PEER"
    "cst x = Ch_err_pending e" "\<not> S_GRACEFUL_FINISH_REQUIRED cfg"
  shows "\<exists>s' h. on_master_channel_error cfg user_hook (m_master_channel (cs x)) e (cs x) = Inr s' \<and>
    m_on_err_func (cs x) = Some h \<and> fired (cs x) = [] \<and> fired s' = [(h, e)] \<and>
    m_state s' = S_PEER \<and> hosed s' = Inr True"
  using client.reach_inv [OF assms(1)] assms(2-4)
  by (auto simp: client_inv_def Let_def on_master_channel_error_def hose_set)

lemma getline_line: "CHR 0x0A \<notin> set line \<Longrightarrow> getline (line @ CHR 0x0A # rest) = (line, True)"
  by (auto simp: getline_def takeWhile_tail)

lemma pid_namespace:
  assumes "srv_app_ok L app" "pid \<noteq> (0 :: process_id_t)"
  shows "int_to_string (sint pid) \<noteq> []" "int_to_string (sint pid) \<noteq> S_SENTINEL (lib_sn L)"
    "sn_piece (lib_sn L) (int_to_string (sint pid))"
proof -
  have "sint pid \<noteq> 0" using assms(2) by (metis signed_0 word_eq_iff_signed)
  with assms(1) show "int_to_string (sint pid) \<noteq> []" "int_to_string (sint pid) \<noteq> S_SENTINEL (lib_sn L)"
    "sn_piece (lib_sn L) (int_to_string (sint pid))"
    by (simp_all add: srv_app_ok_def sn_sentinel sn_piece_int_to_string)
qed

lemma async_connect_log_in:
  assumes app: "srv_app_ok L (m_srv_app_ref s)"
    and s: "m_state s = S_NULL" "m_master_channel s = None" "m_srv_namespace s = []"
    and mutex: "\<forall>n. env_mutex env n = None"
    and cns: "env_file env (cur_ns_store_absolute_path L (m_srv_app_ref s)) = Inr (line @ CHR 0x0A # rest)"
    and line: "CHR 0x0A \<notin> set line" "lexical_cast_pid L line = Some pid" "pid \<noteq> 0"
    and conn: "env_sock_connect env (acceptor_name L (m_srv_app_ref s) (int_to_string (sint pid))) = None"
      "env_remote_creds env = None" "env_request env = Sent_ok"
  shows "async_connect L cfg env hook (Some \<lparr> mb_kind = For_log_in, mb_mdt = md \<rparr>) outs h s = Inr (True,
    s\<lparr> m_srv_namespace := int_to_string (sint pid), m_state := S_CONNECTING,
       m_conn_on_done_func_or_empty := Some h, m_master_channel := Some (env_new_channel env),
       c_expect := Expect_log_in_rsp, c_out := outs,
       sent := sent s @ [fill_log_in_req cfg env md (s\<lparr> c_out := outs \<rparr>)] \<rparr>)"
proof -
  let ?ns = "int_to_string (sint pid)"
  let ?s = "s\<lparr> m_state := S_CONNECTING, m_conn_on_done_func_or_empty := Some h, c_out := outs \<rparr>"
  note ns = pid_namespace [OF app line(3)]
  have acc: "session_master_socket_stream_acceptor_absolute_name L (?s\<lparr> m_srv_namespace := ?ns \<rparr>) =
      Inr (acceptor_name L (m_srv_app_ref s) ?ns)"
    using acceptor_name_form [of L "?s\<lparr> m_srv_namespace := ?ns \<rparr>"] app ns by simp
  have "connect_to_namespace L cfg env hook md line ?s =
      start_log_in cfg env hook md (?s\<lparr> m_srv_namespace := ?ns \<rparr>)"
    using line s ns acc conn by (simp add: connect_to_namespace_def set_srv_namespace_def)
  moreover have "read_cns env n (cur_ns_store_absolute_path L (m_srv_app_ref s)) = Inr line" for n
    using mutex cns line by (simp add: read_cns_def getline_line)
  ultimately have "async_connect L cfg env hook (Some \<lparr> mb_kind = For_log_in, mb_mdt = md \<rparr>) outs h s =
      start_log_in cfg env hook md (?s\<lparr> m_srv_namespace := ?ns \<rparr>)"
    using s mutex_name_form [OF app] by (simp add: async_connect_def Let_def)
  also have "\<dots> = Inr (True,
    s\<lparr> m_srv_namespace := ?ns, m_state := S_CONNECTING,
       m_conn_on_done_func_or_empty := Some h, m_master_channel := Some (env_new_channel env),
       c_expect := Expect_log_in_rsp, c_out := outs,
       sent := sent s @ [fill_log_in_req cfg env md (s\<lparr> c_out := outs \<rparr>)] \<rparr>)"
    using conn s by (simp add: start_log_in_def Let_def fill_log_in_req_def cli_app_ptr_def)
  finally show ?thesis .
qed

text \<open>
  What a first connect does when the environment cooperates: it reads the process ID in
  the first line of the namespace store, whatever follows that line, makes it the server
  namespace, connects to the acceptor of exactly that process, and has sent the log-in request
  when it returns.
\<close>

theorem connect_reaches_log_in:
  assumes app: "srv_app_ok L (m_srv_app_ref s)"
    and s: "m_state s = S_NULL" "m_master_channel s = None" "m_srv_namespace s = []"
    and mutex: "\<forall>n. env_mutex env n = None"
    and cns: "env_file env (cur_ns_store_absolute_path L (m_srv_app_ref s)) = Inr (line @ CHR 0x0A # rest)"
    and line: "CHR 0x0A \<notin> set line" "lexical_cast_pid L line = Some pid" "pid \<noteq> 0"
    and conn: "env_sock_connect env (acceptor_name L (m_srv_app_ref s) (int_to_string (sint pid))) = None"
      "env_remote_creds env = None" "env_request env = Sent_ok"
  shows "async_connect L cfg env hook (Some \<lparr> mb_kind = For_log_in, mb_mdt = md \<rparr>) outs h s = Inr (True,
    s\<lparr> m_srv_namespace := int_to_string (sint pid), m_state := S_CONNECTING,
       m_conn_on_done_func_or_empty := Some h, m_master_channel := Some (env_new_channel env),
       c_expect := Expect_log_in_rsp, c_out := outs,
       sent := sent s @ [fill_log_in_req cfg env md (s\<lparr> c_out := outs \<rparr>)] \<rparr>)"
  by (rule async_connect_log_in [OF assms])

section \<open>The log-in response\<close>

definition log_in_out :: "connect_out \<Rightarrow> mdt option \<Rightarrow> connect_out" where
  "log_in_out out md = out\<lparr> out_by_srv := map_option (\<lambda>_. []) (out_by_srv out),
     out_mdt := map_option (\<lambda>_. md) (out_mdt out) \<rparr>"

lemma log_in_finish_eq:
  assumes "out_by_cli (c_out s) = None \<or> out_by_cli (c_out s) = Some []"
    "(out_mdt (c_out s) \<noteq> None) = (md \<noteq> None)"
  shows "log_in_finish cfg hook ok md s =
    (let s = s\<lparr> c_out := log_in_out (c_out s) md \<rparr> in
     if \<not> ok then Inr s
     else res_bind (invoke_conn_on_done_func hook None (s\<lparr> c_expect := Expect_open_channel, m_state := S_PEER \<rparr>))
       (after_peer cfg))"
  using assms
  by (cases s; cases "c_out s"; cases "out_by_srv (c_out s)"; cases "out_mdt (c_out s)")
    (auto simp: log_in_finish_def log_in_out_def Let_def)

text \<open>The applications and the server's namespace, which the session keeps.\<close>

definition same_base :: "client_session \<Rightarrow> client_session \<Rightarrow> bool" where
  "same_base s s' \<longleftrightarrow> m_cli_app_ptr s' = m_cli_app_ptr s \<and> m_srv_app_ref s' = m_srv_app_ref s \<and>
     m_srv_namespace s' = m_srv_namespace s"

lemma log_in_finish_base: "log_in_finish cfg user_hook alive md s = Inr s' \<Longrightarrow> same_base s s'"
  by (auto simp: log_in_finish_def Let_def ensure_def after_peer_def same_base_def res_bind_def
      split: if_splits option.splits sum.splits)

lemma on_log_in_rsp_base:
  assumes "on_master_channel_log_in_rsp L cfg user_hook alive m s = Inr s'"
  shows "same_base s s'"
  using assms
  by (auto simp: on_master_channel_log_in_rsp_def check_log_in_rsp_def set_cli_namespace_def ensure_def res_bind_def Let_def
      same_base_def split: if_splits option.splits sum.splits prod.splits msg_body.splits dest!: log_in_finish_base)

lemma on_log_in_rsp:
  assumes s: "m_state s = S_CONNECTING" "m_conn_on_done_func_or_empty s = Some h" "m_cli_namespace s = []"
    and cfg: "\<not> S_GRACEFUL_FINISH_REQUIRED cfg"
    and size: "\<And>r. body m = LogInRsp r \<Longrightarrow> unat (lr_n_init_by_srv r) + n_by_cli s < 2 ^ 64"
  shows "\<exists>s'. on_master_channel_log_in_rsp L cfg user_hook True m s = Inr s' \<and>
    (if accepts_log_in_rsp L (c_out s) m
     then \<exists>r. body m = LogInRsp r \<and> m_cli_namespace s' = lr_cli_namespace r \<and>
       m_master_channel s' = m_master_channel s \<and>
       (if lr_n_init_by_srv r = 0 \<and> n_by_cli s = 0
        then m_state s' = S_PEER \<and> c_expect s' = Expect_open_channel \<and>
             done_calls s' = done_calls s @ [(h, None)] \<and>
             c_out s' = log_in_out (c_out s) (if out_mdt (c_out s) = None then None else Some (lr_mdt r))
        else m_state s' = S_CONNECTING \<and> c_out s' = c_out s \<and> done_calls s' = done_calls s \<and>
             m_conn_on_done_func_or_empty s' = Some h \<and>
             c_expect s' = Expect_init_channels (unat (lr_n_init_by_srv r) + n_by_cli s) []
               (if out_mdt (c_out s) = None then None else Some (lr_mdt r)))
     else m_state s' = S_NULL \<and> m_master_channel s' = None \<and> c_out s' = c_out s \<and>
       (\<exists>e. done_calls s' = done_calls s @ [(h, Some e)]))"
proof (cases "accepts_log_in_rsp L (c_out s) m")
  case False
  let ?s = "s\<lparr> c_expect := Expect_nothing \<rparr>"
  have "\<exists>e. check_log_in_rsp L m ?s = Inr (?s, Inl e)"
    using False by (cases "body m") (auto simp: accepts_log_in_rsp_def check_log_in_rsp_def split: option.split)
  then obtain e where "check_log_in_rsp L m ?s = Inr (?s, Inl e)" by blast
  with False s show ?thesis by (simp add: on_master_channel_log_in_rsp_def invoke_some del: invoke_user)
next
  case True
  then obtain r where r: "body m = LogInRsp r"
    "compute_negotiated_proto_ver L (lr_max_proto_ver r) = None"
    "compute_negotiated_proto_ver L (lr_max_proto_ver_aux r) = None"
    "lr_n_init_by_srv r = 0 \<or> out_by_srv (c_out s) \<noteq> None"
    "lr_cli_namespace r \<noteq> []" "lr_cli_namespace r \<noteq> S_SENTINEL (lib_sn L)"
    by (auto simp: accepts_log_in_rsp_def)
  let ?n = "unat (lr_n_init_by_srv r) + n_by_cli s"
  let ?md = "if out_mdt (c_out s) = None then None else Some (lr_mdt r)"
  let ?s1 = "s\<lparr> c_expect := Expect_nothing, m_cli_namespace := lr_cli_namespace r \<rparr>"
  have n: "unat (lr_n_init_by_srv r + word_of_nat (n_by_cli s)) = ?n"
    using size [OF r(1)] by (simp add: unat_word_ariths unat_of_nat take_bit_eq_mod)
  have nc: "n_by_cli (s\<lparr> c_expect := Expect_nothing, m_cli_namespace := x \<rparr>) = n_by_cli s" for x
    by (simp add: n_by_cli_def)
  have "check_log_in_rsp L m (s\<lparr> c_expect := Expect_nothing \<rparr>) = Inr (?s1, Inr (?n, ?md))"
    using r s n nc by (auto simp: check_log_in_rsp_def set_cli_namespace_def)
  then have h: "on_master_channel_log_in_rsp L cfg user_hook True m s =
      (if ?n = 0 then log_in_finish cfg user_hook True ?md ?s1
       else Inr (?s1\<lparr> c_expect := Expect_init_channels ?n [] ?md \<rparr>))"
    using s by (simp add: on_master_channel_log_in_rsp_def)
  show ?thesis
  proof (cases "?n = 0")
    case False
    then have "\<not> (lr_n_init_by_srv r = 0 \<and> n_by_cli s = 0)" by auto
    moreover have "on_master_channel_log_in_rsp L cfg user_hook True m s =
        Inr (?s1\<lparr> c_expect := Expect_init_channels ?n [] ?md \<rparr>)"
      unfolding h by (rule if_not_P [OF False])
    ultimately show ?thesis using r(1) s True by simp
  next
    case 0: True
    then have z: "lr_n_init_by_srv r = 0" "n_by_cli s = 0" by (auto simp: unat_eq_0)
    then have "out_by_cli (c_out s) = None \<or> out_by_cli (c_out s) = Some []"
      by (cases "out_by_cli (c_out s)") (simp_all add: n_by_cli_def)
    then obtain s' where s': "log_in_finish cfg user_hook True ?md ?s1 = Inr s'"
      "m_state s' = S_PEER" "c_expect s' = Expect_open_channel" "done_calls s' = done_calls s @ [(h, None)]"
      "m_cli_namespace s' = lr_cli_namespace r" "m_master_channel s' = m_master_channel s"
      "c_out s' = log_in_out (c_out s) ?md"
      using s cfg by (simp add: log_in_finish_eq Let_def after_peer_def invoke_some del: invoke_user)
    moreover have "on_master_channel_log_in_rsp L cfg user_hook True m s =
        log_in_finish cfg user_hook True ?md ?s1"
      unfolding h by (rule if_P [OF 0])
    ultimately show ?thesis using z r(1) True by simp
  qed
qed

text \<open>
  The log-in response decides the connect. While the channel works, an unacceptable response
  (wrong kind, protocol mismatch, unannounced init-channels, illegal namespace) ends the
  attempt: NULL state, no channel, the completion handler run with an error, and the user's
  out-arguments untouched. An acceptable one is saved, and the session is in PEER state with the
  handler run if no init-channels are expected, or else waits for as many as both sides
  announced.
\<close>

theorem log_in_rsp_outcome:
  assumes s: "m_state s = S_CONNECTING" "m_conn_on_done_func_or_empty s = Some h" "m_cli_namespace s = []"
    and cfg: "\<not> S_GRACEFUL_FINISH_REQUIRED cfg"
    and size: "\<And>r. body m = LogInRsp r \<Longrightarrow> unat (lr_n_init_by_srv r) + n_by_cli s < 2 ^ 64"
  shows "\<exists>s'. on_master_channel_log_in_rsp L cfg user_hook True m s = Inr s' \<and>
    (if accepts_log_in_rsp L (c_out s) m
     then \<exists>r. body m = LogInRsp r \<and> m_cli_namespace s' = lr_cli_namespace r \<and>
       m_master_channel s' = m_master_channel s \<and>
       (if lr_n_init_by_srv r = 0 \<and> n_by_cli s = 0
        then m_state s' = S_PEER \<and> c_expect s' = Expect_open_channel \<and>
             done_calls s' = done_calls s @ [(h, None)] \<and>
             c_out s' = log_in_out (c_out s) (if out_mdt (c_out s) = None then None else Some (lr_mdt r))
        else m_state s' = S_CONNECTING \<and> c_out s' = c_out s \<and> done_calls s' = done_calls s \<and>
             m_conn_on_done_func_or_empty s' = Some h \<and>
             c_expect s' = Expect_init_channels (unat (lr_n_init_by_srv r) + n_by_cli s) []
               (if out_mdt (c_out s) = None then None else Some (lr_mdt r)))
     else m_state s' = S_NULL \<and> m_master_channel s' = None \<and> c_out s' = c_out s \<and>
       (\<exists>e. done_calls s' = done_calls s @ [(h, Some e)]))"
  by (rule on_log_in_rsp [OF assms])

text \<open>
  The out-arguments are not left alone when a connect fails after all: with an acceptable
  response and no init-channels they are written before the channel is asked for the next kind
  of message; if the channel has just been hosed it refuses, and when its error arrives the
  connect fails, with the server's metadata and an emptied container already handed out.
\<close>

theorem failed_connect_touches_out_args:
  assumes s: "m_state s = S_CONNECTING" "m_conn_on_done_func_or_empty s = Some h" "m_cli_namespace s = []"
      "m_master_channel s \<noteq> None"
    and acc: "accepts_log_in_rsp L (c_out s) m" "body m = LogInRsp r"
    and n: "lr_n_init_by_srv r = 0" "n_by_cli s = 0"
    and out: "c_out s = \<lparr> out_by_cli = oc, out_mdt = Some None, out_by_srv = Some chs \<rparr>"
  shows "\<exists>s' s''. on_master_channel_log_in_rsp L cfg user_hook False m s = Inr s' \<and>
    on_master_channel_error cfg user_hook (m_master_channel s') e s' = Inr s'' \<and>
    m_state s'' = S_NULL \<and> done_calls s'' = done_calls s @ [(h, Some e)] \<and>
    c_out s'' = \<lparr> out_by_cli = oc, out_mdt = Some (Some (lr_mdt r)), out_by_srv = Some [] \<rparr>"
proof -
  let ?md = "Some (lr_mdt r)"
  let ?s1 = "s\<lparr> c_expect := Expect_nothing, m_cli_namespace := lr_cli_namespace r \<rparr>"
  have nc: "n_by_cli (s\<lparr> c_expect := Expect_nothing, m_cli_namespace := x \<rparr>) = n_by_cli s" for x
    by (simp add: n_by_cli_def)
  have "check_log_in_rsp L m (s\<lparr> c_expect := Expect_nothing \<rparr>) = Inr (?s1, Inr (0, ?md))"
    using acc s n nc out by (auto simp: check_log_in_rsp_def set_cli_namespace_def accepts_log_in_rsp_def)
  then have h: "on_master_channel_log_in_rsp L cfg user_hook False m s =
      log_in_finish cfg user_hook False ?md ?s1"
    using s by (simp add: on_master_channel_log_in_rsp_def)
  have "out_by_cli (c_out s) = None \<or> out_by_cli (c_out s) = Some []"
    using n(2) by (cases "out_by_cli (c_out s)") (simp_all add: n_by_cli_def)
  then have "log_in_finish cfg user_hook False ?md ?s1 = Inr (?s1\<lparr> c_out := log_in_out (c_out s) ?md \<rparr>)"
    using out by (simp add: log_in_finish_eq)
  with h s out show ?thesis
    by (auto simp: on_master_channel_error_def log_in_out_def invoke_some simp del: invoke_user)
qed

section \<open>The init-channels\<close>

text \<open>The messages of the init-channels handled one after the other.\<close>

fun deliver_init_channels ::
    "session_cfg \<Rightarrow> (init_env \<times> msg) list \<Rightarrow> client_session \<Rightarrow> client_session res" where
  "deliver_init_channels cfg [] s = Inr s"
| "deliver_init_channels cfg ((env, m) # ms) s = (case c_expect s of
     Expect_init_channels n chans md \<Rightarrow>
       res_bind (on_master_channel_init_open_channel cfg user_hook env m n chans md s)
         (deliver_init_channels cfg ms)
   | _ \<Rightarrow> Inr s)"

text \<open>A message that fits the configuration, and the channel that is made from it.\<close>

definition good_channel_msg :: "session_cfg \<Rightarrow> msg \<Rightarrow> bool" where
  "good_channel_msg cfg m \<longleftrightarrow> (\<exists>r. body m = OpenChannelToClientReq r \<and>
     (native_handle_or_null m \<noteq> None \<longleftrightarrow> S_SOCKET_STREAM_ENABLED cfg) \<and>
     (oc_mq_c2s_or_empty r \<noteq> [] \<longleftrightarrow> S_MQS_ENABLED cfg))"

definition channel_env_ok :: "channel_env \<Rightarrow> bool" where
  "channel_env_ok env \<longleftrightarrow> ce_open_c2s env = None \<and> ce_open_s2c env = None \<and> ce_channel env = None"

definition passive_channel :: "session_cfg \<Rightarrow> 32 word \<Rightarrow> msg \<Rightarrow> channel_obj" where
  "passive_channel cfg n m = Channel (''passive'' @ to_string (unat n)) (Channel_obj cfg)
     (if S_MQS_ENABLED cfg then (case body m of
        OpenChannelToClientReq r \<Rightarrow> Some (oc_mq_c2s_or_empty r, oc_mq_s2c_or_empty r) | _ \<Rightarrow> None)
      else None)
     (native_handle_or_null m)"

fun passive_channels :: "session_cfg \<Rightarrow> 32 word \<Rightarrow> msg list \<Rightarrow> channel_obj list" where
  "passive_channels cfg n [] = []"
| "passive_channels cfg n (m # ms) = passive_channel cfg (n + 1) m # passive_channels cfg (n + 1) ms"

lemma length_passive_channels [simp]: "length (passive_channels cfg n ms) = length ms"
  by (induction cfg n ms rule: passive_channels.induct) simp_all

lemma create_passive_channel:
  assumes "body m = OpenChannelToClientReq r" "good_channel_msg cfg m" "channel_env_ok env"
  shows "create_channel_obj cfg env (oc_mq_c2s_or_empty r) (oc_mq_s2c_or_empty r) (native_handle_or_null m) False s =
    Inr (s\<lparr> m_last_passively_opened_channel_id := m_last_passively_opened_channel_id s + 1 \<rparr>,
      passive_channel cfg (m_last_passively_opened_channel_id s + 1) m, None)"
  using assms
  by (auto simp: create_channel_obj_def channel_nickname_def passive_channel_def good_channel_msg_def
      channel_env_ok_def Let_def)

definition init_out :: "connect_out \<Rightarrow> nat \<Rightarrow> channel_obj list \<Rightarrow> mdt option \<Rightarrow> connect_out" where
  "init_out out k chans md = \<lparr> out_by_cli = map_option (\<lambda>_. take k chans) (out_by_cli out),
     out_mdt = map_option (\<lambda>_. md) (out_mdt out),
     out_by_srv = map_option (\<lambda>_. drop k chans) (out_by_srv out) \<rparr>"

lemma emit_init_channels_eq:
  assumes "length chans = n" "n_by_cli s \<le> n" "out_by_srv (c_out s) \<noteq> None \<or> n_by_cli s = n"
    "(out_mdt (c_out s) \<noteq> None) = (md \<noteq> None)"
  shows "emit_init_channels n chans md s = Inr (s\<lparr> c_out := init_out (c_out s) (n_by_cli s) chans md \<rparr>)"
  using assms
  by (cases s; cases "c_out s"; cases "out_by_srv (c_out s)"; cases "out_by_cli (c_out s)"; cases "out_mdt (c_out s)")
    (auto simp: emit_init_channels_def init_out_def Let_def)

definition client_init_ready :: "nat \<Rightarrow> channel_obj list \<Rightarrow> mdt option \<Rightarrow> client_session \<Rightarrow> bool" where
  "client_init_ready n chans md s \<longleftrightarrow> m_state s = S_CONNECTING \<and> m_conn_on_done_func_or_empty s \<noteq> None \<and>
     c_expect s = Expect_init_channels n chans md \<and> n_by_cli s \<le> n \<and>
     (out_by_srv (c_out s) \<noteq> None \<or> n_by_cli s = n) \<and> (out_mdt (c_out s) \<noteq> None) = (md \<noteq> None)"

lemma init_channel_more:
  assumes "client_init_ready n chans md s" "good_channel_msg cfg m" "channel_env_ok (ie_channel env)"
    "length chans + 1 < n"
  shows "on_master_channel_init_open_channel cfg hook env m n chans md s = Inr
    (s\<lparr> m_last_passively_opened_channel_id := m_last_passively_opened_channel_id s + 1,
       c_expect := Expect_init_channels n
         (chans @ [passive_channel cfg (m_last_passively_opened_channel_id s + 1) m]) md \<rparr>)"
proof -
  obtain r where r: "body m = OpenChannelToClientReq r" using assms(2) by (auto simp: good_channel_msg_def)
  show ?thesis
    using assms(1,4) r create_passive_channel [OF r assms(2,3), of s]
    by (simp add: on_master_channel_init_open_channel_def client_init_ready_def getOpenChannelToClientReq_def Let_def)
qed

lemma init_channel_last:
  assumes "client_init_ready n chans md s" "good_channel_msg cfg m" "channel_env_ok (ie_channel env)"
    "length chans + 1 = n" "ie_undo_ok env" "ie_expect_ok env" "ie_rsp env = Sent_ok"
    "\<not> S_GRACEFUL_FINISH_REQUIRED cfg" "m_conn_on_done_func_or_empty s = Some h"
  shows "on_master_channel_init_open_channel cfg user_hook env m n chans md s = Inr
    (s\<lparr> m_last_passively_opened_channel_id := m_last_passively_opened_channel_id s + 1,
       c_expect := Expect_open_channel,
       sent := sent s @ [open_channel_rsp_to_srv ACCEPTED],
       c_out := init_out (c_out s) (n_by_cli s)
         (chans @ [passive_channel cfg (m_last_passively_opened_channel_id s + 1) m]) md,
       m_state := S_PEER, m_conn_on_done_func_or_empty := None,
       done_calls := done_calls s @ [(h, None)] \<rparr>)"
proof -
  obtain r where r: "body m = OpenChannelToClientReq r" using assms(2) by (auto simp: good_channel_msg_def)
  let ?c = "chans @ [passive_channel cfg (m_last_passively_opened_channel_id s + 1) m]"
  let ?t = "s\<lparr> m_last_passively_opened_channel_id := m_last_passively_opened_channel_id s + 1,
    c_expect := Expect_open_channel, sent := sent s @ [open_channel_rsp_to_srv ACCEPTED] \<rparr>"
  have k: "n_by_cli ?t = n_by_cli s" by (simp add: n_by_cli_def)
  have "emit_init_channels n ?c md ?t = Inr (?t\<lparr> c_out := init_out (c_out s) (n_by_cli s) ?c md \<rparr>)"
    using emit_init_channels_eq [of ?c n ?t md] assms(1,4) by (simp add: k client_init_ready_def)
  then show ?thesis
    using assms(1,4-9) r create_passive_channel [OF r assms(2,3), of s]
    by (simp add: on_master_channel_init_open_channel_def client_init_ready_def getOpenChannelToClientReq_def Let_def
        complete_init_channels_def invoke_some after_peer_def del: invoke_user)
qed
lemma deliver_init_channels_ok:
  assumes "client_init_ready n chans md s" "ms \<noteq> []" "length chans + length ms = n"
    "\<forall>(env, m) \<in> set ms. good_channel_msg cfg m \<and> channel_env_ok (ie_channel env)"
    "ie_undo_ok (fst (last ms))" "ie_expect_ok (fst (last ms))" "ie_rsp (fst (last ms)) = Sent_ok"
    "\<not> S_GRACEFUL_FINISH_REQUIRED cfg" "m_conn_on_done_func_or_empty s = Some h"
  shows "deliver_init_channels cfg ms s = Inr
    (s\<lparr> m_last_passively_opened_channel_id := m_last_passively_opened_channel_id s + word_of_nat (length ms),
       c_expect := Expect_open_channel,
       sent := sent s @ [open_channel_rsp_to_srv ACCEPTED],
       c_out := init_out (c_out s) (n_by_cli s)
         (chans @ passive_channels cfg (m_last_passively_opened_channel_id s) (map snd ms)) md,
       m_state := S_PEER, m_conn_on_done_func_or_empty := None,
       done_calls := done_calls s @ [(h, None)] \<rparr>)"
  using assms
proof (induction ms arbitrary: s chans)
  case (Cons em ms)
  obtain env m where em: "em = (env, m)" by (cases em)
  have ready: "c_expect s = Expect_init_channels n chans md"
    using Cons.prems(1) by (simp add: client_init_ready_def)
  show ?case
  proof (cases "ms = []")
    case True
    with Cons.prems em ready init_channel_last [of n chans md s cfg m env h] show ?thesis by simp
  next
    case False
    let ?ch = "passive_channel cfg (m_last_passively_opened_channel_id s + 1) m"
    let ?t = "s\<lparr> m_last_passively_opened_channel_id := m_last_passively_opened_channel_id s + 1,
       c_expect := Expect_init_channels n (chans @ [?ch]) md \<rparr>"
    have k: "n_by_cli ?t = n_by_cli s" by (simp add: n_by_cli_def)
    have len: "length chans + 1 < n" using False Cons.prems(3) by (cases ms) simp_all
    have "on_master_channel_init_open_channel cfg user_hook env m n chans md s = Inr ?t"
      using init_channel_more [OF Cons.prems(1), of cfg m env user_hook] Cons.prems(4) em len by simp
    moreover have "deliver_init_channels cfg ms ?t = Inr
      (?t\<lparr> m_last_passively_opened_channel_id := m_last_passively_opened_channel_id ?t + word_of_nat (length ms),
         c_expect := Expect_open_channel, sent := sent ?t @ [open_channel_rsp_to_srv ACCEPTED],
         c_out := init_out (c_out ?t) (n_by_cli ?t)
           ((chans @ [?ch]) @ passive_channels cfg (m_last_passively_opened_channel_id ?t) (map snd ms)) md,
         m_state := S_PEER, m_conn_on_done_func_or_empty := None,
         done_calls := done_calls ?t @ [(h, None)] \<rparr>)"
      using False Cons.prems k by (intro Cons.IH) (auto simp: client_init_ready_def)
    ultimately show ?thesis using em ready k by (simp add: algebra_simps)
  qed
qed simp

text \<open>
  C26. The init-channels: when the expected messages have come in, each fitting the
  configuration, the session has built one channel per message, in order; it has answered the
  last message; the first channels fill the client's pre-sized container, all the others are in
  the container for the server's; the metadata is handed over, and the connect has succeeded.
\<close>

theorem init_channels_distributed:
  assumes "m_state s = S_CONNECTING" "m_conn_on_done_func_or_empty s = Some h"
    "c_expect s = Expect_init_channels (n_srv + length by_cli) [] (Some md)"
    "c_out s = \<lparr> out_by_cli = Some by_cli, out_mdt = Some om, out_by_srv = Some by_srv \<rparr>"
    "\<not> S_GRACEFUL_FINISH_REQUIRED cfg"
    and ms: "length ms = n_srv + length by_cli" "ms \<noteq> []"
      "\<forall>(env, m) \<in> set ms. good_channel_msg cfg m \<and> channel_env_ok (ie_channel env)"
      "ie_undo_ok (fst (last ms))" "ie_expect_ok (fst (last ms))" "ie_rsp (fst (last ms)) = Sent_ok"
  shows "\<exists>s' chans. deliver_init_channels cfg ms s = Inr s' \<and>
    chans = passive_channels cfg (m_last_passively_opened_channel_id s) (map snd ms) \<and>
    m_state s' = S_PEER \<and> done_calls s' = done_calls s @ [(h, None)] \<and>
    sent s' = sent s @ [open_channel_rsp_to_srv ACCEPTED] \<and>
    c_out s' = \<lparr> out_by_cli = Some (take (length by_cli) chans), out_mdt = Some (Some md),
      out_by_srv = Some (drop (length by_cli) chans) \<rparr> \<and>
    length (the (out_by_cli (c_out s'))) = length by_cli \<and> length (the (out_by_srv (c_out s'))) = n_srv"
proof -
  have "client_init_ready (n_srv + length by_cli) [] (Some md) s" "n_by_cli s = length by_cli"
    using assms by (simp_all add: client_init_ready_def n_by_cli_def)
  with deliver_init_channels_ok [OF this(1) ms(2) _ ms(3-6) assms(5,2)] ms(1) assms(4)
  show ?thesis by (simp add: init_out_def)
qed

section \<open>Opening channels\<close>

text \<open>With the response of the server: a refusal is reported as such, an acceptance that fits gives the channel.\<close>

lemma cli_open_with_rsp:
  "case body m of
     OpenChannelToServerRsp q \<Rightarrow> (case os_result q of
       REJECTED_PASSIVE_OPEN \<Rightarrow> open_channel_with_rsp cfg env m s =
         Inr ((True, Some (Session_err S_SESSION_OPEN_CHANNEL_REMOTE_PEER_REJECTED_PASSIVE_OPEN), None), s)
     | REJECTED_RESOURCE_UNAVAILABLE \<Rightarrow> open_channel_with_rsp cfg env m s =
         Inr ((True, Some (Session_err S_SESSION_OPEN_CHANNEL_SERVER_CANNOT_PROCEED_RESOURCE_UNAVAILABLE), None), s)
     | OPEN_END_SENTINEL \<Rightarrow> \<not> returns (open_channel_with_rsp cfg env m s)
     | ACCEPTED \<Rightarrow>
         if (native_handle_or_null m \<noteq> None \<longleftrightarrow> S_SOCKET_STREAM_ENABLED cfg) \<and>
            (os_mq_c2s_or_empty q \<noteq> [] \<longleftrightarrow> S_MQS_ENABLED cfg) \<and> (S_MQS_ENABLED cfg \<longrightarrow> channel_env_ok env)
         then open_channel_with_rsp cfg env m s = Inr ((True, None,
             Some (Channel (''active'' @ to_string (unat (m_last_actively_opened_channel_id s + 1))) (Channel_obj cfg)
               (if S_MQS_ENABLED cfg then Some (os_mq_c2s_or_empty q, os_mq_s2c_or_empty q) else None) (native_handle_or_null m))),
           s\<lparr> m_last_actively_opened_channel_id := m_last_actively_opened_channel_id s + 1 \<rparr>)
         else \<not> returns (open_channel_with_rsp cfg env m s))
   | _ \<Rightarrow> \<not> returns (open_channel_with_rsp cfg env m s)"
proof (cases "body m")
  case (OpenChannelToServerRsp q)
  then show ?thesis
    by (cases "os_result q"; cases "ce_open_s2c env")
      (auto simp: open_channel_with_rsp_def getOpenChannelToServerRsp_def rejection_def make_error_code_def
        create_channel_obj_def channel_nickname_def channel_env_ok_def ensure_def Let_def)
qed (simp_all add: open_channel_with_rsp_def getOpenChannelToServerRsp_def)

text \<open>
  C27. What \<^verbatim>\<open>open_channel()\<close> does in PEER state with a request of its own, for every answer the channel can give: on a
  hosed session, or when the request is refused because an error is being reported already, it
  returns \<^verbatim>\<open>false\<close> and changes nothing. A timeout is returned with its own non-fatal code, and so is each of the two
  refusals by the server: that it accepts no passive opens, and that it lacks the resources. Any other error of the channel
  hoses the session, calls the on-error handler with it and returns \<^verbatim>\<open>false\<close>. An acceptance whose handle and client-to-server queue name
  are there exactly if configured yields the channel made of them, under the next nickname, with \<^verbatim>\<open>true\<close> and no error code. Every
  other answer trips an assertion or reads a member of the union that is not set: a response together with an error, a response of
  another kind, with the end sentinel, with missing or unasked-for handle or name, or for which the transports' handles cannot be constructed.
\<close>

theorem open_channel_outcome:
  assumes "m_state s = S_PEER" "m_on_err_func s = Some h"
    and req: "mdt = Some \<lparr> mb_kind = For_open_channel, mb_mdt = md \<rparr>"
  shows "if m_peer_state_err_code_or_ok s \<noteq> None then open_channel cfg env mdt err s = Inr ((False, None, None), s)
    else case (oe_rsp env, oe_err env) of
      (None, None) \<Rightarrow> open_channel cfg env mdt err s = Inr ((False, None, None), s)
    | (None, Some e) \<Rightarrow> open_channel cfg env mdt err s =
        (if e = Transport_err T_TIMEOUT
         then Inr ((True, Some (Session_err S_SESSION_OPEN_CHANNEL_ACTIVE_TIMEOUT), None), s)
         else Inr ((False, None, None), s\<lparr> m_peer_state_err_code_or_ok := Some e, fired := fired s @ [(h, e)] \<rparr>))
    | (Some m, Some e) \<Rightarrow> \<not> returns (open_channel cfg env mdt err s)
    | (Some m, None) \<Rightarrow> (case body m of
        OpenChannelToServerRsp q \<Rightarrow> (case os_result q of
          REJECTED_PASSIVE_OPEN \<Rightarrow> open_channel cfg env mdt err s =
            Inr ((True, Some (Session_err S_SESSION_OPEN_CHANNEL_REMOTE_PEER_REJECTED_PASSIVE_OPEN), None), s)
        | REJECTED_RESOURCE_UNAVAILABLE \<Rightarrow> open_channel cfg env mdt err s =
            Inr ((True, Some (Session_err S_SESSION_OPEN_CHANNEL_SERVER_CANNOT_PROCEED_RESOURCE_UNAVAILABLE), None), s)
        | OPEN_END_SENTINEL \<Rightarrow> \<not> returns (open_channel cfg env mdt err s)
        | ACCEPTED \<Rightarrow>
            if (native_handle_or_null m \<noteq> None \<longleftrightarrow> S_SOCKET_STREAM_ENABLED cfg) \<and>
               (os_mq_c2s_or_empty q \<noteq> [] \<longleftrightarrow> S_MQS_ENABLED cfg) \<and> (S_MQS_ENABLED cfg \<longrightarrow> channel_env_ok (oe_channel env))
            then open_channel cfg env mdt err s = Inr ((True, None,
                Some (Channel (''active'' @ to_string (unat (m_last_actively_opened_channel_id s + 1))) (Channel_obj cfg)
                  (if S_MQS_ENABLED cfg then Some (os_mq_c2s_or_empty q, os_mq_s2c_or_empty q) else None) (native_handle_or_null m))),
              s\<lparr> m_last_actively_opened_channel_id := m_last_actively_opened_channel_id s + 1 \<rparr>)
            else \<not> returns (open_channel cfg env mdt err s))
      | _ \<Rightarrow> \<not> returns (open_channel cfg env mdt err s))"
proof (cases "m_peer_state_err_code_or_ok s = None \<and> oe_err env = None \<and> oe_rsp env \<noteq> None")
  case False
  with assms show ?thesis
    by (cases "oe_rsp env") (auto simp: open_channel_def hose_set make_error_code_def split: option.splits)
next
  case True
  then obtain m where m: "oe_rsp env = Some m" by auto
  from True have p: "m_peer_state_err_code_or_ok s = None" "oe_err env = None" by simp_all
  have o: "open_channel cfg env mdt err s = open_channel_with_rsp cfg (oe_channel env) m s"
    using m p assms by (simp add: open_channel_def)
  show ?thesis
    by (simp only: m p o prod.case option.case simp_thms if_False) (rule cli_open_with_rsp)
qed

lemma cli_passive_open:
  assumes "m_on_err_func s = Some h" "good_channel_msg cfg m" "channel_env_ok (pe_channel env)"
  shows "\<exists>s'. on_master_channel_open_channel_req cfg env m s = Inr s' \<and>
    (if m_peer_state_err_code_or_ok s \<noteq> None then s' = s
     else (case pe_rsp env of
       Refused \<Rightarrow> sent s' = sent s \<and> passive_calls s' = passive_calls s \<and> fired s' = fired s
     | Sent_err e \<Rightarrow> sent s' = sent s \<and> passive_calls s' = passive_calls s \<and> fired s' = fired s @ [(h, e)]
     | Sent_ok \<Rightarrow> fired s' = fired s \<and>
         (case m_on_passive_open_channel_func_or_empty s of
            None \<Rightarrow> sent s' = sent s @ [open_channel_rsp_to_srv REJECTED_PASSIVE_OPEN] \<and>
              passive_calls s' = passive_calls s
          | Some f \<Rightarrow> sent s' = sent s @ [open_channel_rsp_to_srv ACCEPTED] \<and>
              (\<exists>r. body m = OpenChannelToClientReq r \<and> passive_calls s' = passive_calls s @
                 [(f, passive_channel cfg (m_last_passively_opened_channel_id s + 1) m, oc_mdt r)]))))"
proof -
  obtain r where r: "body m = OpenChannelToClientReq r" using assms(2) by (auto simp: good_channel_msg_def)
  let ?t = "s\<lparr> m_last_passively_opened_channel_id := m_last_passively_opened_channel_id s + 1 \<rparr>"
  show ?thesis
  proof (cases "m_peer_state_err_code_or_ok s")
    case None
    have hose: "m_on_err_func t = Some h \<Longrightarrow> m_peer_state_err_code_or_ok t = None \<Longrightarrow> hose e t =
        Inr (t\<lparr> m_peer_state_err_code_or_ok := Some e, fired := fired t @ [(h, e)] \<rparr>)" for e and t :: client_session
      by (rule hose_set)
    show ?thesis
      using None assms(1) r create_passive_channel [OF r assms(2,3), of s]
      by (cases "m_on_passive_open_channel_func_or_empty s"; cases "pe_rsp env")
        (simp_all add: on_master_channel_open_channel_req_def respond_passive_open_def hose
          on_passive_open_channel_func_or_empty_def getOpenChannelToClientReq_def Let_def)
  qed (use assms(1) in \<open>simp add: on_master_channel_open_channel_req_def\<close>)
qed

text \<open>
  C28. The passive side: a request from the server on a session that is not hosed is answered
  by exactly one response. Without a passive-open handler that is a rejection, and nothing else
  happens; with one, the channel is built from the request, and it is handed to the handler,
  with the request's metadata, if and only if the accepting response could be sent. A failure
  to send hoses the session; on a hosed session the request is ignored.
\<close>

theorem passive_open_outcome:
  assumes "m_on_err_func s = Some h" "good_channel_msg cfg m" "channel_env_ok (pe_channel env)"
  shows "\<exists>s'. on_master_channel_open_channel_req cfg env m s = Inr s' \<and>
    (if m_peer_state_err_code_or_ok s \<noteq> None then s' = s
     else (case pe_rsp env of
       Refused \<Rightarrow> sent s' = sent s \<and> passive_calls s' = passive_calls s \<and> fired s' = fired s
     | Sent_err e \<Rightarrow> sent s' = sent s \<and> passive_calls s' = passive_calls s \<and> fired s' = fired s @ [(h, e)]
     | Sent_ok \<Rightarrow> fired s' = fired s \<and>
         (case m_on_passive_open_channel_func_or_empty s of
            None \<Rightarrow> sent s' = sent s @ [open_channel_rsp_to_srv REJECTED_PASSIVE_OPEN] \<and>
              passive_calls s' = passive_calls s
          | Some f \<Rightarrow> sent s' = sent s @ [open_channel_rsp_to_srv ACCEPTED] \<and>
              (\<exists>r. body m = OpenChannelToClientReq r \<and> passive_calls s' = passive_calls s @
                 [(f, passive_channel cfg (m_last_passively_opened_channel_id s + 1) m, oc_mdt r)]))))"
  by (rule cli_passive_open [OF assms])

section \<open>Where an assertion trips\<close>

text \<open>
  C40. A connect attempt cannot be repeated once it has got as far as the server's process ID:
  when the server process named in the store does not listen, the attempt fails with the error
  of the socket connect and leaves the session in NULL state, as documented; but the server
  namespace stays set, and every further attempt that reads any process ID from the store trips
  the assertion that it is set at most once.
\<close>

theorem failed_connect_cannot_be_repeated:
  assumes app: "srv_app_ok L (m_srv_app_ref s)"
    and s: "m_state s = S_NULL" "m_srv_namespace s = []"
    and mutex: "\<forall>n. env_mutex env n = None"
    and cns: "env_file env (cur_ns_store_absolute_path L (m_srv_app_ref s)) = Inr (line @ CHR 0x0A # rest)"
    and line: "CHR 0x0A \<notin> set line" "lexical_cast_pid L line = Some pid" "pid \<noteq> 0"
    and conn: "env_sock_connect env (acceptor_name L (m_srv_app_ref s) (int_to_string (sint pid))) = Some e"
    and retry: "\<forall>n. env_mutex env' n = None"
      "env_file env' (cur_ns_store_absolute_path L (m_srv_app_ref s)) = Inr (line' @ CHR 0x0A # rest')"
      "CHR 0x0A \<notin> set line'" "lexical_cast_pid L line' = Some pid'"
  shows "\<exists>s1. async_connect L cfg env user_hook (Some \<lparr> mb_kind = For_log_in, mb_mdt = md \<rparr>) outs h s = Inr (True, s1) \<and>
    m_state s1 = S_NULL \<and> done_calls s1 = done_calls s @ [(h, Some e)] \<and>
    \<not> returns (async_connect L cfg env' user_hook (Some \<lparr> mb_kind = For_log_in, mb_mdt = md' \<rparr>) outs' h' s1)"
proof -
  let ?ns = "int_to_string (sint pid)"
  let ?s = "s\<lparr> m_state := S_CONNECTING, m_conn_on_done_func_or_empty := Some h, c_out := outs \<rparr>"
  note ns = pid_namespace [OF app line(3)]
  have acc: "session_master_socket_stream_acceptor_absolute_name L (?s\<lparr> m_srv_namespace := ?ns \<rparr>) =
      Inr (acceptor_name L (m_srv_app_ref s) ?ns)"
    using acceptor_name_form [of L "?s\<lparr> m_srv_namespace := ?ns \<rparr>"] app ns by simp
  let ?s1 = "s\<lparr> m_srv_namespace := ?ns, m_state := S_NULL, m_conn_on_done_func_or_empty := None,
    c_out := outs, done_calls := done_calls s @ [(h, Some e)] \<rparr>"
  have "connect_to_namespace L cfg env user_hook md line ?s = Inr (True, ?s1)"
    using line s ns acc conn
    by (simp add: connect_to_namespace_def set_srv_namespace_def connect_failed_def invoke_some del: invoke_user)
  moreover have "read_cns env n (cur_ns_store_absolute_path L (m_srv_app_ref s)) = Inr line" for n
    using mutex cns line by (simp add: read_cns_def getline_line)
  ultimately have "async_connect L cfg env user_hook (Some \<lparr> mb_kind = For_log_in, mb_mdt = md \<rparr>) outs h s =
      Inr (True, ?s1)"
    using s mutex_name_form [OF app] by (simp add: async_connect_def Let_def)
  moreover have "\<not> returns (async_connect L cfg env' user_hook (Some \<lparr> mb_kind = For_log_in, mb_mdt = md' \<rparr>) outs' h' ?s1)"
  proof -
    have "read_cns env' n (cur_ns_store_absolute_path L (m_srv_app_ref s)) = Inr line'" for n
      using retry by (simp add: read_cns_def getline_line)
    then show ?thesis
      using mutex_name_form [OF app] retry(4)
      by (simp add: async_connect_def connect_to_namespace_def returns_bind set_srv_namespace_Inr)
  qed
  ultimately show ?thesis by simp
qed

text \<open>
  Two calls documented to return \<^verbatim>\<open>false\<close> in the wrong state trip an assertion instead: the
  plain \<^verbatim>\<open>sync_connect()\<close> of a session in PEER state, and the plain \<^verbatim>\<open>open_channel()\<close> of a
  session that has never connected. (The overloads with metadata behave as documented:
  \<^verbatim>\<open>false\<close> for a log-in builder outside NULL state, and for a null builder.)
\<close>

theorem plain_calls_in_wrong_state:
  "(m_state s = S_PEER \<longrightarrow>
      \<not> returns (sync_connect_plain L cfg env h s) \<and>
      async_connect L cfg env user_hook (Some \<lparr> mb_kind = For_log_in, mb_mdt = md \<rparr>) outs h s = Inr (False, s)) \<and>
   (m_state s = S_NULL \<longrightarrow>
      \<not> returns (open_channel_no_mdt cfg oenv err s) \<and>
      open_channel cfg oenv None err s = Inr ((False, err, None), s))"
  by (simp add: sync_connect_plain_def sync_connect_start_def async_connect_def mdt_builder_def filled_def
      open_channel_no_mdt_def open_channel_def)

text \<open>
  If the response to the last init-channel cannot be sent, the connect fails and the
  session goes back to NULL state, but unlike all other failures this one keeps the master
  channel: an error handler of that channel would trip an assertion, and so would the log-in
  step of another attempt.
\<close>

theorem init_send_failure_keeps_channel:
  assumes "client_init_ready n chans md s" "good_channel_msg cfg m" "channel_env_ok (ie_channel env)"
    "length chans + 1 = n" "ie_undo_ok env" "ie_expect_ok env" "ie_rsp env = Sent_err e"
    "m_conn_on_done_func_or_empty s = Some h" "m_master_channel s = Some c"
  shows "\<exists>s'. on_master_channel_init_open_channel cfg user_hook env m n chans md s = Inr s' \<and>
    m_state s' = S_NULL \<and> done_calls s' = done_calls s @ [(h, Some e)] \<and> m_master_channel s' = Some c \<and>
    \<not> returns (on_master_channel_error cfg user_hook (Some c) e' s') \<and>
    \<not> returns (start_log_in cfg cenv hook md' s')"
proof -
  obtain r where r: "body m = OpenChannelToClientReq r" using assms(2) by (auto simp: good_channel_msg_def)
  show ?thesis
    using assms(1,4-9) r create_passive_channel [OF r assms(2,3), of s]
    by (simp add: on_master_channel_init_open_channel_def client_init_ready_def getOpenChannelToClientReq_def Let_def
        complete_init_channels_def invoke_some on_master_channel_error_def start_log_in_def del: invoke_user)
qed

text \<open>
  In no reachable state does the destructor block, and it trips its assertion exactly while
  a connect is in progress (for sessions without a graceful finisher).
\<close>

theorem client_dtor_outcome:
  assumes "reach client_ini (client_step L cfg) x" "\<not> S_GRACEFUL_FINISH_REQUIRED cfg"
  shows "\<exists>r. dtor_Client_session_impl cfg (cs x) = Some r \<and> (returns r \<longleftrightarrow> m_state (cs x) \<noteq> S_CONNECTING)"
  using client.reach_inv [OF assms(1)] assms(2)
  by (auto simp: dtor_Client_session_impl_def dtor_async_worker_stop_def client_inv_def Let_def)

text \<open>
  With message queues configured, the client builds a channel also from a message that
  lacks the name of the server-to-client queue: the assertion meant to exclude this compares
  the other name twice.
\<close>

theorem create_channel_ignores_missing_s2c:
  assumes "S_MQS_ENABLED cfg" "mq_c2s \<noteq> []" "hndl \<noteq> None \<longleftrightarrow> S_SOCKET_STREAM_ENABLED cfg" "channel_env_ok env"
  shows "\<exists>s' nick. create_channel_obj cfg env mq_c2s [] hndl act s =
    Inr (s', Channel nick (Channel_obj cfg) (Some (mq_c2s, [])) hndl, None)"
  using assms by (auto simp: create_channel_obj_def channel_nickname_def channel_env_ok_def Let_def)

section \<open>A concrete run\<close>

text \<open>
  A client connects to the server process 77, which answers without init-channels; the session
  reaches PEER state, its channel fails, and the error is reported.
\<close>

definition demo_cfg :: session_cfg where
  "demo_cfg = \<lparr> S_MQ_TYPE_OR_NONE = MQ_NONE, S_TRANSMIT_NATIVE_HANDLES = True,
     S_SHM_TYPE_OR_NONE = SHM_NONE, S_GRACEFUL_FINISH_REQUIRED = False \<rparr>"

definition demo_connect_env :: connect_env where
  "demo_connect_env = \<lparr> env_mutex = (\<lambda>_. None), env_file = (\<lambda>_. Inr (''77'' @ CHR 0x0A # [])),
     env_sock_connect = (\<lambda>_. None), env_remote_creds = None, env_new_channel = 1, env_request = Sent_ok,
     env_own_creds = \<lparr> pc_process_id = 88, pc_user_id = 1000, pc_group_id = 100 \<rparr> \<rparr>"

definition demo_c0 :: client_session where
  "demo_c0 = Client_session_impl demo_cli_app demo_srv_app (Some 7) (Some 8)"

definition demo_out :: connect_out where
  "demo_out = \<lparr> out_by_cli = Some [], out_mdt = Some None, out_by_srv = Some [] \<rparr>"

definition demo_rsp :: msg where
  "demo_rsp = \<lparr> body = LogInRsp \<lparr> lr_max_proto_ver = 1, lr_max_proto_ver_aux = 1, lr_cli_namespace = ''1'',
     lr_mdt = [4], lr_n_init_by_srv = 0 \<rparr>, native_handle_or_null = None \<rparr>"

definition demo_c1 :: client_session where
  "demo_c1 = demo_c0\<lparr> m_srv_namespace := int_to_string (sint (77 :: process_id_t)), m_state := S_CONNECTING,
     m_conn_on_done_func_or_empty := Some 11, m_master_channel := Some 1, c_expect := Expect_log_in_rsp,
     c_out := demo_out,
     sent := sent demo_c0 @ [fill_log_in_req demo_cfg demo_connect_env [5] (demo_c0\<lparr> c_out := demo_out \<rparr>)] \<rparr>"

definition demo_c2 :: client_session where
  "demo_c2 = demo_c1\<lparr> m_cli_namespace := ''1'', c_out := \<lparr> out_by_cli = Some [], out_mdt = Some (Some [4]),
     out_by_srv = Some [] \<rparr>, c_expect := Expect_open_channel, m_state := S_PEER,
     m_conn_on_done_func_or_empty := None, done_calls := [(11, None)] \<rparr>"

lemma demo_lex: "lexical_cast_pid demo_session_lib ''77'' = Some 77"
  by (simp add: demo_session_lib_def demo_lexical_cast_pid_def is_digit_def digits_val_def)

lemma demo_c0_simps [simp]: "m_srv_app_ref demo_c0 = demo_srv_app" "m_state demo_c0 = S_NULL"
  "m_master_channel demo_c0 = None" "m_srv_namespace demo_c0 = []" "m_cli_namespace demo_c0 = []"
  "m_on_err_func demo_c0 = Some 7" "m_peer_state_err_code_or_ok demo_c0 = None" "fired demo_c0 = []"
  "done_calls demo_c0 = []" "m_on_passive_open_channel_func_or_empty demo_c0 = Some 8"
  "m_last_passively_opened_channel_id demo_c0 = 0" "sent demo_c0 = []" "passive_calls demo_c0 = []"
  by (simp_all add: demo_c0_def Client_session_impl_def Session_base_cli_def session_base.extend_def)

lemma demo_async_connect:
  "async_connect demo_session_lib demo_cfg demo_connect_env user_hook
     (Some \<lparr> mb_kind = For_log_in, mb_mdt = [5] \<rparr>) demo_out 11 demo_c0 = Inr (True, demo_c1)"
  using async_connect_log_in [of demo_session_lib demo_c0 demo_connect_env "''77''" "[]" 77
      demo_cfg user_hook "[5]" demo_out 11] demo_srv_app_ok demo_lex
  by (simp add: demo_c1_def demo_connect_env_def)

lemma demo_log_in: "on_master_channel_log_in_rsp demo_session_lib demo_cfg user_hook True demo_rsp demo_c1 = Inr demo_c2"
  by (simp add: on_master_channel_log_in_rsp_def check_log_in_rsp_def demo_rsp_def set_cli_namespace_def
      demo_c1_def demo_c2_def demo_out_def log_in_finish_eq log_in_out_def n_by_cli_def after_peer_def demo_cfg_def
      invoke_some Let_def del: invoke_user)


lemma demo_c1_simps [simp]: "m_state demo_c1 = S_CONNECTING" "m_conn_on_done_func_or_empty demo_c1 = Some 11"
  "m_master_channel demo_c1 = Some 1" "c_expect demo_c1 = Expect_log_in_rsp" "c_out demo_c1 = demo_out"
  "m_cli_namespace demo_c1 = []" "done_calls demo_c1 = []" "m_on_err_func demo_c1 = Some 7"
  by (simp_all add: demo_c1_def)

lemma demo_c2_simps [simp]: "m_state demo_c2 = S_PEER" "m_master_channel demo_c2 = Some 1"
  "c_expect demo_c2 = Expect_open_channel" "done_calls demo_c2 = [(11, None)]" "m_on_err_func demo_c2 = Some 7"
  "m_peer_state_err_code_or_ok demo_c2 = None" "fired demo_c2 = []" "m_conn_on_done_func_or_empty demo_c2 = None"
  "m_on_passive_open_channel_func_or_empty demo_c2 = Some 8" "m_last_passively_opened_channel_id demo_c2 = 0"
  "sent demo_c2 = sent demo_c1" "passive_calls demo_c2 = []"
  by (simp_all add: demo_c2_def demo_c1_def)

lemma demo_cfg_simps [simp]: "\<not> S_GRACEFUL_FINISH_REQUIRED demo_cfg" "\<not> S_MQS_ENABLED demo_cfg"
  "S_SOCKET_STREAM_ENABLED demo_cfg"
  by (simp_all add: demo_cfg_def S_MQS_ENABLED_def S_SOCKET_STREAM_ENABLED_def)

lemma demo_accepts: "accepts_log_in_rsp demo_session_lib demo_out demo_rsp" "n_by_cli demo_c1 = 0"
  by (simp_all add: accepts_log_in_rsp_def demo_rsp_def demo_out_def n_by_cli_def)

definition demo_x :: "client_session \<Rightarrow> chan_status \<Rightarrow> nat \<Rightarrow> client_sys" where
  "demo_x s st n = \<lparr> cs = s, cst = st, accepted = n \<rparr>"

lemma demo_x_simps [simp]: "cs (demo_x s st n) = s" "cst (demo_x s st n) = st" "accepted (demo_x s st n) = n"
  by (simp_all add: demo_x_def)

abbreviation demo_reach :: "client_sys \<Rightarrow> bool" where
  "demo_reach \<equiv> reach client_ini (client_step demo_session_lib demo_cfg)"

lemma demo_reach_c0: "demo_reach (demo_x demo_c0 Ch_ok 0)"
  by (rule reach_init) (auto simp: client_ini_def demo_x_def demo_c0_def)

lemma demo_reach_c1: "demo_reach (demo_x demo_c1 Ch_ok 1)"
proof -
  have "client_step demo_session_lib demo_cfg (demo_x demo_c0 Ch_ok 0)
      \<lparr> cs = demo_c1, cst = Ch_ok, accepted = (if True then accepted (demo_x demo_c0 Ch_ok 0) + 1
        else accepted (demo_x demo_c0 Ch_ok 0)) \<rparr>"
    by (rule client_step.connect [where env = demo_connect_env and
          mdt = "Some \<lparr> mb_kind = For_log_in, mb_mdt = [5] \<rparr>" and outs = demo_out and h = 11])
      (simp_all only: demo_x_simps demo_async_connect, simp_all add: demo_connect_env_def)
  with demo_reach_c0 show ?thesis by (auto simp: demo_x_def intro: reach_step)
qed

lemma demo_reach_c1_failing: "demo_reach (demo_x demo_c1 (Ch_err_pending e) 1)"
proof -
  have "client_step demo_session_lib demo_cfg (demo_x demo_c1 Ch_ok 1)
      ((demo_x demo_c1 Ch_ok 1)\<lparr> cst := Ch_err_pending e \<rparr>)"
    by (rule client_step.channel_fails) simp_all
  with demo_reach_c1 show ?thesis by (auto simp: demo_x_def intro: reach_step)
qed

lemma demo_reach_c2: "demo_reach (demo_x demo_c2 Ch_ok 1)"
proof -
  have "client_step demo_session_lib demo_cfg (demo_x demo_c1 Ch_ok 1)
      ((demo_x demo_c1 Ch_ok 1)\<lparr> cs := demo_c2, cst := Ch_ok \<rparr>)"
    by (rule client_step.log_in_rsp [where expect_ok = True and m = demo_rsp])
      (simp_all add: demo_log_in)
  with demo_reach_c1 show ?thesis by (auto simp: demo_x_def intro: reach_step)
qed

lemma demo_reach_c2_failing: "demo_reach (demo_x demo_c2 (Ch_err_pending e) 1)"
proof -
  have "client_step demo_session_lib demo_cfg (demo_x demo_c2 Ch_ok 1)
      ((demo_x demo_c2 Ch_ok 1)\<lparr> cst := Ch_err_pending e \<rparr>)"
    by (rule client_step.channel_fails) simp_all
  with demo_reach_c2 show ?thesis by (auto simp: demo_x_def intro: reach_step)
qed

section \<open>Witnesses\<close>

theorem connect_reaches_log_in_witness:
  "async_connect demo_session_lib demo_cfg demo_connect_env user_hook
     (Some \<lparr> mb_kind = For_log_in, mb_mdt = [5] \<rparr>) demo_out 11 demo_c0 = Inr (True, demo_c1)"
  using connect_reaches_log_in [of demo_session_lib demo_c0 demo_connect_env "''77''" "[]" 77
      demo_cfg user_hook "[5]" demo_out 11] demo_srv_app_ok demo_lex
  by (simp add: demo_c1_def demo_connect_env_def)

theorem client_emits_once_witness:
  "m_state demo_c2 = S_PEER \<and> length (done_calls demo_c2) = 1 \<and> length (fired demo_c2) \<le> 1"
  using client_emits_once [OF demo_reach_c2] by simp

theorem client_connect_progress_witness:
  "\<exists>s'. on_master_channel_error demo_cfg user_hook (m_master_channel demo_c1) (System_err 5) demo_c1 = Inr s' \<and>
     m_state s' = S_NULL \<and> done_calls s' = [(11, Some (System_err 5))]"
  using client_connect_progress [OF demo_reach_c1_failing [of "System_err 5"]]
  by auto

theorem client_peer_error_reported_witness:
  "\<exists>s'. on_master_channel_error demo_cfg user_hook (m_master_channel demo_c2) (System_err 5) demo_c2 = Inr s' \<and>
     fired s' = [(7, System_err 5)]"
  using client_peer_error_reported [OF demo_reach_c2_failing [of "System_err 5"]]
  by auto

theorem log_in_rsp_outcome_witness:
  "\<exists>s'. on_master_channel_log_in_rsp demo_session_lib demo_cfg user_hook True demo_rsp demo_c1 = Inr s' \<and>
     m_state s' = S_PEER \<and> m_cli_namespace s' = ''1''"
proof -
  note demo_accepts
  with log_in_rsp_outcome [of demo_c1 11 demo_cfg demo_rsp demo_session_lib]
  show ?thesis by (auto simp: demo_rsp_def)
qed

theorem failed_connect_touches_out_args_witness:
  "\<exists>s' s''. on_master_channel_log_in_rsp demo_session_lib demo_cfg user_hook False demo_rsp demo_c1 = Inr s' \<and>
    on_master_channel_error demo_cfg user_hook (m_master_channel s') (System_err 5) s' = Inr s'' \<and>
    done_calls s'' = [(11, Some (System_err 5))] \<and> out_mdt (c_out s'') = Some (Some [4])"
proof -
  have "body demo_rsp = LogInRsp \<lparr> lr_max_proto_ver = 1, lr_max_proto_ver_aux = 1, lr_cli_namespace = ''1'',
     lr_mdt = [4], lr_n_init_by_srv = 0 \<rparr>" by (simp add: demo_rsp_def)
  from failed_connect_touches_out_args [of demo_c1 11 demo_session_lib, OF _ _ _ _ _ this, of "Some []" "[]" demo_cfg "System_err 5"]
  show ?thesis using demo_accepts by (auto simp: demo_out_def)
qed

theorem plain_calls_in_wrong_state_witness:
  "\<not> returns (sync_connect_plain demo_session_lib demo_cfg demo_connect_env 12 demo_c2)"
  using plain_calls_in_wrong_state [of demo_c2] by simp

theorem client_dtor_outcome_witness:
  "dtor_Client_session_impl demo_cfg demo_c2 = Some (Inr ())"
  using client_dtor_outcome [OF demo_reach_c2]
  by (auto simp: returns_iff)

definition demo_init_msg :: "nat \<Rightarrow> msg" where
  "demo_init_msg h = \<lparr> body = OpenChannelToClientReq \<lparr> oc_mq_c2s_or_empty = [], oc_mq_s2c_or_empty = [], oc_mdt = [h] \<rparr>,
     native_handle_or_null = Some h \<rparr>"

definition demo_channel_env :: channel_env where
  "demo_channel_env = \<lparr> ce_open_c2s = None, ce_open_s2c = None, ce_channel = None \<rparr>"

definition demo_init_env :: "send_answer \<Rightarrow> init_env" where
  "demo_init_env a = \<lparr> ie_channel = demo_channel_env, ie_undo_ok = True, ie_expect_ok = True, ie_rsp = a \<rparr>"

lemma demo_good [simp]: "good_channel_msg demo_cfg (demo_init_msg h)" "channel_env_ok demo_channel_env"
  "ie_channel (demo_init_env a) = demo_channel_env" "ie_undo_ok (demo_init_env a)" "ie_expect_ok (demo_init_env a)"
  "ie_rsp (demo_init_env a) = a"
  by (simp_all add: good_channel_msg_def demo_init_msg_def channel_env_ok_def demo_channel_env_def demo_init_env_def)

lemma demo_init_body [simp]: "body (demo_init_msg h) =
  OpenChannelToClientReq \<lparr> oc_mq_c2s_or_empty = [], oc_mq_s2c_or_empty = [], oc_mdt = [h] \<rparr>"
  by (simp add: demo_init_msg_def)

definition demo_c_init :: client_session where
  "demo_c_init = demo_c1\<lparr> c_expect := Expect_init_channels 2 [] (Some [4]),
     c_out := \<lparr> out_by_cli = Some [Blank], out_mdt = Some None, out_by_srv = Some [] \<rparr> \<rparr>"

theorem init_channels_distributed_witness:
  "\<exists>s'. deliver_init_channels demo_cfg [(demo_init_env Sent_ok, demo_init_msg 21),
       (demo_init_env Sent_ok, demo_init_msg 22)] demo_c_init = Inr s' \<and>
     m_state s' = S_PEER \<and> length (the (out_by_cli (c_out s'))) = 1 \<and> length (the (out_by_srv (c_out s'))) = 1"
proof -
  have e: "1 + length [Blank] = 2" by simp
  show ?thesis
    using init_channels_distributed [of demo_c_init 11 1 "[Blank]" "[4]" None "[]" demo_cfg
        "[(demo_init_env Sent_ok, demo_init_msg 21), (demo_init_env Sent_ok, demo_init_msg 22)]"]
    unfolding e by (auto simp: demo_c_init_def)
qed

theorem init_send_failure_keeps_channel_witness:
  "\<exists>s'. on_master_channel_init_open_channel demo_cfg user_hook (demo_init_env (Sent_err (System_err 32)))
       (demo_init_msg 21) 1 [] (Some [4]) (demo_c_init\<lparr> c_expect := Expect_init_channels 1 [] (Some [4]) \<rparr>) = Inr s' \<and>
     m_state s' = S_NULL \<and> m_master_channel s' = Some 1 \<and>
     \<not> returns (start_log_in demo_cfg demo_connect_env user_hook [] s')"
proof -
  have "client_init_ready 1 [] (Some [4]) (demo_c_init\<lparr> c_expect := Expect_init_channels 1 [] (Some [4]) \<rparr>)"
    by (simp add: client_init_ready_def demo_c_init_def n_by_cli_def)
  from init_send_failure_keeps_channel [OF this, of demo_cfg "demo_init_msg 21" "demo_init_env (Sent_err (System_err 32))"
      "System_err 32" 11 1 "System_err 1" demo_connect_env user_hook "[]"]
  show ?thesis by (auto simp: demo_c_init_def)
qed

theorem open_channel_outcome_witness:
  "open_channel demo_cfg \<lparr> oe_rsp = None, oe_err = Some (Transport_err (T_OTHER 3)), oe_channel = demo_channel_env \<rparr>
      (Some \<lparr> mb_kind = For_open_channel, mb_mdt = [] \<rparr>) None demo_c2 =
    Inr ((False, None, None), demo_c2\<lparr> m_peer_state_err_code_or_ok := Some (Transport_err (T_OTHER 3)),
      fired := [(7, Transport_err (T_OTHER 3))] \<rparr>)"
  using open_channel_outcome [of demo_c2 7 "Some \<lparr> mb_kind = For_open_channel, mb_mdt = [] \<rparr>" "[]"
      demo_cfg "\<lparr> oe_rsp = None, oe_err = Some (Transport_err (T_OTHER 3)), oe_channel = demo_channel_env \<rparr>" None]
  by simp

theorem passive_open_outcome_witness:
  "\<exists>s'. on_master_channel_open_channel_req demo_cfg \<lparr> pe_channel = demo_channel_env, pe_rsp = Sent_ok \<rparr>
      (demo_init_msg 23) demo_c2 = Inr s' \<and>
     passive_calls s' = [(8, passive_channel demo_cfg 1 (demo_init_msg 23), [23])]"
  using passive_open_outcome [of demo_c2 7 demo_cfg "demo_init_msg 23"
      "\<lparr> pe_channel = demo_channel_env, pe_rsp = Sent_ok \<rparr>"]
  by auto

theorem failed_connect_cannot_be_repeated_witness:
  "\<exists>s1. async_connect demo_session_lib demo_cfg (demo_connect_env\<lparr> env_sock_connect := \<lambda>_. Some (System_err 111) \<rparr>)
      user_hook (Some \<lparr> mb_kind = For_log_in, mb_mdt = [5] \<rparr>) demo_out 11 demo_c0 = Inr (True, s1) \<and>
    m_state s1 = S_NULL \<and> done_calls s1 = [(11, Some (System_err 111))] \<and>
    \<not> returns (async_connect demo_session_lib demo_cfg demo_connect_env user_hook
      (Some \<lparr> mb_kind = For_log_in, mb_mdt = [5] \<rparr>) demo_out 12 s1)"
  using failed_connect_cannot_be_repeated [of demo_session_lib demo_c0
      "demo_connect_env\<lparr> env_sock_connect := \<lambda>_. Some (System_err 111) \<rparr>" "''77''" "[]" 77 "System_err 111"
      demo_connect_env "''77''" "[]" 77 demo_cfg "[5]" demo_out 11 "[5]" demo_out 12] demo_srv_app_ok demo_lex
  by (simp add: demo_connect_env_def)

theorem create_channel_ignores_missing_s2c_witness:
  "\<exists>s' nick. create_channel_obj (demo_cfg\<lparr> S_MQ_TYPE_OR_NONE := MQ_POSIX \<rparr>) demo_channel_env ''q'' [] (Some 5) True demo_c2 =
    Inr (s', Channel nick (Channel_obj (demo_cfg\<lparr> S_MQ_TYPE_OR_NONE := MQ_POSIX \<rparr>)) (Some (''q'', [])) (Some 5), None)"
  using create_channel_ignores_missing_s2c [of "demo_cfg\<lparr> S_MQ_TYPE_OR_NONE := MQ_POSIX \<rparr>" "''q''" "Some 5"
      demo_channel_env True demo_c2]
  by (simp add: S_MQS_ENABLED_def S_SOCKET_STREAM_ENABLED_def demo_cfg_def)

end
