(* ===== verification/Server_Session.thy ===== *)
theory Server_Session
  imports Messages
begin

text \<open>
  \<^verbatim>\<open>detail/server_session_impl.hpp\<close>: the server side of a session. The record
  \<open>server_session\<close> extends \<open>session_base\<close>; each operation and each task of thread W is one
  function. \<open>s_mqs\<close> lists the persistent message queues the session has created and not
  removed (a resource of the kernel), \<open>s_expect_log_in\<close> and \<open>s_expect_open\<close> what the master
  channel has been told to expect, \<open>s_hose_posted\<close> a task posted onto thread W; \<open>s_done_calls\<close>,
  \<open>s_deinit_calls\<close>, \<open>s_passive_calls\<close> and \<open>s_sent\<close> log what leaves the session.
\<close>

record accept_out =
  out_by_srv_req :: "channel_obj list option"
  out_mdt_from_cli :: "mdt option option"
  out_by_cli_req :: "channel_obj list option"

record server_session = session_base +
  m_log_in_on_done_func :: "handler option"
  m_master_sock_stm :: bool \<comment> \<open>the socket stream is still here\<close>
  m_pre_init_err_code :: "error_code option"
  m_last_passively_opened_channel_id :: "32 word"
  m_last_actively_opened_channel_id :: "32 word"
  m_last_channel_mq_id :: "32 word"
  m_master_channel :: "nat option"
  m_graceful_finisher :: "graceful_finisher option"
  m_deinit_func_or_empty :: "handler option"
  s_mqs :: "shared_name list"
  s_expect_log_in :: bool
  s_expect_open :: bool
  s_hose_posted :: bool
  s_out :: accept_out
  s_done_calls :: "(handler \<times> error_code option) list"
  s_deinit_calls :: "handler list"
  s_passive_calls :: "(handler \<times> channel_obj \<times> mdt) list"
  s_sent :: "msg list"

definition Server_session_impl :: "process_id_t \<Rightarrow> Server_app \<Rightarrow> server_session" where
  "Server_session_impl own_process_id srv_app_ref =
     session_base.extend (Session_base_srv own_process_id srv_app_ref)
       \<lparr> m_log_in_on_done_func = None, m_master_sock_stm = True, m_pre_init_err_code = None,
         m_last_passively_opened_channel_id = 0, m_last_actively_opened_channel_id = 0,
         m_last_channel_mq_id = 0, m_master_channel = None, m_graceful_finisher = None,
         m_deinit_func_or_empty = None,
         s_mqs = [], s_expect_log_in = False, s_expect_open = False, s_hose_posted = False,
         s_out = \<lparr> out_by_srv_req = None, out_mdt_from_cli = None, out_by_cli_req = None \<rparr>,
         s_done_calls = [], s_deinit_calls = [], s_passive_calls = [], s_sent = [] \<rparr>"

definition client_app :: "server_session \<Rightarrow> Client_app option" where
  "client_app s = cli_app_ptr s"

section \<open>Handlers and errors\<close>

definition handlers_are_set :: "server_session \<Rightarrow> bool" where
  "handlers_are_set s = on_err_func_set s"

text \<open>
  The user's step from almost-PEER to PEER state. A cached error is emitted by a task posted
  onto thread W; otherwise the channel is told to expect open-channel requests.
\<close>

definition init_handlers_impl ::
    "session_cfg \<Rightarrow> bool \<Rightarrow> handler option \<Rightarrow> handler option \<Rightarrow> server_session \<Rightarrow> (bool \<times> server_session) res" where
  "init_handlers_impl cfg expect_ok on_err_func_arg on_passive_open_channel_func_or_empty_arg s =
     (if handlers_are_set s then Inr (False, s)
      else
        res_bind (set_on_err_func on_err_func_arg s) (\<lambda>s.
        res_bind (set_on_passive_open_channel_func on_passive_open_channel_func_or_empty_arg s) (\<lambda>s.
        ensure (handlers_are_set s) ''We just set them....'' (
        if m_pre_init_err_code s \<noteq> None then
          res_bind (hosed s) (\<lambda>h.
          ensure (\<not> h) ''We only just entered PEER state.'' (
          Inr (True, s\<lparr> s_hose_posted := True \<rparr>)))
        else if m_master_channel s = None then Inl (Uncaught ''null m_master_channel dereferenced'')
        else
          let s = (if expect_ok then s\<lparr> s_expect_open := True \<rparr> else s) in
          Inr (True, if S_GRACEFUL_FINISH_REQUIRED cfg
                     then s\<lparr> m_graceful_finisher := Some Graceful_finisher \<rparr> else s)))))"

text \<open>The two public overloads run it in thread W.\<close>

definition init_handlers ::
    "session_cfg \<Rightarrow> bool \<Rightarrow> handler \<Rightarrow> handler \<Rightarrow> server_session \<Rightarrow> (bool \<times> server_session) res" where
  "init_handlers cfg expect_ok on_err_func_arg on_passive_open_channel_func_arg s =
     init_handlers_impl cfg expect_ok (Some on_err_func_arg) (Some on_passive_open_channel_func_arg) s"

definition init_handlers_no_passive ::
    "session_cfg \<Rightarrow> bool \<Rightarrow> handler \<Rightarrow> server_session \<Rightarrow> (bool \<times> server_session) res" where
  "init_handlers_no_passive cfg expect_ok on_err_func_arg s =
     init_handlers_impl cfg expect_ok (Some on_err_func_arg) None s"

text \<open>The posted task.\<close>

definition emit_cached_error :: "server_session \<Rightarrow> server_session res" where
  "emit_cached_error s =
     (let s = s\<lparr> s_hose_posted := False \<rparr> in
      res_bind (hosed s) (\<lambda>h.
        if h then Inr s
        else (case m_pre_init_err_code s of
            None \<Rightarrow> Inl (Assert ''truthy m_pre_init_err_code'')
          | Some e \<Rightarrow> hose e s)))"

definition finish_log_in :: "error_code option \<Rightarrow> server_session \<Rightarrow> server_session res" where
  "finish_log_in err_code s = (case m_log_in_on_done_func s of
     None \<Rightarrow> Inl (Uncaught ''bad_function_call'')
   | Some h \<Rightarrow> Inr (s\<lparr> s_done_calls := s_done_calls s @ [(h, err_code)], m_log_in_on_done_func := None \<rparr>))"

definition on_master_channel_error ::
    "session_cfg \<Rightarrow> error_code \<Rightarrow> server_session \<Rightarrow> server_session res" where
  "on_master_channel_error cfg err_code s =
     (if m_master_channel s = None then Inr s
      else if m_log_in_on_done_func s \<noteq> None then
        finish_log_in (Some err_code) (s\<lparr> m_master_channel := None, s_expect_log_in := False \<rparr>)
      else if \<not> handlers_are_set s then
        ensure (m_pre_init_err_code s = None) ''struc::Channel should emit no more than one fatal error.'' (
        Inr (s\<lparr> m_pre_init_err_code := Some err_code \<rparr>))
      else
        res_bind (hosed s) (\<lambda>h.
        res_bind (if \<not> h then hose err_code s else Inr s) (\<lambda>s.
        if S_GRACEFUL_FINISH_REQUIRED cfg then (case m_graceful_finisher s of
            None \<Rightarrow> Inl (Uncaught ''empty optional dereferenced'')
          | Some f \<Rightarrow> Inr (s\<lparr> m_graceful_finisher := Some (on_master_channel_hosed f) \<rparr>))
        else Inr s)))"

text \<open>As written: the first check does not return.\<close>

definition session_token :: "server_session \<Rightarrow> nat option res" where
  "session_token s = res_bind (hosed s) (\<lambda>h.
     if h then Inr None
     else ensure (m_master_channel s \<noteq> None) ''m_master_channel'' (Inr (m_master_channel s)))"

section \<open>Resources of a channel\<close>

text \<open>
  The answers of the system: creation of the two message queues, \<^verbatim>\<open>connect_pair()\<close> (an error or
  the local and the remote handle), and \<^verbatim>\<open>Channel_obj\<close>'s constructor.
\<close>

record resource_env =
  re_mq_c2s :: "error_code option"
  re_mq_s2c :: "error_code option"
  re_pair :: "error_code + (nat \<times> nat)"
  re_channel :: "error_code option"

definition mq_name_func :: "session_lib \<Rightarrow> bool \<Rightarrow> server_session \<Rightarrow> shared_name res" where
  "mq_name_func L c2s s =
     (case cli_app_ptr s of
        None \<Rightarrow> Inl (Uncaught ''null cli_app_ptr dereferenced'')
      | Some app \<Rightarrow>
          res_bind (build_conventional_shared_name_1 (lib_sn L) (MQ_RESOURCE_TYPE_ID (lib_sn L))
            (m_name (m_srv_app_ref s)) (srv_namespace s) (m_name app) (cli_namespace s)) (\<lambda>mq_name.
          let mq_name = sn_div (lib_sn L) mq_name (if c2s then ''c2s'' else ''s2c'');
              mq_name = sn_div (lib_sn L) mq_name (to_string (unat (m_last_channel_mq_id s)))
          in Inr mq_name))"

text \<open>On success the names of the client-to-server and the server-to-client queue.\<close>

definition make_channel_mqs ::
    "session_lib \<Rightarrow> resource_env \<Rightarrow> server_session \<Rightarrow>
     (server_session \<times> (error_code + (shared_name \<times> shared_name))) res" where
  "make_channel_mqs L env s =
     (let s = s\<lparr> m_last_channel_mq_id := m_last_channel_mq_id s + 1 \<rparr> in
      res_bind (mq_name_func L True s) (\<lambda>name_c2s.
      case re_mq_c2s env of
        Some e \<Rightarrow> Inr (s\<lparr> m_last_channel_mq_id := m_last_channel_mq_id s - 1 \<rparr>, Inl e)
      | None \<Rightarrow>
          let s = s\<lparr> s_mqs := name_c2s # s_mqs s \<rparr> in
          res_bind (mq_name_func L False s) (\<lambda>name_s2c.
          case re_mq_s2c env of
            Some e \<Rightarrow> Inr (s\<lparr> m_last_channel_mq_id := m_last_channel_mq_id s - 1,
                           s_mqs := remove1 name_c2s (s_mqs s) \<rparr>, Inl e)
          | None \<Rightarrow> Inr (s\<lparr> s_mqs := name_s2c # s_mqs s \<rparr>, Inr (name_c2s, name_s2c)))))"

definition channel_nickname :: "bool \<Rightarrow> server_session \<Rightarrow> string \<times> server_session" where
  "channel_nickname active_else_passive s =
     (if active_else_passive
      then let n = m_last_actively_opened_channel_id s + 1
           in (''active'' @ to_string (unat n), s\<lparr> m_last_actively_opened_channel_id := n \<rparr>)
      else let n = m_last_passively_opened_channel_id s + 1
           in (''passive'' @ to_string (unat n), s\<lparr> m_last_passively_opened_channel_id := n \<rparr>))"

text \<open>
  The out-arguments, in the order of the code: the two names, the remote handle, the channel;
  \<open>ok\<close> is the returned \<^verbatim>\<open>bool\<close>. The server's channel sends on the server-to-client queue.
\<close>

record channel_resources =
  cr_ok :: bool
  cr_c2s :: shared_name
  cr_s2c :: shared_name
  cr_remote_hndl :: native_handle
  cr_channel :: channel_obj

definition no_resources :: channel_resources where
  "no_resources = \<lparr> cr_ok = False, cr_c2s = [], cr_s2c = [], cr_remote_hndl = None, cr_channel = Blank \<rparr>"

text \<open>With message queues: create them, then the socket pair if configured, then the channel.\<close>

definition create_mq_channel ::
    "session_lib \<Rightarrow> session_cfg \<Rightarrow> resource_env \<Rightarrow> string \<Rightarrow> server_session \<Rightarrow>
     (server_session \<times> channel_resources) res" where
  "create_mq_channel L cfg env nickname s =
     res_bind (make_channel_mqs L env s) (\<lambda>(s, mqs). case mqs of
       Inl e \<Rightarrow> Inr (s, no_resources)
     | Inr (c2s, s2c) \<Rightarrow>
         let cleaned = s\<lparr> s_mqs := remove1 s2c (remove1 c2s (s_mqs s)) \<rparr>;
             failed = no_resources\<lparr> cr_c2s := c2s, cr_s2c := s2c \<rparr> in
         if S_SOCKET_STREAM_ENABLED cfg then (case re_pair env of
             Inl e \<Rightarrow> Inr (cleaned, failed)
           | Inr (local_hndl, remote_hndl) \<Rightarrow>
               if re_channel env \<noteq> None then Inr (cleaned, failed\<lparr> cr_remote_hndl := Some remote_hndl \<rparr>)
               else Inr (s, \<lparr> cr_ok = True, cr_c2s = c2s, cr_s2c = s2c, cr_remote_hndl = Some remote_hndl,
                 cr_channel = Channel nickname (Channel_obj cfg) (Some (s2c, c2s)) (Some local_hndl) \<rparr>))
         else if re_channel env \<noteq> None then Inr (cleaned, failed)
         else Inr (s, \<lparr> cr_ok = True, cr_c2s = c2s, cr_s2c = s2c, cr_remote_hndl = None,
           cr_channel = Channel nickname (Channel_obj cfg) (Some (s2c, c2s)) None \<rparr>))"

definition create_channel_and_resources ::
    "session_lib \<Rightarrow> session_cfg \<Rightarrow> resource_env \<Rightarrow> bool \<Rightarrow> server_session \<Rightarrow>
     (server_session \<times> channel_resources) res" where
  "create_channel_and_resources L cfg env active_else_passive s =
     (let (nickname, s) = channel_nickname active_else_passive s in
      if S_MQS_ENABLED cfg then create_mq_channel L cfg env nickname s
      else (case re_pair env of
          Inl e \<Rightarrow> Inr (s, no_resources)
        | Inr (local_hndl, remote_hndl) \<Rightarrow> Inr (s, \<lparr> cr_ok = True, cr_c2s = [], cr_s2c = [],
            cr_remote_hndl = Some remote_hndl,
            cr_channel = Channel nickname (Channel_obj cfg) None (Some local_hndl) \<rparr>)))"

text \<open>For subclasses: what to run at the very end of destruction.\<close>

definition sub_class_set_deinit_func :: "handler \<Rightarrow> server_session \<Rightarrow> server_session" where
  "sub_class_set_deinit_func task s = s\<lparr> m_deinit_func_or_empty := Some task \<rparr>"

section \<open>Opening a channel actively\<close>

text \<open>
  What a metadata builder of the server points into: the request prepared by \<open>mdt_builder\<close> (the
  user fills in \<open>oc_mdt\<close>), the handle stored in it, and the local peer object, \<open>Blank\<close> if the
  resources could not be had. A null builder is \<open>None\<close>.
\<close>

record open_channel_req =
  or_root :: open_channel_to_client_req
  or_hndl :: native_handle
  or_opened_channel :: channel_obj

definition prepared_req :: "channel_resources \<Rightarrow> open_channel_req" where
  "prepared_req r =
     \<lparr> or_root = \<lparr> oc_mq_c2s_or_empty = (if cr_ok r then cr_c2s r else []),
         oc_mq_s2c_or_empty = (if cr_ok r then cr_s2c r else []), oc_mdt = [] \<rparr>,
       or_hndl = cr_remote_hndl r,
       or_opened_channel = (if cr_ok r then cr_channel r else Blank) \<rparr>"

definition mdt_builder ::
    "session_lib \<Rightarrow> session_cfg \<Rightarrow> resource_env \<Rightarrow> server_session \<Rightarrow>
     (open_channel_req option \<times> server_session) res" where
  "mdt_builder L cfg env s =
     (if \<not> handlers_are_set s then Inr (None, s)
      else
        res_bind (hosed s) (\<lambda>h.
        res_bind (if h then Inr (s, no_resources) else create_channel_and_resources L cfg env True s) (\<lambda>(s, r).
        ensure (cr_ok r \<or> cr_remote_hndl r = None) ''resources_acquired_ok || remote_hndl_or_null.null()'' (
        if m_master_channel s = None then Inl (Uncaught ''null m_master_channel dereferenced'')
        else Inr (Some (prepared_req r), s)))))"

definition open_channel_req_msg :: "open_channel_req \<Rightarrow> msg" where
  "open_channel_req_msg r = \<lparr> body = OpenChannelToClientReq (or_root r), native_handle_or_null = or_hndl r \<rparr>"

record srv_open_env =
  so_rsp :: "msg option"
  so_err :: "error_code option"

text \<open>The returned \<^verbatim>\<open>bool\<close>, the final \<^verbatim>\<open>*err_code\<close>, and \<^verbatim>\<open>*target_channel\<close> if it was assigned.\<close>

type_synonym open_result = "bool \<times> error_code option \<times> channel_obj option"

definition client_verdict :: "open_channel_result \<Rightarrow> error_code option res" where
  "client_verdict r = (case r of
     ACCEPTED \<Rightarrow> Inr None
   | REJECTED_PASSIVE_OPEN \<Rightarrow>
       Inr (Some (make_error_code S_SESSION_OPEN_CHANNEL_REMOTE_PEER_REJECTED_PASSIVE_OPEN))
   | REJECTED_RESOURCE_UNAVAILABLE \<Rightarrow> Inl (Assert ''Only server grabs channel resources'')
   | OPEN_END_SENTINEL \<Rightarrow> Inl (Assert ''false''))"

definition open_channel ::
    "srv_open_env \<Rightarrow> open_channel_req option \<Rightarrow> error_code option \<Rightarrow> server_session \<Rightarrow>
     (open_result \<times> server_session) res" where
  "open_channel env mdt err_code s = (case mdt of
     None \<Rightarrow> Inr ((False, err_code, None), s)
   | Some open_channel_req \<Rightarrow>
       if or_opened_channel open_channel_req = Blank then
         Inr ((True, Some (make_error_code S_SESSION_OPEN_CHANNEL_SERVER_CANNOT_PROCEED_RESOURCE_UNAVAILABLE),
               None), s)
       else
         ensure (handlers_are_set s)
           ''mdt is non-null, yet state is not PEER, even though PEER is an end state?  Bug.'' (
         res_bind (hosed s) (\<lambda>h.
         if h then Inr ((False, None, None), s)
         else case (so_rsp env, so_err env) of
             (None, None) \<Rightarrow> Inr ((False, None, None), s)
           | (Some _, Some _) \<Rightarrow>
               Inl (Assert ''struc::Channel::sync_request() must emit no Error_code if it gets response.'')
           | (None, Some e) \<Rightarrow>
               if e = Transport_err T_TIMEOUT
               then Inr ((True, Some (make_error_code S_SESSION_OPEN_CHANNEL_ACTIVE_TIMEOUT), None),
                 s\<lparr> s_sent := s_sent s @ [open_channel_req_msg open_channel_req] \<rparr>)
               else res_bind (hose e s) (\<lambda>s. Inr ((False, None, None), s))
           | (Some rsp, None) \<Rightarrow>
               let s = s\<lparr> s_sent := s_sent s @ [open_channel_req_msg open_channel_req] \<rparr> in
               res_bind (getOpenChannelToClientRsp rsp) (\<lambda>root.
               res_bind (client_verdict root) (\<lambda>err_code.
               if err_code \<noteq> None then Inr ((True, err_code, None), s)
               else Inr ((True, None, Some (or_opened_channel open_channel_req)), s))))))"

text \<open>The overload without metadata; \<open>renv\<close> answers its call of \<open>mdt_builder\<close>.\<close>

definition open_channel_no_mdt ::
    "session_lib \<Rightarrow> session_cfg \<Rightarrow> resource_env \<Rightarrow> srv_open_env \<Rightarrow> error_code option \<Rightarrow> server_session \<Rightarrow>
     (open_result \<times> server_session) res" where
  "open_channel_no_mdt L cfg renv env err_code s =
     res_bind (mdt_builder L cfg renv s) (\<lambda>(mdt, s). open_channel env mdt err_code s)"

section \<open>Opening a channel passively\<close>

record srv_passive_env =
  sp_resources :: resource_env
  sp_rsp :: send_answer

definition open_channel_rsp_to_cli :: "open_channel_result \<Rightarrow> channel_resources \<Rightarrow> msg" where
  "open_channel_rsp_to_cli result r =
     (if result = ACCEPTED
      then \<lparr> body = OpenChannelToServerRsp \<lparr> os_result = result, os_mq_c2s_or_empty = cr_c2s r,
               os_mq_s2c_or_empty = cr_s2c r \<rparr>, native_handle_or_null = cr_remote_hndl r \<rparr>
      else \<lparr> body = OpenChannelToServerRsp \<lparr> os_result = result, os_mq_c2s_or_empty = [],
               os_mq_s2c_or_empty = [] \<rparr>, native_handle_or_null = None \<rparr>)"

text \<open>Sending the answer, and what the outcome of sending does.\<close>

definition respond_passive_open ::
    "send_answer \<Rightarrow> open_channel_result \<Rightarrow> channel_resources \<Rightarrow> handler option \<Rightarrow> mdt \<Rightarrow> server_session \<Rightarrow>
     server_session res" where
  "respond_passive_open rsp result r on_passive_open_func mdt s = (case rsp of
     Refused \<Rightarrow> Inr s
   | Sent_err err_code \<Rightarrow> hose err_code s
   | Sent_ok \<Rightarrow>
       let s = s\<lparr> s_sent := s_sent s @ [open_channel_rsp_to_cli result r] \<rparr> in
       if result \<noteq> ACCEPTED then Inr s
       else (case on_passive_open_func of
           None \<Rightarrow> Inl (Uncaught ''bad_function_call'')
         | Some f \<Rightarrow> Inr (s\<lparr> s_passive_calls := s_passive_calls s @ [(f, cr_channel r, mdt)] \<rparr>)))"

text \<open>Whether to accept, and with what resources.\<close>

definition decide_passive_open ::
    "session_lib \<Rightarrow> session_cfg \<Rightarrow> resource_env \<Rightarrow> handler option \<Rightarrow> server_session \<Rightarrow>
     (server_session \<times> channel_resources \<times> open_channel_result) res" where
  "decide_passive_open L cfg env on_passive_open_func s = (case on_passive_open_func of
     None \<Rightarrow> Inr (s, no_resources, REJECTED_PASSIVE_OPEN)
   | Some f \<Rightarrow> res_bind (create_channel_and_resources L cfg env False s) (\<lambda>(s, r).
       Inr (s, r, if cr_ok r then ACCEPTED else REJECTED_RESOURCE_UNAVAILABLE)))"

definition on_master_channel_open_channel_req ::
    "session_lib \<Rightarrow> session_cfg \<Rightarrow> srv_passive_env \<Rightarrow> msg \<Rightarrow> server_session \<Rightarrow> server_session res" where
  "on_master_channel_open_channel_req L cfg env open_channel_req s =
     res_bind (hosed s) (\<lambda>h.
     if h then Inr s
     else
       let on_passive_open_func = on_passive_open_channel_func_or_empty s in
       res_bind (decide_passive_open L cfg (sp_resources env) on_passive_open_func s) (\<lambda>(s, r, result).
       if m_master_channel s = None then Inl (Uncaught ''null m_master_channel dereferenced'')
       else
         ensure (result \<noteq> ACCEPTED \<or> cr_remote_hndl r \<noteq> None \<or> cr_c2s r \<noteq> [] \<and> cr_s2c r \<noteq> [])
           ''The channel had to have been configured to have at least one of: MQs, socket stream.'' (
         res_bind (if result = ACCEPTED then getOpenChannelToServerReq open_channel_req else Inr []) (\<lambda>mdt.
         respond_passive_open (sp_rsp env) result r on_passive_open_func mdt s))))"

section \<open>Accepting the log-in\<close>

text \<open>The call itself: it saves the handler and the out-arguments and posts the rest.\<close>

definition async_accept_log_in :: "accept_out \<Rightarrow> handler \<Rightarrow> server_session \<Rightarrow> server_session" where
  "async_accept_log_in outs on_done_func s = s\<lparr> s_out := outs, m_log_in_on_done_func := Some on_done_func \<rparr>"

text \<open>
  The task posted onto thread W. The answers: the credentials the system reports for the
  socket's peer, the binary name it was invoked as, the same credentials asked from the
  channel, the identity of the new channel, and \<^verbatim>\<open>expect_log_in_request()\<close>.
\<close>

record accept_env =
  ae_os_proc_creds :: "error_code + process_creds"
  ae_os_proc_invoked_as :: "error_code + string"
  ae_opposing_proc_creds :: "error_code option"
  ae_new_channel :: nat
  ae_expect_ok :: bool

definition accept_log_in_start :: "accept_env \<Rightarrow> server_session \<Rightarrow> server_session res" where
  "accept_log_in_start env s =
     (case (case ae_os_proc_creds env of
              Inl e \<Rightarrow> Some e
            | Inr creds \<Rightarrow> (case ae_os_proc_invoked_as env of Inl e \<Rightarrow> Some e | Inr name \<Rightarrow> None)) of
        Some err_code \<Rightarrow> finish_log_in (Some err_code) (s\<lparr> m_master_sock_stm := False \<rparr>)
      | None \<Rightarrow>
          let s = s\<lparr> m_master_sock_stm := False \<rparr> in
          ensure (ae_opposing_proc_creds env = None) ''It really should not fail that early.'' (
          ensure (m_master_channel s = None) ''!m_master_channel'' (
          Inr (s\<lparr> m_master_channel := Some (ae_new_channel env), s_expect_log_in := ae_expect_ok env \<rparr>))))"

text \<open>
  The functions the acceptor of sessions supplies: the lookup of a client application by name,
  the choice of a client namespace (its value for this session), the set-up before the response,
  and the user's \<^verbatim>\<open>n_init_channels_by_srv_req_func\<close> and \<^verbatim>\<open>mdt_load_func\<close>.
\<close>

record accept_callbacks =
  cli_app_lookup_func :: "string \<Rightarrow> Client_app option"
  cli_namespace_func :: shared_name
  pre_rsp_setup_func :: "error_code option"
  n_init_channels_by_srv_req_func :: "Client_app \<Rightarrow> 64 word \<Rightarrow> mdt \<Rightarrow> 64 word"
  mdt_load_func :: "Client_app \<Rightarrow> 64 word \<Rightarrow> mdt \<Rightarrow> mdt"

text \<open>The checks of the log-in request, in their order; \<open>Inr\<close> of the application if all pass.\<close>

definition check_creds :: "Client_app \<Rightarrow> process_creds \<Rightarrow> process_creds \<Rightarrow> string \<Rightarrow> bool" where
  "check_creds app claimed_proc_creds os_proc_creds os_proc_invoked_as \<longleftrightarrow>
     \<not> (claimed_proc_creds \<noteq> os_proc_creds \<or> m_exec_path app \<noteq> os_proc_invoked_as \<or>
        m_user_id app \<noteq> pc_user_id claimed_proc_creds \<or> m_group_id app \<noteq> pc_group_id claimed_proc_creds)"

definition check_log_in_req ::
    "session_lib \<Rightarrow> session_cfg \<Rightarrow> accept_callbacks \<Rightarrow> process_creds \<Rightarrow> string \<Rightarrow> log_in_req \<Rightarrow> server_session \<Rightarrow>
     (server_session \<times> (error_code + Client_app)) res" where
  "check_log_in_req L cfg cb os_proc_creds os_proc_invoked_as root s =
     (case compute_negotiated_proto_ver L (lq_max_proto_ver root) of
        Some e \<Rightarrow> Inr (s, Inl e)
      | None \<Rightarrow> (case compute_negotiated_proto_ver L (lq_max_proto_ver_aux root) of
          Some e \<Rightarrow> Inr (s, Inl e)
        | None \<Rightarrow>
          if lq_shm_type root \<noteq> S_SHM_TYPE_OR_NONE cfg \<or> lq_mq_type root \<noteq> S_MQ_TYPE_OR_NONE cfg \<or>
             lq_native_handles root \<noteq> S_TRANSMIT_NATIVE_HANDLES cfg
          then Inr (s, Inl (make_error_code S_SERVER_MASTER_LOG_IN_REQUEST_CONFIG_MISMATCH))
          else if lq_n_init_by_cli root \<noteq> 0 \<and> out_by_cli_req (s_out s) = None
          then Inr (s, Inl (make_error_code S_INVALID_ARGUMENT))
          else (case cli_app_lookup_func cb (lq_own_app root) of
              None \<Rightarrow> Inr (s, Inl (make_error_code S_SERVER_MASTER_LOG_IN_REQUEST_CLIENT_APP_DISALLOWED_OR_UNKNOWN))
            | Some app \<Rightarrow>
                if lq_own_app root \<notin> set (m_allowed_client_apps (m_srv_app_ref s))
                then Inr (s, Inl (make_error_code S_SERVER_MASTER_LOG_IN_REQUEST_CLIENT_APP_DISALLOWED_OR_UNKNOWN))
                else
                  res_bind (set_cli_app_ptr (Some app) s) (\<lambda>s.
                  if \<not> check_creds app (lq_creds root) os_proc_creds os_proc_invoked_as
                  then Inr (s, Inl (make_error_code S_SERVER_MASTER_LOG_IN_REQUEST_CLIENT_APP_INCONSISTENT_CREDS))
                  else
                    res_bind (set_cli_namespace (lib_sn L) (cli_namespace_func cb) s) (\<lambda>s.
                    case pre_rsp_setup_func cb of
                      Some e \<Rightarrow> Inr (s, Inl e)
                    | None \<Rightarrow> Inr (s, Inr app))))))"

text \<open>The response, with the number of channels the server wants (a \<^verbatim>\<open>size_t\<close>).\<close>

definition fill_log_in_rsp ::
    "accept_callbacks \<Rightarrow> Client_app \<Rightarrow> log_in_req \<Rightarrow> 64 word \<Rightarrow> server_session \<Rightarrow> msg" where
  "fill_log_in_rsp cb app root n_init_channels s =
     \<lparr> body = LogInRsp
         \<lparr> lr_max_proto_ver = 1, lr_max_proto_ver_aux = 1,
           lr_cli_namespace = cli_namespace s,
           lr_mdt = mdt_load_func cb app (lq_n_init_by_cli root) (lq_mdt root),
           lr_n_init_by_srv = n_init_channels - lq_n_init_by_cli root \<rparr>,
       native_handle_or_null = None \<rparr>"

definition total_init_channels :: "accept_callbacks \<Rightarrow> Client_app \<Rightarrow> log_in_req \<Rightarrow> server_session \<Rightarrow> 64 word" where
  "total_init_channels cb app root s =
     (if out_by_srv_req (s_out s) \<noteq> None
      then lq_n_init_by_cli root +
           n_init_channels_by_srv_req_func cb app (lq_n_init_by_cli root) (lq_mdt root)
      else lq_n_init_by_cli root)"

section \<open>The init-channels\<close>

text \<open>
  The answers for the channel with a given index: its resources, the sending of its message
  and, for the last one, what \<^verbatim>\<open>sync_request()\<close> yields (whether there is a response, the error).
\<close>

record srv_init_env =
  si_resources :: resource_env
  si_send :: send_answer
  si_acked :: bool
  si_err :: "error_code option"

text \<open>How one round ends: \<open>ok\<close> and \<^verbatim>\<open>err_code\<close>.\<close>

definition send_init_channel :: "bool \<Rightarrow> srv_init_env \<Rightarrow> bool \<times> error_code option" where
  "send_init_channel is_last env =
     (if is_last then (si_acked env, si_err env)
      else (case si_send env of
          Sent_ok \<Rightarrow> (True, None)
        | Sent_err e \<Rightarrow> (False, Some e)
        | Refused \<Rightarrow> (False, None)))"

text \<open>
  The loop over the indices; \<open>k\<close> rounds are left and \<open>init_channels\<close> is what was opened so far
  (in a failing round the code has also appended a channel that nobody gets to see).
\<close>

fun open_init_channels ::
    "session_lib \<Rightarrow> session_cfg \<Rightarrow> (nat \<Rightarrow> srv_init_env) \<Rightarrow> nat \<Rightarrow> channel_obj list \<Rightarrow> server_session \<Rightarrow>
     (server_session \<times> channel_obj list \<times> bool \<times> error_code option) res" where
  "open_init_channels L cfg env 0 init_channels s = Inr (s, init_channels, True, None)"
| "open_init_channels L cfg env (Suc k) init_channels s =
     (let e = env (length init_channels) in
      res_bind (create_channel_and_resources L cfg (si_resources e) True s) (\<lambda>(s, r).
      if \<not> cr_ok r then
        Inr (s, init_channels, False,
          Some (make_error_code S_SESSION_OPEN_CHANNEL_SERVER_CANNOT_PROCEED_RESOURCE_UNAVAILABLE))
      else
        let init_channels' = init_channels @ [cr_channel r];
            (ok, err_code) = send_init_channel (k = 0) e;
            s = (if ok then s\<lparr> s_sent := s_sent s @ [open_channel_req_msg (prepared_req r)] \<rparr> else s)
        in if \<not> ok then Inr (s, init_channels, False, err_code)
           else if k = 0 then Inr (s, init_channels', True, err_code)
           else open_init_channels L cfg env k init_channels' s))"

text \<open>
  Hand them out: the first ones to the container for the client's, the rest to the one for the
  server's, then the metadata.
\<close>

definition emit_init_channels ::
    "nat \<Rightarrow> nat \<Rightarrow> channel_obj list \<Rightarrow> mdt \<Rightarrow> server_session \<Rightarrow> server_session res" where
  "emit_init_channels n_init_channels n_init_channels_by_cli_req init_channels mdt_from_cli s =
     (let out = s_out s in
      if out_by_cli_req out \<noteq> None \<and> length init_channels < n_init_channels_by_cli_req
      then Inl (Uncaught ''init_channels[idx] out of range'')
      else
        let (idx, out) = (if out_by_cli_req out \<noteq> None
              then (n_init_channels_by_cli_req,
                    out\<lparr> out_by_cli_req := Some (take n_init_channels_by_cli_req init_channels) \<rparr>)
              else (0, out));
            (idx, out) = (if out_by_srv_req out \<noteq> None
              then (n_init_channels, out\<lparr> out_by_srv_req := Some (drop idx init_channels) \<rparr>)
              else (idx, out))
        in ensure (idx = n_init_channels) ''idx == n_init_channels'' (
           Inr (s\<lparr> s_out := (if out_mdt_from_cli out \<noteq> None
                             then out\<lparr> out_mdt_from_cli := Some (Some mdt_from_cli) \<rparr> else out) \<rparr>)))"

text \<open>
  The handler of the log-in request: the checks, the response (\<open>rsp\<close>: how sending it ends), the
  init-channels, the completion handler.
\<close>

definition finish_with_init_channels ::
    "session_lib \<Rightarrow> session_cfg \<Rightarrow> (nat \<Rightarrow> srv_init_env) \<Rightarrow> nat \<Rightarrow> nat \<Rightarrow> mdt \<Rightarrow> server_session \<Rightarrow>
     server_session res" where
  "finish_with_init_channels L cfg env n_init_channels n_init_channels_by_cli_req mdt_from_cli s =
     res_bind (open_init_channels L cfg env n_init_channels [] s) (\<lambda>(s, init_channels, ok, err_code).
     if ok then
       res_bind (emit_init_channels n_init_channels n_init_channels_by_cli_req init_channels mdt_from_cli s) (\<lambda>s.
       ensure (err_code = None) ''!err_code'' (finish_log_in None s))
     else (case err_code of
         None \<Rightarrow> Inr s
       | Some e \<Rightarrow> finish_log_in (Some e) (s\<lparr> m_master_channel := None \<rparr>)))"

definition on_log_in_req ::
    "session_lib \<Rightarrow> session_cfg \<Rightarrow> accept_callbacks \<Rightarrow> process_creds \<Rightarrow> string \<Rightarrow> send_answer \<Rightarrow>
     (nat \<Rightarrow> srv_init_env) \<Rightarrow> msg \<Rightarrow> server_session \<Rightarrow> server_session res" where
  "on_log_in_req L cfg cb os_proc_creds os_proc_invoked_as rsp env log_in_req s =
     (let s = s\<lparr> s_expect_log_in := False \<rparr> in
      ensure (m_master_channel s \<noteq> None)
        ''We should not get invoked, if on_master_channel_error() was invoked'' (
      res_bind (getLogInReq log_in_req) (\<lambda>root.
      res_bind (check_log_in_req L cfg cb os_proc_creds os_proc_invoked_as root s) (\<lambda>(s, result).
      case result of
        Inl err_code \<Rightarrow> finish_log_in (Some err_code) (s\<lparr> m_master_channel := None \<rparr>)
      | Inr app \<Rightarrow>
          let n_init_channels = total_init_channels cb app root s in
          (case rsp of
             Refused \<Rightarrow> Inr s
           | Sent_err err_code \<Rightarrow> finish_log_in (Some err_code) (s\<lparr> m_master_channel := None \<rparr>)
           | Sent_ok \<Rightarrow>
               let s = s\<lparr> s_sent := s_sent s @ [fill_log_in_rsp cb app root n_init_channels s] \<rparr> in
               if n_init_channels = 0 then
                 finish_log_in None (if out_mdt_from_cli (s_out s) \<noteq> None
                   then s\<lparr> s_out := (s_out s)\<lparr> out_mdt_from_cli := Some (Some (lq_mdt root)) \<rparr> \<rparr> else s)
               else finish_with_init_channels L cfg env (unat n_init_channels) (unat (lq_n_init_by_cli root))
                      (lq_mdt root) s)))))"

section \<open>Destruction\<close>

text \<open>
  As on the client side \<open>None\<close> is a destructor that blocks. Then thread W is gone: a log-in
  handler still pending is run with the shutdown code, and last the subclass's task.
\<close>

definition dtor_async_worker_stop :: "session_cfg \<Rightarrow> server_session \<Rightarrow> server_session option" where
  "dtor_async_worker_stop cfg s =
     (if S_GRACEFUL_FINISH_REQUIRED cfg
      then (case m_graceful_finisher s of
          None \<Rightarrow> Some s
        | Some f \<Rightarrow> if on_dtor_start_returns f then Some s else None)
      else Some s)"

definition dtor_Server_session_impl :: "session_cfg \<Rightarrow> server_session \<Rightarrow> server_session option" where
  "dtor_Server_session_impl cfg s = map_option (\<lambda>s.
     let s = (case m_log_in_on_done_func s of
           None \<Rightarrow> s
         | Some h \<Rightarrow> s\<lparr> s_done_calls := s_done_calls s @
             [(h, Some (make_error_code S_OBJECT_SHUTDOWN_ABORTED_COMPLETION_HANDLER))] \<rparr>)
     in (case m_deinit_func_or_empty s of
           None \<Rightarrow> s
         | Some task \<Rightarrow> s\<lparr> s_deinit_calls := s_deinit_calls s @ [task] \<rparr>))
     (dtor_async_worker_stop cfg s)"

end
