(* ===== verification/Session_Server.thy ===== *)
theory Session_Server
  imports Server_Session
begin

text \<open>
  \<^verbatim>\<open>detail/session_server_impl.hpp\<close>: the acceptor of server sessions. The constructor writes the
  namespace store and starts to listen; \<open>async_accept\<close> accepts a socket stream, then lets a new
  server session undergo its log-in, and hands it to the user or reports the error. The handlers
  of the stream acceptor and of the sessions' threads are one function each.

  A pending accept of the stream acceptor and an incomplete session carry what the lambdas of the
  code capture (\<open>accept_request\<close>). Incomplete sessions are numbered. \<open>v_done_calls\<close> logs
  the runs of the users' handlers; \<open>v_requests\<close>, the handlers passed in; \<open>v_targets\<close>, the sessions moved to
  users.
\<close>

record accept_request =
  rq_target :: nat \<comment> \<open>the user's \<^verbatim>\<open>Server_session\<close> object to move into\<close>
  rq_out :: accept_out
  rq_n_init :: "Client_app \<Rightarrow> 64 word \<Rightarrow> mdt \<Rightarrow> 64 word"
  rq_mdt_load :: "Client_app \<Rightarrow> 64 word \<Rightarrow> mdt \<Rightarrow> mdt"
  rq_on_done :: handler

record session_server =
  v_srv_app_ref :: Server_app
  m_cli_app_master_set_ref :: Client_app_master_set
  m_per_app_setup_func :: "Client_app \<Rightarrow> error_code option"
  m_last_cli_namespace :: "64 word"
  m_incomplete_sessions :: "(nat \<times> server_session \<times> accept_request) list"
  m_master_sock_acceptor :: "accept_request list option" \<comment> \<open>\<open>None\<close> is the null pointer; the accepts pending in it\<close>
  m_incomplete_session_graveyard :: "server_session list option" \<comment> \<open>the sessions posted to it; \<open>None\<close> once destroyed\<close>
  v_graveyard_started :: bool
  v_deinit_func_or_empty :: "handler option"
  v_own_process_id :: process_id_t
  v_next_session :: nat
  v_targets :: "(nat \<times> server_session) list"
  v_requests :: "handler list"
  v_done_calls :: "(handler \<times> error_code option) list"
  v_deinit_calls :: "handler list"

section \<open>The constructor\<close>

text \<open>
  What the constructor changes outside the process: the persistent message queues, the file of the
  namespace store (its content; \<open>None\<close> if there is none) and whether its mode was set. And what the
  system answers: the own credentials, the creation of the mutex, the opening of the file for
  writing (an \<^verbatim>\<open>errno\<close> if it fails), the check of its owner, the setting of its mode, the writing of
  its line and the creation of the stream acceptor.
\<close>

record kernel_state =
  ks_mqs :: "shared_name list"
  ks_cns :: "fs_path \<rightharpoonup> string"
  ks_cns_mode_set :: bool

record ctor_env =
  ct_own_creds :: process_creds
  ct_mutex :: "shared_name \<Rightarrow> error_code option"
  ct_open :: "int option"
  ct_posix :: posix
  ct_set_mode :: "error_code option"
  ct_write :: "int option"
  ct_acceptor :: "shared_name \<Rightarrow> error_code option"

text \<open>Removal of the queues left over by earlier instances of the application.\<close>

definition remove_stale_mqs :: "session_lib \<Rightarrow> session_cfg \<Rightarrow> Server_app \<Rightarrow> kernel_state \<Rightarrow> kernel_state res" where
  "remove_stale_mqs L cfg srv k =
     (if S_MQS_ENABLED cfg then
        res_bind (build_conventional_shared_name_prefix (lib_sn L) (MQ_RESOURCE_TYPE_ID (lib_sn L)) (m_name srv))
          (\<lambda>p. Inr (k\<lparr> ks_mqs := filter (\<lambda>n. \<not> prefix p n) (ks_mqs k) \<rparr>))
      else Inr k)"

text \<open>
  Writing the namespace store, under the mutex: \<open>own_ns\<close> is the server namespace. Opening the file
  for writing truncates it; the owner is checked and the mode set before anything is written.
\<close>

definition write_cns ::
    "session_lib \<Rightarrow> ctor_env \<Rightarrow> Server_app \<Rightarrow> shared_name \<Rightarrow> kernel_state \<Rightarrow>
     (kernel_state \<times> error_code option) res" where
  "write_cns L env srv own_ns k =
     (let cns_path = cur_ns_store_absolute_path L srv;
          we_created_cns = (ks_cns k cns_path = None);
          k = (if ct_open env = None then k\<lparr> ks_cns := (ks_cns k)(cns_path \<mapsto> []) \<rparr> else k) in
      res_bind (ensure_resource_owner_is_app (ct_posix env) cns_path srv []) (\<lambda>(our_err_code, fds).
      let (k, our_err_code) =
            (if our_err_code = None \<and> we_created_cns
             then (if ct_set_mode env = None then k\<lparr> ks_cns_mode_set := True \<rparr> else k, ct_set_mode env)
             else (k, our_err_code))
      in if our_err_code \<noteq> None then Inr (k, our_err_code)
         else case (if ct_open env \<noteq> None then ct_open env else ct_write env) of
             Some errno \<Rightarrow> Inr (k, Some (System_err errno))
           | None \<Rightarrow> Inr (k\<lparr> ks_cns := (ks_cns k)(cns_path \<mapsto> own_ns @ [CHR 0x0A]) \<rparr>, None)))"

text \<open>The checks and the store: \<open>base\<close> is the short-lived dummy session the names are taken from.\<close>

definition publish_namespace ::
    "session_lib \<Rightarrow> ctor_env \<Rightarrow> Server_app \<Rightarrow> session_base \<Rightarrow> kernel_state \<Rightarrow>
     (kernel_state \<times> error_code option) res" where
  "publish_namespace L env srv base k =
     (if pc_user_id (ct_own_creds env) \<noteq> m_user_id srv \<or> pc_group_id (ct_own_creds env) \<noteq> m_group_id srv
      then Inr (k, Some (make_error_code S_RESOURCE_OWNER_UNEXPECTED))
      else
        res_bind (cur_ns_store_mutex_absolute_name L srv) (\<lambda>mutex_name.
        case ct_mutex env mutex_name of
          Some e \<Rightarrow> Inr (k, Some e)
        | None \<Rightarrow> write_cns L env srv (srv_namespace base) k))"

text \<open>
  \<open>emit\<close>: the caller passed an \<^verbatim>\<open>Error_code*\<close>; otherwise errors are thrown. The graveyard thread is
  started, as the code has it, only if there is an \<^verbatim>\<open>Error_code*\<close>.
\<close>

datatype ctor_result = Constructed session_server "error_code option" | Thrown error_code

definition Session_server_impl ::
    "session_lib \<Rightarrow> session_cfg \<Rightarrow> ctor_env \<Rightarrow> process_id_t \<Rightarrow> Server_app \<Rightarrow> Client_app_master_set \<Rightarrow>
     (Client_app \<Rightarrow> error_code option) \<Rightarrow> bool \<Rightarrow> kernel_state \<Rightarrow> (kernel_state \<times> ctor_result) res" where
  "Session_server_impl L cfg env own_process_id srv_app_ref cli_app_master_set_ref per_app_setup_func emit k =
     (let s = \<lparr> v_srv_app_ref = srv_app_ref, m_cli_app_master_set_ref = cli_app_master_set_ref,
            m_per_app_setup_func = per_app_setup_func, m_last_cli_namespace = 0,
            m_incomplete_sessions = [], m_master_sock_acceptor = None,
            m_incomplete_session_graveyard = Some [], v_graveyard_started = False,
            v_deinit_func_or_empty = None, v_own_process_id = own_process_id, v_next_session = 0,
            v_targets = [], v_requests = [], v_done_calls = [], v_deinit_calls = [] \<rparr>;
          base = Session_base_srv own_process_id srv_app_ref in
      res_bind (remove_stale_mqs L cfg srv_app_ref k) (\<lambda>k.
      res_bind (publish_namespace L env srv_app_ref base k) (\<lambda>(k, our_err_code).
      case our_err_code of
        Some e \<Rightarrow> Inr (k, if emit then Constructed s (Some e) else Thrown e)
      | None \<Rightarrow>
          res_bind (session_master_socket_stream_acceptor_absolute_name L base) (\<lambda>acc_name.
          case ct_acceptor env acc_name of
            Some e \<Rightarrow> Inr (k, if emit then Constructed (s\<lparr> m_master_sock_acceptor := Some [] \<rparr>) (Some e)
                             else Thrown e)
          | None \<Rightarrow> Inr (k, Constructed (s\<lparr> m_master_sock_acceptor := Some [], v_graveyard_started := emit \<rparr>) None)))))"

section \<open>Accepting\<close>

text \<open>Issue the accept of a socket stream; \<open>target\<close> is the pointer to the user's session object.\<close>

definition async_accept :: "nat option \<Rightarrow> accept_request \<Rightarrow> session_server \<Rightarrow> session_server res" where
  "async_accept target rq s =
     ensure (target \<noteq> None) ''target_session'' (
     case m_master_sock_acceptor s of
       None \<Rightarrow> Inl (Assert ''By contract do not invoke async_accept() if ctor failed.'')
     | Some pending \<Rightarrow> Inr (s\<lparr> m_master_sock_acceptor := Some (pending @ [rq\<lparr> rq_target := the target \<rparr>]),
                              v_requests := v_requests s @ [rq_on_done rq] \<rparr>))"

definition on_done :: "accept_request \<Rightarrow> error_code option \<Rightarrow> session_server \<Rightarrow> session_server" where
  "on_done rq err_code s = s\<lparr> v_done_calls := v_done_calls s @ [(rq_on_done rq, err_code)] \<rparr>"

definition translate_aborted :: "error_code \<Rightarrow> error_code" where
  "translate_aborted err_code =
     (if err_code = Transport_err T_OBJECT_SHUTDOWN_ABORTED_COMPLETION_HANDLER
      then make_error_code S_OBJECT_SHUTDOWN_ABORTED_COMPLETION_HANDLER else err_code)"

text \<open>The acceptor's handler, run for the oldest pending accept.\<close>

definition on_socket_accepted :: "error_code option \<Rightarrow> session_server \<Rightarrow> session_server res" where
  "on_socket_accepted err_code s = (case m_master_sock_acceptor s of
     Some (rq # pending) \<Rightarrow>
       let s = s\<lparr> m_master_sock_acceptor := Some pending \<rparr> in
       (case err_code of
          Some e \<Rightarrow> Inr (on_done rq (Some (translate_aborted e)) s)
        | None \<Rightarrow>
            let incomplete_session = Server_session_impl (v_own_process_id s) (v_srv_app_ref s) in
            Inr (s\<lparr> m_incomplete_sessions := m_incomplete_sessions s @
                     [(v_next_session s,
                       Server_Session.async_accept_log_in (rq_out rq) (v_next_session s) incomplete_session, rq)],
                    v_next_session := v_next_session s + 1 \<rparr>))
   | _ \<Rightarrow> Inl (Uncaught ''no accept is pending''))"

text \<open>
  The functions handed to the session; \<open>own_app\<close> is the name in its log-in request, whose
  application is what \<^verbatim>\<open>cli_app_ptr()\<close> is when the set-up function runs.
\<close>

definition cli_app_lookup :: "session_server \<Rightarrow> string \<Rightarrow> Client_app option" where
  "cli_app_lookup s cli_app_name = m_cli_app_master_set_ref s cli_app_name"

definition next_cli_namespace :: "session_server \<Rightarrow> shared_name" where
  "next_cli_namespace s = to_string (unat (m_last_cli_namespace s + 1))"

definition callbacks_of :: "session_server \<Rightarrow> accept_request \<Rightarrow> string \<Rightarrow> accept_callbacks" where
  "callbacks_of s rq own_app =
     \<lparr> cli_app_lookup_func = cli_app_lookup s,
       cli_namespace_func = next_cli_namespace s,
       pre_rsp_setup_func = (case cli_app_lookup s own_app of None \<Rightarrow> None | Some app \<Rightarrow> m_per_app_setup_func s app),
       n_init_channels_by_srv_req_func = rq_n_init rq,
       mdt_load_func = rq_mdt_load rq \<rparr>"

text \<open>
  The session's log-in handler: remove the session; on error hand it to the graveyard and report;
  on success move it to the user and report.
\<close>

definition on_log_in_done ::
    "nat \<Rightarrow> server_session \<Rightarrow> accept_request \<Rightarrow> error_code option \<Rightarrow> session_server \<Rightarrow> session_server res" where
  "on_log_in_done n incomplete_session rq async_err_code s =
     ensure (n \<in> fst ` set (m_incomplete_sessions s)) ''Who else would have erased it?!'' (
     let s = s\<lparr> m_incomplete_sessions := filter (\<lambda>x. fst x \<noteq> n) (m_incomplete_sessions s) \<rparr> in
     case async_err_code of
       Some e \<Rightarrow> (case m_incomplete_session_graveyard s of
           None \<Rightarrow> Inl (Uncaught ''m_incomplete_session_graveyard used after its destruction'')
         | Some g \<Rightarrow> Inr (on_done rq (Some e)
             (s\<lparr> m_incomplete_session_graveyard := Some (g @ [incomplete_session]) \<rparr>)))
     | None \<Rightarrow> Inr (on_done rq None
         (s\<lparr> v_targets := v_targets s @ [(rq_target rq, incomplete_session)] \<rparr>)))"

text \<open>
  A task \<open>f\<close> of the thread of incomplete session \<open>n\<close>; if it runs the session's log-in handler, the
  above follows.
\<close>

definition in_session ::
    "nat \<Rightarrow> (server_session \<Rightarrow> server_session res) \<Rightarrow> session_server \<Rightarrow> session_server res" where
  "in_session n f s = (case map_of (m_incomplete_sessions s) n of
     None \<Rightarrow> Inl (Uncaught ''no such session'')
   | Some (session, rq) \<Rightarrow> res_bind (f session) (\<lambda>session'.
       if s_done_calls session' = s_done_calls session
       then Inr (s\<lparr> m_incomplete_sessions := map (\<lambda>x. if fst x = n then (n, session', rq) else x)
                      (m_incomplete_sessions s) \<rparr>)
       else on_log_in_done n session' rq (snd (last (s_done_calls session'))) s))"

text \<open>The three tasks of an incomplete session; the log-in one may take the next namespace.\<close>

definition session_start :: "nat \<Rightarrow> accept_env \<Rightarrow> session_server \<Rightarrow> session_server res" where
  "session_start n env s = in_session n (accept_log_in_start env) s"

definition session_error :: "session_cfg \<Rightarrow> nat \<Rightarrow> error_code \<Rightarrow> session_server \<Rightarrow> session_server res" where
  "session_error cfg n err_code s = in_session n (Server_Session.on_master_channel_error cfg err_code) s"

definition session_log_in ::
    "session_lib \<Rightarrow> session_cfg \<Rightarrow> nat \<Rightarrow> process_creds \<Rightarrow> string \<Rightarrow> send_answer \<Rightarrow> (nat \<Rightarrow> srv_init_env) \<Rightarrow> msg \<Rightarrow>
     session_server \<Rightarrow> session_server res" where
  "session_log_in L cfg n creds name rsp env m s = (case map_of (m_incomplete_sessions s) n of
     None \<Rightarrow> Inl (Uncaught ''no such session'')
   | Some (session, rq) \<Rightarrow>
       res_bind (getLogInReq m) (\<lambda>root.
       let cb = callbacks_of s rq (lq_own_app root) in
       res_bind (on_log_in_req L cfg cb creds name rsp env m session) (\<lambda>session'.
       let s = (if m_cli_namespace session' \<noteq> m_cli_namespace session
                then s\<lparr> m_last_cli_namespace := m_last_cli_namespace s + 1 \<rparr> else s)
       in in_session n (\<lambda>_. Inr session') s)))"

section \<open>Destruction\<close>

text \<open>
  The members of \<^verbatim>\<open>State\<close> that matter here, in the order of their declaration (the mutex, declared before the
  graveyard, has no state of its own). \<^verbatim>\<open>m_state.reset()\<close> destroys them in the reverse order: with the graveyard what was
  posted to it, with the stream acceptor its pending accepts, which are aborted, with the set of incomplete sessions each of these.
\<close>

datatype state_member = Incomplete_sessions | Master_sock_acceptor | Incomplete_session_graveyard

definition state_members :: "state_member list" where
  "state_members = [Incomplete_sessions, Master_sock_acceptor, Incomplete_session_graveyard]"

definition dtor_graveyard :: "session_server \<Rightarrow> session_server" where
  "dtor_graveyard s = s\<lparr> m_incomplete_session_graveyard := None \<rparr>"

definition dtor_acceptor :: "session_server \<Rightarrow> session_server" where
  "dtor_acceptor s = (case m_master_sock_acceptor s of
     None \<Rightarrow> s
   | Some pending \<Rightarrow> fold (\<lambda>rq. on_done rq (Some (translate_aborted (Transport_err
         T_OBJECT_SHUTDOWN_ABORTED_COMPLETION_HANDLER)))) pending (s\<lparr> m_master_sock_acceptor := None \<rparr>))"

text \<open>
  Each session runs its own destructor; its log-in handler then finds that the session is gone and
  forwards the code, asserting that it is the one for aborted operations.
\<close>

fun dtor_incomplete ::
    "session_cfg \<Rightarrow> (nat \<times> server_session \<times> accept_request) list \<Rightarrow> session_server \<Rightarrow> session_server res option" where
  "dtor_incomplete cfg [] s = Some (Inr s)"
| "dtor_incomplete cfg ((n, session, rq) # rest) s = (case dtor_Server_session_impl cfg session of
     None \<Rightarrow> None
   | Some session' \<Rightarrow>
       if s_done_calls session' = s_done_calls session then dtor_incomplete cfg rest s
       else
         let async_err_code = snd (last (s_done_calls session')) in
         if async_err_code = Some (make_error_code S_OBJECT_SHUTDOWN_ABORTED_COMPLETION_HANDLER)
         then dtor_incomplete cfg rest (on_done rq async_err_code s)
         else Some (Inl (Assert ''The incomplete-session Server_session_dtl can only disappear under us if *this is destroyed'')))"

text \<open>
  The set of incomplete sessions is unordered: \<open>ord\<close> gives the order in which its elements go. \<open>None\<close>: a session's destructor blocks.
\<close>

type_synonym incomplete_list = "(nat \<times> server_session \<times> accept_request) list"

definition dtor_member ::
    "session_cfg \<Rightarrow> (incomplete_list \<Rightarrow> incomplete_list) \<Rightarrow> state_member \<Rightarrow> session_server \<Rightarrow> session_server res option" where
  "dtor_member cfg ord m s = (case m of
     Incomplete_sessions \<Rightarrow> dtor_incomplete cfg (ord (m_incomplete_sessions s)) (s\<lparr> m_incomplete_sessions := [] \<rparr>)
   | Master_sock_acceptor \<Rightarrow> Some (Inr (dtor_acceptor s))
   | Incomplete_session_graveyard \<Rightarrow> Some (Inr (dtor_graveyard s)))"

text \<open>One member after the other, with the states in between, the last one included.\<close>

fun dtor_members ::
    "session_cfg \<Rightarrow> (incomplete_list \<Rightarrow> incomplete_list) \<Rightarrow> state_member list \<Rightarrow> session_server \<Rightarrow>
     session_server list \<times> session_server res option" where
  "dtor_members cfg ord [] s = ([], Some (Inr s))"
| "dtor_members cfg ord (m # ms) s = (case dtor_member cfg ord m s of
     Some (Inr s') \<Rightarrow> (let (ts, r) = dtor_members cfg ord ms s' in (s' # ts, r))
   | r \<Rightarrow> ([], r))"

definition reset_state ::
    "session_cfg \<Rightarrow> (incomplete_list \<Rightarrow> incomplete_list) \<Rightarrow> session_server \<Rightarrow> session_server list \<times> session_server res option" where
  "reset_state cfg ord s = dtor_members cfg ord (rev state_members) s"

text \<open>The destructor, when nothing happens in between; the states it goes through; at last the subclass's task.\<close>

definition dtor_Session_server_impl ::
    "session_cfg \<Rightarrow> (incomplete_list \<Rightarrow> incomplete_list) \<Rightarrow> session_server \<Rightarrow> session_server list \<times> session_server res option" where
  "dtor_Session_server_impl cfg ord s = (case reset_state cfg ord s of (ts, r) \<Rightarrow>
     (ts, map_option (\<lambda>r. res_bind r (\<lambda>s. Inr (case v_deinit_func_or_empty s of
            None \<Rightarrow> s
          | Some task \<Rightarrow> s\<lparr> v_deinit_calls := v_deinit_calls s @ [task] \<rparr>))) r))"

definition sub_class_set_deinit_func :: "handler \<Rightarrow> session_server \<Rightarrow> session_server" where
  "sub_class_set_deinit_func task s = s\<lparr> v_deinit_func_or_empty := Some task \<rparr>"

text \<open>The graveyard's thread, once started, destroys the sessions posted to it.\<close>

definition graveyard_work :: "session_cfg \<Rightarrow> session_server \<Rightarrow> session_server" where
  "graveyard_work cfg s = (case m_incomplete_session_graveyard s of
     Some (g # gs) \<Rightarrow> if v_graveyard_started s \<and> dtor_Server_session_impl cfg g \<noteq> None
       then s\<lparr> m_incomplete_session_graveyard := Some gs \<rparr> else s
   | _ \<Rightarrow> s)"

end
