(* ===== verification/Server_System.thy ===== *)
theory Server_System
  imports Server_Session
begin

text \<open>
  The server session as a state machine, from the call of \<open>async_accept_log_in\<close> on: the tasks
  of thread W and the user's calls in any order the documented behaviour of the master channel
  allows. The invariant relates the log-in handler, the channel, the cached error and what was
  emitted.
\<close>

record server_sys =
  ss :: server_session
  sst :: chan_status
  started :: bool \<comment> \<open>the task posted by \<open>async_accept_log_in\<close> has run\<close>

text \<open>
  The channel after the log-in request was handled: if the handler returned early an operation
  was refused, if all went well no operation failed, and otherwise the session has dropped
  the channel.
\<close>

inductive after_log_in :: "server_session \<Rightarrow> chan_status \<Rightarrow> chan_status \<Rightarrow> bool" where
  "m_log_in_on_done_func s \<noteq> None \<Longrightarrow> after_log_in s Ch_ok (Ch_err_pending e)"
| "m_log_in_on_done_func s \<noteq> None \<Longrightarrow> after_log_in s (Ch_err_pending e) (Ch_err_pending e)"
| "m_log_in_on_done_func s = None \<Longrightarrow> m_master_channel s \<noteq> None \<Longrightarrow> after_log_in s Ch_ok Ch_ok"
| "m_log_in_on_done_func s = None \<Longrightarrow> m_master_channel s = None \<Longrightarrow> after_log_in s st st'"

inductive_simps after_log_in_simps [simp]: "after_log_in s st st'"

definition logged_in :: "server_session \<Rightarrow> bool" where
  "logged_in s \<longleftrightarrow> (\<exists>h. s_done_calls s = [(h, None)])"

definition server_ini :: "server_sys \<Rightarrow> bool" where
  "server_ini x \<longleftrightarrow> (\<exists>pid srv outs h. x =
     \<lparr> ss = async_accept_log_in outs h (Server_session_impl pid srv), sst = Ch_ok, started = False \<rparr>)"

inductive server_step :: "session_lib \<Rightarrow> session_cfg \<Rightarrow> server_sys \<Rightarrow> server_sys \<Rightarrow> bool"
  for L :: session_lib and cfg :: session_cfg where
  start:
    "\<not> started x \<Longrightarrow> op_answer Ch_ok (ae_expect_ok env) st' \<Longrightarrow>
     accept_log_in_start env (ss x) = Inr s' \<Longrightarrow>
     server_step L cfg x \<lparr> ss = s', sst = (if m_master_channel s' = None then Ch_ok else st'), started = True \<rparr>"
| channel_fails:
    "m_master_channel (ss x) \<noteq> None \<Longrightarrow> sst x = Ch_ok \<Longrightarrow>
     server_step L cfg x (x\<lparr> sst := Ch_err_pending e \<rparr>)"
| error:
    "sst x = Ch_err_pending e \<Longrightarrow> on_master_channel_error cfg e (ss x) = Inr s' \<Longrightarrow>
     server_step L cfg x (x\<lparr> ss := s', sst := Ch_err_emitted \<rparr>)"
| log_in_req:
    "m_master_channel (ss x) \<noteq> None \<Longrightarrow> s_expect_log_in (ss x) \<Longrightarrow>
     on_log_in_req L cfg cb creds name rsp env m (ss x) = Inr s' \<Longrightarrow>
     after_log_in s' (sst x) st' \<Longrightarrow>
     server_step L cfg x (x\<lparr> ss := s', sst := st' \<rparr>)"
| init_handlers:
    "logged_in (ss x) \<Longrightarrow>
     (if handlers_are_set (ss x) \<or> m_pre_init_err_code (ss x) \<noteq> None then st' = sst x
      else op_answer (sst x) expect_ok st') \<Longrightarrow>
     init_handlers_impl cfg expect_ok (Some h) p (ss x) = Inr (b, s') \<Longrightarrow>
     server_step L cfg x (x\<lparr> ss := s', sst := st' \<rparr>)"
| cached_error:
    "s_hose_posted (ss x) \<Longrightarrow> emit_cached_error (ss x) = Inr s' \<Longrightarrow>
     server_step L cfg x (x\<lparr> ss := s' \<rparr>)"
| open_channel_req:
    "m_master_channel (ss x) \<noteq> None \<Longrightarrow> s_expect_open (ss x) \<Longrightarrow> sending (sst x) (sp_rsp env) st' \<Longrightarrow>
     on_master_channel_open_channel_req L cfg env m (ss x) = Inr s' \<Longrightarrow>
     server_step L cfg x (x\<lparr> ss := s', sst := st' \<rparr>)"
| mdt_builder:
    "logged_in (ss x) \<Longrightarrow> mdt_builder L cfg renv (ss x) = Inr (mdt, s') \<Longrightarrow>
     server_step L cfg x (x\<lparr> ss := s' \<rparr>)"
| open_channel:
    "handlers_are_set (ss x) \<Longrightarrow> requesting (sst x) (so_rsp env) (so_err env) st' \<Longrightarrow>
     (if mdt = None \<or> or_opened_channel (the mdt) = Blank then st' = sst x else True) \<Longrightarrow>
     open_channel env mdt err (ss x) = Inr (r, s') \<Longrightarrow>
     server_step L cfg x (x\<lparr> ss := s', sst := st' \<rparr>)"

section \<open>The invariant\<close>

definition server_inv :: "server_sys \<Rightarrow> bool" where
  "server_inv x \<longleftrightarrow> (let s = ss x; st = sst x in
     (m_log_in_on_done_func s \<noteq> None \<longleftrightarrow> s_done_calls s = []) \<and> length (s_done_calls s) \<le> 1 \<and>
     (\<not> started x \<longrightarrow> s_done_calls s = [] \<and> m_master_channel s = None \<and> st = Ch_ok \<and> \<not> s_expect_log_in s \<and>
        m_cli_app_ptr s = None \<and> m_cli_namespace s = []) \<and>
     (started x \<and> s_done_calls s = [] \<longrightarrow> m_master_channel s \<noteq> None \<and> st \<noteq> Ch_err_emitted \<and>
        (st = Ch_ok \<longrightarrow> s_expect_log_in s)) \<and>
     (s_done_calls s \<noteq> [] \<longrightarrow> \<not> s_expect_log_in s \<and> (m_master_channel s \<noteq> None \<longleftrightarrow> logged_in s)) \<and>
     (s_expect_log_in s \<longrightarrow> m_cli_app_ptr s = None \<and> m_cli_namespace s = []) \<and>
     (logged_in s \<longrightarrow> m_cli_app_ptr s \<noteq> None \<and> m_cli_namespace s \<noteq> []) \<and>
     (\<not> logged_in s \<longrightarrow> \<not> handlers_are_set s \<and> m_pre_init_err_code s = None) \<and>
     (\<not> handlers_are_set s \<longrightarrow> m_peer_state_err_code_or_ok s = None \<and> \<not> s_hose_posted s \<and>
        \<not> s_expect_open s \<and> s_passive_calls s = [] \<and> m_on_passive_open_channel_func_or_empty s = None) \<and>
     (logged_in s \<and> \<not> handlers_are_set s \<longrightarrow> (m_pre_init_err_code s \<noteq> None \<longleftrightarrow> st = Ch_err_emitted)) \<and>
     (handlers_are_set s \<and> m_pre_init_err_code s \<noteq> None \<longrightarrow> st = Ch_err_emitted \<and> \<not> s_expect_open s \<and>
        (s_hose_posted s \<longleftrightarrow> m_peer_state_err_code_or_ok s = None)) \<and>
     (handlers_are_set s \<and> m_pre_init_err_code s = None \<longrightarrow> \<not> s_hose_posted s \<and>
        (m_peer_state_err_code_or_ok s \<noteq> None \<longleftrightarrow> st = Ch_err_emitted)) \<and>
     (m_peer_state_err_code_or_ok s \<noteq> None \<and> m_pre_init_err_code s \<noteq> None \<longrightarrow>
        m_peer_state_err_code_or_ok s = m_pre_init_err_code s) \<and>
     (m_peer_state_err_code_or_ok s = None \<longrightarrow> fired s = []) \<and>
     (\<forall>e. m_peer_state_err_code_or_ok s = Some e \<longrightarrow> fired s = [(the (m_on_err_func s), e)]))"

section \<open>What each operation does\<close>

lemma finish_log_in_Inr:
  "finish_log_in e s = Inr s' \<longleftrightarrow> (\<exists>h. m_log_in_on_done_func s = Some h \<and>
     s' = s\<lparr> s_done_calls := s_done_calls s @ [(h, e)], m_log_in_on_done_func := None \<rparr>)"
  by (auto simp: finish_log_in_def split: option.splits)

text \<open>What opening channels may change: the counters, the message queues, the log of messages.\<close>

definition res_frame :: "server_session \<Rightarrow> server_session \<Rightarrow> bool" where
  "res_frame s t \<longleftrightarrow> t = s\<lparr> m_last_actively_opened_channel_id := m_last_actively_opened_channel_id t,
     m_last_passively_opened_channel_id := m_last_passively_opened_channel_id t,
     m_last_channel_mq_id := m_last_channel_mq_id t, s_mqs := s_mqs t, s_sent := s_sent t \<rparr>"

lemma res_frame_upd [simp]: "res_frame s s"
  "res_frame s (t\<lparr> s_sent := ms \<rparr>) = res_frame s t" "res_frame s (t\<lparr> s_mqs := l \<rparr>) = res_frame s t"
  "res_frame s (t\<lparr> m_last_channel_mq_id := q \<rparr>) = res_frame s t"
  "res_frame s (t\<lparr> m_last_actively_opened_channel_id := q \<rparr>) = res_frame s t"
  "res_frame s (t\<lparr> m_last_passively_opened_channel_id := q \<rparr>) = res_frame s t"
  by (cases s; cases t; simp add: res_frame_def)+

lemma res_frame_trans: "res_frame s t \<Longrightarrow> res_frame t u \<Longrightarrow> res_frame s u"
  by (cases s; cases t; cases u) (simp add: res_frame_def)

lemma res_frameE:
  assumes "res_frame s t"
  obtains a p q l ms where "t = s\<lparr> m_last_actively_opened_channel_id := a,
    m_last_passively_opened_channel_id := p, m_last_channel_mq_id := q, s_mqs := l, s_sent := ms \<rparr>"
  using assms unfolding res_frame_def by blast

lemma make_channel_mqs_frame:
  assumes "make_channel_mqs L env s = Inr (s', r)"
  shows "res_frame s s'"
  using assms by (auto simp: make_channel_mqs_def Let_def res_bind_eq_Inr split: option.splits)

lemma create_frame:
  assumes "create_channel_and_resources L cfg env act s = Inr (s', r)"
  shows "res_frame s s'"
proof -
  obtain nick t where n: "channel_nickname act s = (nick, t)" by fastforce
  then have t: "res_frame s t"
    by (auto simp: channel_nickname_def Let_def split: if_splits)
  have m: "res_frame t s'" if "create_mq_channel L cfg env nick t = Inr (s', r)"
  proof -
    from that obtain t1 m where m: "make_channel_mqs L env t = Inr (t1, m)"
      by (auto simp: create_mq_channel_def res_bind_eq_Inr)
    with that make_channel_mqs_frame [OF m] show ?thesis
      by (auto simp: create_mq_channel_def Let_def split: sum.splits if_splits)
  qed
  from assms n have "s' = t \<or> create_mq_channel L cfg env nick t = Inr (s', r)"
    by (auto simp: create_channel_and_resources_def split: if_splits sum.splits)
  with t m show ?thesis using res_frame_trans by blast
qed

lemma open_init_frame:
  assumes "open_init_channels L cfg env k chans s = Inr (s', chans', ok, e)"
  shows "res_frame s s'"
  using assms
proof (induction k arbitrary: chans s)
  case 0
  then show ?case by simp
next
  case (Suc k)
  let ?e = "env (length chans)"
  from Suc.prems obtain t r where c: "create_channel_and_resources L cfg (si_resources ?e) True s = Inr (t, r)"
    by (auto simp: Let_def res_bind_eq_Inr)
  note t = create_frame [OF c]
  obtain o1 e1 where o1: "send_init_channel (k = 0) ?e = (o1, e1)" by fastforce
  let ?t = "if o1 then t\<lparr> s_sent := s_sent t @ [open_channel_req_msg (prepared_req r)] \<rparr> else t"
  have t': "res_frame s ?t" using t by simp
  from Suc.prems c o1 have "s' = t \<or> s' = ?t \<or>
      open_init_channels L cfg env k (chans @ [cr_channel r]) ?t = Inr (s', chans', ok, e)"
    by (auto simp: Let_def split: if_splits)
  then show ?case using t t' res_frame_trans [OF t' Suc.IH] by blast
qed

lemma emit_srv_Inr:
  "emit_init_channels n k chans md s = Inr s' \<Longrightarrow> \<exists>out. s' = s\<lparr> s_out := out \<rparr>"
  by (cases s) (auto simp: emit_init_channels_def Let_def split: if_splits)

lemma check_log_in_req_cases:
  assumes "check_log_in_req L cfg cb creds name root s = Inr (s', r)"
  shows "(\<exists>e a ns. r = Inl e \<and> s' = s\<lparr> m_cli_app_ptr := a, m_cli_namespace := ns \<rparr>) \<or>
    (\<exists>app. r = Inr app \<and> cli_namespace_func cb \<noteq> [] \<and>
       s' = s\<lparr> m_cli_app_ptr := Some app, m_cli_namespace := cli_namespace_func cb \<rparr>)"
  using assms
  by (cases s) (auto simp: check_log_in_req_def res_bind_eq_Inr set_cli_namespace_def set_cli_app_ptr_def
      split: option.splits if_splits)

lemma finish_with_cases:
  assumes "finish_with_init_channels L cfg env n k md s = Inr s'"
  shows "\<exists>out u. res_frame s u \<and>
    ((\<exists>e h. m_log_in_on_done_func s = Some h \<and> s' = u\<lparr> m_master_channel := None,
        s_done_calls := s_done_calls s @ [(h, Some e)], m_log_in_on_done_func := None \<rparr>) \<or> s' = u \<or>
     (\<exists>h. m_log_in_on_done_func s = Some h \<and> s' = u\<lparr> s_out := out,
        s_done_calls := s_done_calls s @ [(h, None)], m_log_in_on_done_func := None \<rparr>))"
proof -
  from assms obtain u chans ok e where o: "open_init_channels L cfg env n [] s = Inr (u, chans, ok, e)"
    by (auto simp: finish_with_init_channels_def res_bind_eq_Inr)
  note f = open_init_frame [OF o]
  then have u: "m_log_in_on_done_func u = m_log_in_on_done_func s" "s_done_calls u = s_done_calls s"
    by (auto elim: res_frameE)
  from assms o have "(\<exists>t. ok \<and> emit_init_channels n k chans md u = Inr t \<and> finish_log_in None t = Inr s') \<or>
      s' = u \<or> (\<exists>e. finish_log_in (Some e) (u\<lparr> m_master_channel := None \<rparr>) = Inr s')"
    by (auto simp: finish_with_init_channels_def res_bind_eq_Inr split: if_splits option.splits)
  then show ?thesis
  proof (elim disjE exE conjE)
    fix t assume t: "emit_init_channels n k chans md u = Inr t" "finish_log_in None t = Inr s'"
    from emit_srv_Inr [OF t(1)] obtain out where "t = u\<lparr> s_out := out \<rparr>" by blast
    with t(2) u f show ?thesis by (intro exI [of _ out] exI [of _ u]) (auto simp: finish_log_in_Inr)
  next
    assume "s' = u" with f show ?thesis by blast
  next
    fix e assume "finish_log_in (Some e) (u\<lparr> m_master_channel := None \<rparr>) = Inr s'"
    with u f show ?thesis by (intro exI [of _ undefined] exI [of _ u]) (auto simp: finish_log_in_Inr)
  qed
qed

lemma log_in_req_after_checks:
  assumes "on_log_in_req L cfg cb creds name rsp env m s = Inr s'"
  obtains root t r where
    "check_log_in_req L cfg cb creds name root (s\<lparr> s_expect_log_in := False \<rparr>) = Inr (t, r)"
    "\<And>e. r = Inl e \<Longrightarrow> finish_log_in (Some e) (t\<lparr> m_master_channel := None \<rparr>) = Inr s'"
    "\<And>app. r = Inr app \<Longrightarrow> s' = t \<or> (\<exists>e. finish_log_in (Some e) (t\<lparr> m_master_channel := None \<rparr>) = Inr s') \<or>
        (\<exists>ms. (\<exists>out. finish_log_in None (t\<lparr> s_sent := ms, s_out := out \<rparr>) = Inr s') \<or>
           (\<exists>n k. finish_with_init_channels L cfg env n k (lq_mdt root) (t\<lparr> s_sent := ms \<rparr>) = Inr s'))"
proof -
  from assms obtain root t r where g: "getLogInReq m = Inr root"
    "check_log_in_req L cfg cb creds name root (s\<lparr> s_expect_log_in := False \<rparr>) = Inr (t, r)"
    by (auto simp: on_log_in_req_def res_bind_eq_Inr)
  show thesis
  proof (rule that [OF g(2)])
    show "finish_log_in (Some e) (t\<lparr> m_master_channel := None \<rparr>) = Inr s'" if "r = Inl e" for e
      using assms g that by (simp add: on_log_in_req_def)
  next
    fix app assume r: "r = Inr app"
    let ?n = "total_init_channels cb app root t"
    let ?ms = "s_sent t @ [fill_log_in_rsp cb app root ?n t]"
    let ?t = "t\<lparr> s_sent := ?ms \<rparr>"
    have same: "?t = t\<lparr> s_sent := ?ms, s_out := s_out t \<rparr>" by (cases t) simp
    from assms g r have "s' = t \<or> (\<exists>e. finish_log_in (Some e) (t\<lparr> m_master_channel := None \<rparr>) = Inr s') \<or>
      (\<exists>out. finish_log_in None (t\<lparr> s_sent := ?ms, s_out := out \<rparr>) = Inr s') \<or>
      finish_log_in None ?t = Inr s' \<or>
      finish_with_init_channels L cfg env (unat ?n) (unat (lq_n_init_by_cli root)) (lq_mdt root) ?t = Inr s'"
      by (cases rsp) (auto simp: on_log_in_req_def Let_def split: if_splits)
    with same have "s' = t \<or> (\<exists>e. finish_log_in (Some e) (t\<lparr> m_master_channel := None \<rparr>) = Inr s') \<or>
      (\<exists>out. finish_log_in None (t\<lparr> s_sent := ?ms, s_out := out \<rparr>) = Inr s') \<or>
      finish_with_init_channels L cfg env (unat ?n) (unat (lq_n_init_by_cli root)) (lq_mdt root) ?t = Inr s'"
      by metis
    then show "s' = t \<or> (\<exists>e. finish_log_in (Some e) (t\<lparr> m_master_channel := None \<rparr>) = Inr s') \<or>
        (\<exists>ms. (\<exists>out. finish_log_in None (t\<lparr> s_sent := ms, s_out := out \<rparr>) = Inr s') \<or>
           (\<exists>n k. finish_with_init_channels L cfg env n k (lq_mdt root) (t\<lparr> s_sent := ms \<rparr>) = Inr s'))"
      by blast
  qed
qed

text \<open>The three ways the handler of the log-in request ends: with an error, early, with success.\<close>

lemma log_in_req_cases:
  assumes "on_log_in_req L cfg cb creds name rsp env m s = Inr s'"
  shows "\<exists>a ns out u. res_frame (s\<lparr> s_expect_log_in := False, m_cli_app_ptr := a, m_cli_namespace := ns \<rparr>) u \<and>
    ((\<exists>e h. m_log_in_on_done_func s = Some h \<and> s' = u\<lparr> m_master_channel := None,
        s_done_calls := s_done_calls s @ [(h, Some e)], m_log_in_on_done_func := None \<rparr>) \<or> s' = u \<or>
     (a \<noteq> None \<and> ns \<noteq> [] \<and> (\<exists>h. m_log_in_on_done_func s = Some h \<and> s' = u\<lparr> s_out := out,
        s_done_calls := s_done_calls s @ [(h, None)], m_log_in_on_done_func := None \<rparr>)))"
proof (rule log_in_req_after_checks [OF assms], goal_cases)
  case (1 root t r)
  note c = this
  let ?s = "s\<lparr> s_expect_log_in := False \<rparr>"
  from check_log_in_req_cases [OF c(1)] show ?thesis
  proof (elim disjE exE conjE)
    fix e a ns assume "r = Inl e" "t = ?s\<lparr> m_cli_app_ptr := a, m_cli_namespace := ns \<rparr>"
    with c(2) [of e] show ?thesis
      by (intro exI [of _ a] exI [of _ ns] exI [of _ undefined] exI [of _ t]) (auto simp: finish_log_in_Inr)
  next
    fix app assume r: "r = Inr app" and ns: "cli_namespace_func cb \<noteq> []"
      and t: "t = ?s\<lparr> m_cli_app_ptr := Some app, m_cli_namespace := cli_namespace_func cb \<rparr>"
    from c(3) [OF r] show ?thesis
    proof (elim disjE exE)
      assume "s' = t"
      with t show ?thesis by (intro exI [of _ "Some app"] exI [of _ "cli_namespace_func cb"] exI [of _ undefined] exI [of _ t]) simp
    next
      fix e assume "finish_log_in (Some e) (t\<lparr> m_master_channel := None \<rparr>) = Inr s'"
      with t show ?thesis
        by (intro exI [of _ "Some app"] exI [of _ "cli_namespace_func cb"] exI [of _ undefined] exI [of _ t])
          (auto simp: finish_log_in_Inr)
    next
      fix ms out assume "finish_log_in None (t\<lparr> s_sent := ms, s_out := out \<rparr>) = Inr s'"
      with t ns show ?thesis
        by (intro exI [of _ "Some app"] exI [of _ "cli_namespace_func cb"] exI [of _ out] exI [of _ "t\<lparr> s_sent := ms \<rparr>"])
          (auto simp: finish_log_in_Inr)
    next
      fix ms n k assume "finish_with_init_channels L cfg env n k (lq_mdt root) (t\<lparr> s_sent := ms \<rparr>) = Inr s'"
      from finish_with_cases [OF this] obtain out u where u: "res_frame (t\<lparr> s_sent := ms \<rparr>) u"
        "(\<exists>e h. m_log_in_on_done_func t = Some h \<and> s' = u\<lparr> m_master_channel := None,
          s_done_calls := s_done_calls t @ [(h, Some e)], m_log_in_on_done_func := None \<rparr>) \<or> s' = u \<or>
        (\<exists>h. m_log_in_on_done_func t = Some h \<and> s' = u\<lparr> s_out := out,
          s_done_calls := s_done_calls t @ [(h, None)], m_log_in_on_done_func := None \<rparr>)"
        by simp blast
      have "res_frame t u" using u(1) res_frame_trans [of t "t\<lparr> s_sent := ms \<rparr>" u] by simp
      with u(2) t ns show ?thesis
        by (intro exI [of _ "Some app"] exI [of _ "cli_namespace_func cb"] exI [of _ out] exI [of _ u]) auto
    qed
  qed
qed

section \<open>The invariant is kept\<close>

text \<open>The invariant by the phase of the log-in.\<close>

lemma server_inv_waiting:
  assumes "s_done_calls (ss x) = []"
  shows "server_inv x \<longleftrightarrow> (let s = ss x in m_log_in_on_done_func s \<noteq> None \<and> \<not> handlers_are_set s \<and>
    m_pre_init_err_code s = None \<and> m_peer_state_err_code_or_ok s = None \<and> \<not> s_hose_posted s \<and> \<not> s_expect_open s \<and>
    s_passive_calls s = [] \<and> m_on_passive_open_channel_func_or_empty s = None \<and> fired s = [] \<and>
    (s_expect_log_in s \<or> \<not> started x \<longrightarrow> m_cli_app_ptr s = None \<and> m_cli_namespace s = []) \<and>
    (if started x then m_master_channel s \<noteq> None \<and> sst x \<noteq> Ch_err_emitted \<and> (sst x = Ch_ok \<longrightarrow> s_expect_log_in s)
     else m_master_channel s = None \<and> sst x = Ch_ok \<and> \<not> s_expect_log_in s))"
  using assms by (cases "started x") (auto simp: server_inv_def logged_in_def Let_def)

lemma server_inv_failed:
  assumes "s_done_calls (ss x) = [(h, Some e)]"
  shows "server_inv x \<longleftrightarrow> (let s = ss x in m_log_in_on_done_func s = None \<and> \<not> handlers_are_set s \<and>
    m_pre_init_err_code s = None \<and> m_peer_state_err_code_or_ok s = None \<and> \<not> s_hose_posted s \<and> \<not> s_expect_open s \<and>
    s_passive_calls s = [] \<and> m_on_passive_open_channel_func_or_empty s = None \<and> fired s = [] \<and>
    \<not> s_expect_log_in s \<and> started x \<and> m_master_channel s = None)"
  using assms by (cases "started x") (auto simp: server_inv_def logged_in_def Let_def)

lemma server_inv_logged_in:
  assumes "s_done_calls (ss x) = [(h, None)]"
  shows "server_inv x \<longleftrightarrow> (let s = ss x in m_log_in_on_done_func s = None \<and> \<not> s_expect_log_in s \<and>
    started x \<and> m_master_channel s \<noteq> None \<and> m_cli_app_ptr s \<noteq> None \<and> m_cli_namespace s \<noteq> [] \<and>
    fired s = (case m_peer_state_err_code_or_ok s of None \<Rightarrow> [] | Some e \<Rightarrow> [(the (m_on_err_func s), e)]) \<and>
    (if handlers_are_set s then
       (case m_pre_init_err_code s of
          None \<Rightarrow> \<not> s_hose_posted s \<and> (m_peer_state_err_code_or_ok s \<noteq> None \<longleftrightarrow> sst x = Ch_err_emitted)
        | Some e \<Rightarrow> sst x = Ch_err_emitted \<and> \<not> s_expect_open s \<and>
            m_peer_state_err_code_or_ok s = (if s_hose_posted s then None else Some e))
     else m_peer_state_err_code_or_ok s = None \<and> \<not> s_hose_posted s \<and> \<not> s_expect_open s \<and> s_passive_calls s = [] \<and>
       m_on_passive_open_channel_func_or_empty s = None \<and> (m_pre_init_err_code s \<noteq> None \<longleftrightarrow> sst x = Ch_err_emitted)))"
  using assms
  by (cases "m_peer_state_err_code_or_ok (ss x)"; cases "handlers_are_set (ss x)"; cases "m_pre_init_err_code (ss x)")
    (auto simp: server_inv_def logged_in_def Let_def)

lemmas server_inv_phases = server_inv_waiting server_inv_failed server_inv_logged_in

lemma server_phase:
  assumes "server_inv x"
  obtains (waiting) "s_done_calls (ss x) = []"
  | (failed) h e where "s_done_calls (ss x) = [(h, Some e)]"
  | (logged) h where "s_done_calls (ss x) = [(h, None)]"
proof -
  have "length (s_done_calls (ss x)) \<le> 1" using assms by (simp add: server_inv_def Let_def)
  then show thesis using that
    by (cases "s_done_calls (ss x)") (auto, metis option.exhaust)
qed

lemma server_inv_init: "server_ini x \<Longrightarrow> server_inv x"
  by (auto simp: server_ini_def server_inv_def Let_def async_accept_log_in_def Server_session_impl_def
      session_base.defs Session_base_srv_def logged_in_def handlers_are_set_def on_err_func_set_def)

lemma server_inv_start:
  assumes "server_inv x" "\<not> started x" "op_answer Ch_ok (ae_expect_ok env) st'"
    "accept_log_in_start env (ss x) = Inr s'"
  shows "server_inv \<lparr> ss = s', sst = (if m_master_channel s' = None then Ch_ok else st'), started = True \<rparr>"
proof -
  have d: "s_done_calls (ss x) = []" using assms(1,2) by (auto simp: server_inv_def Let_def)
  from assms(4) consider (refused) e h where "m_log_in_on_done_func (ss x) = Some h"
      "s' = (ss x)\<lparr> m_master_sock_stm := False, s_done_calls := [(h, Some e)], m_log_in_on_done_func := None \<rparr>"
    | (started) c where "s' = (ss x)\<lparr> m_master_sock_stm := False, m_master_channel := Some c, s_expect_log_in := ae_expect_ok env \<rparr>"
    by (auto simp: accept_log_in_start_def finish_log_in_Inr d Let_def split: sum.splits option.splits)
  then show ?thesis
  proof cases
    case refused
    with assms(1,2) d show ?thesis by (simp add: server_inv_phases handlers_are_set_def on_err_func_set_def Let_def)
  next
    case started
    with assms(1-3) d show ?thesis
      by (cases "ae_expect_ok env") (auto simp: server_inv_phases handlers_are_set_def on_err_func_set_def Let_def)
  qed
qed

lemma server_inv_pending:
  assumes "server_inv x" "sst x = Ch_ok" "m_master_channel (ss x) \<noteq> None"
  shows "server_inv (x\<lparr> sst := Ch_err_pending e \<rparr>)"
  using assms by (auto simp: server_inv_def Let_def)

lemma server_inv_frame:
  assumes "server_inv x" "res_frame (ss x) t"
  shows "server_inv (x\<lparr> ss := t \<rparr>)"
  using assms(2)
  by (rule res_frameE) (use assms(1) in \<open>simp add: server_inv_def Let_def logged_in_def handlers_are_set_def on_err_func_set_def\<close>)

lemma server_inv_error:
  assumes "server_inv x" "sst x = Ch_err_pending e" "on_master_channel_error cfg e (ss x) = Inr s'"
  shows "server_inv (x\<lparr> ss := s', sst := Ch_err_emitted \<rparr>)"
  using assms(1)
proof (cases rule: server_phase)
  case waiting
  with assms show ?thesis
    by (auto simp: server_inv_phases on_master_channel_error_def finish_log_in_Inr
      handlers_are_set_def on_err_func_set_def Let_def split: if_splits)
next
  case failed
  with assms show ?thesis
    by (auto simp: server_inv_phases on_master_channel_error_def finish_log_in_Inr
      handlers_are_set_def on_err_func_set_def Let_def split: if_splits)
next
  case (logged h)
  note inv = assms(1) [unfolded server_inv_logged_in [of x, OF logged] Let_def]
  show ?thesis
  proof (cases "handlers_are_set (ss x)")
    case False
    with logged inv assms(2,3) show ?thesis
      by (auto simp: server_inv_logged_in on_master_channel_error_def handlers_are_set_def on_err_func_set_def Let_def)
  next
    case True
    then obtain f where f: "m_on_err_func (ss x) = Some f" by (auto simp: handlers_are_set_def on_err_func_set_def)
    from inv True assms(2) have p: "m_peer_state_err_code_or_ok (ss x) = None" "m_pre_init_err_code (ss x) = None"
      by (auto split: option.splits)
    let ?t = "(ss x)\<lparr> m_peer_state_err_code_or_ok := Some e, fired := [(f, e)] \<rparr>"
    from f p inv True assms(2,3) have "s' = ?t \<or> (\<exists>g. s' = ?t\<lparr> m_graceful_finisher := g \<rparr>)"
      by (auto simp: on_master_channel_error_def res_bind_eq_Inr hose_Inr split: if_splits option.splits)
    with f p logged inv True show ?thesis
      by (auto simp: server_inv_logged_in handlers_are_set_def on_err_func_set_def Let_def)
  qed
qed

lemma server_inv_log_in_req:
  assumes "server_inv x" "m_master_channel (ss x) \<noteq> None" "s_expect_log_in (ss x)"
    "on_log_in_req L cfg cb creds name rsp env m (ss x) = Inr s'" "after_log_in s' (sst x) st'"
  shows "server_inv (x\<lparr> ss := s', sst := st' \<rparr>)"
proof -
  from log_in_req_cases [OF assms(4)] obtain a ns out u where
    u: "res_frame (ss x\<lparr> s_expect_log_in := False, m_cli_app_ptr := a, m_cli_namespace := ns \<rparr>) u" and
    s': "(\<exists>e h. m_log_in_on_done_func (ss x) = Some h \<and> s' = u\<lparr> m_master_channel := None,
        s_done_calls := s_done_calls (ss x) @ [(h, Some e)], m_log_in_on_done_func := None \<rparr>) \<or> s' = u \<or>
     (a \<noteq> None \<and> ns \<noteq> [] \<and> (\<exists>h. m_log_in_on_done_func (ss x) = Some h \<and> s' = u\<lparr> s_out := out,
        s_done_calls := s_done_calls (ss x) @ [(h, None)], m_log_in_on_done_func := None \<rparr>))" by blast
  have d: "s_done_calls (ss x) = []" "started x" using assms(1,3) by (auto simp: server_inv_def Let_def)
  note inv = assms(1) [unfolded server_inv_waiting [of x, OF d(1)] Let_def]
  from u show ?thesis
  proof (rule res_frameE)
    fix a1 p q l ms
    assume u: "u = ss x\<lparr> s_expect_log_in := False, m_cli_app_ptr := a, m_cli_namespace := ns,
      m_last_actively_opened_channel_id := a1, m_last_passively_opened_channel_id := p,
      m_last_channel_mq_id := q, s_mqs := l, s_sent := ms \<rparr>"
    from s' show ?thesis
    proof (elim disjE exE conjE, goal_cases)
      case 1
      with u inv d assms(2) show ?case
        by (simp add: server_inv_failed handlers_are_set_def on_err_func_set_def Let_def)
    next
      case 2
      with u inv d assms(2,5) show ?case
        by (auto simp: server_inv_waiting handlers_are_set_def on_err_func_set_def Let_def)
    next
      case 3
      with u inv d assms(2,5) show ?case
        by (auto simp: server_inv_logged_in handlers_are_set_def on_err_func_set_def Let_def)
    qed
  qed
qed

lemma server_inv_init_handlers:
  assumes "server_inv x" "logged_in (ss x)"
    "if handlers_are_set (ss x) \<or> m_pre_init_err_code (ss x) \<noteq> None then st' = sst x
      else op_answer (sst x) expect_ok st'"
    "init_handlers_impl cfg expect_ok (Some h) p (ss x) = Inr (b, s')"
  shows "server_inv (x\<lparr> ss := s', sst := st' \<rparr>)"
proof (cases "handlers_are_set (ss x)")
  case True
  with assms have "s' = ss x" "st' = sst x" by (simp_all add: init_handlers_impl_def)
  with assms(1) show ?thesis by simp
next
  case False
  from assms(2) obtain k where d: "s_done_calls (ss x) = [(k, None)]" by (auto simp: logged_in_def)
  note inv = assms(1) [unfolded server_inv_logged_in [of x, OF d] Let_def]
  let ?t = "(ss x)\<lparr> m_on_err_func := Some h, m_on_passive_open_channel_func_or_empty := p \<rparr>"
  show ?thesis
  proof (cases "m_pre_init_err_code (ss x)")
    case (Some e)
    with assms(4) False have "s' = ?t\<lparr> s_hose_posted := True \<rparr>"
      by (auto simp: init_handlers_impl_def set_on_err_func_def set_on_passive_open_channel_func_def res_bind_eq_Inr)
    with Some False d inv assms(3) show ?thesis
      by (auto simp: server_inv_logged_in handlers_are_set_def on_err_func_set_def Let_def)
  next
    case None
    with assms(4) False obtain t where t: "t = (if expect_ok then ?t\<lparr> s_expect_open := True \<rparr> else ?t)"
      "s' = t \<or> s' = t\<lparr> m_graceful_finisher := Some Graceful_finisher \<rparr>"
      by (auto simp: init_handlers_impl_def set_on_err_func_def set_on_passive_open_channel_func_def
        res_bind_eq_Inr Let_def split: if_splits)
    with None False d inv assms(3) show ?thesis
      by (cases expect_ok) (auto simp: server_inv_logged_in handlers_are_set_def on_err_func_set_def Let_def)
  qed
qed

lemma server_inv_cached_error:
  assumes "server_inv x" "s_hose_posted (ss x)" "emit_cached_error (ss x) = Inr s'"
  shows "server_inv (x\<lparr> ss := s' \<rparr>)"
  using assms(1)
proof (cases rule: server_phase)
  case (logged h)
  note inv = assms(1) [unfolded server_inv_logged_in [of x, OF logged] Let_def]
  with assms(2) obtain f where f: "m_on_err_func (ss x) = Some f"
    by (auto simp: handlers_are_set_def on_err_func_set_def split: if_splits)
  with inv assms(2) obtain e where "m_pre_init_err_code (ss x) = Some e" "m_peer_state_err_code_or_ok (ss x) = None"
    by (auto split: if_splits option.splits)
  with f inv logged assms(2,3) show ?thesis
    by (auto simp: server_inv_logged_in emit_cached_error_def hose_Inr res_bind_eq_Inr handlers_are_set_def
      on_err_func_set_def Let_def split: if_splits)
qed (use assms in \<open>simp_all add: server_inv_phases Let_def\<close>)

lemma mdt_builder_frame:
  assumes "mdt_builder L cfg renv s = Inr (mdt, s')"
  shows "res_frame s s'"
proof (cases "handlers_are_set s")
  case False
  with assms show ?thesis by (simp add: mdt_builder_def)
next
  case True
  from assms True obtain h where h: "hosed s = Inr h"
    by (cases "hosed s") (simp_all add: mdt_builder_def)
  show ?thesis
  proof (cases h)
    case True
    with assms h \<open>handlers_are_set s\<close> show ?thesis
      by (simp add: mdt_builder_def no_resources_def split: if_splits)
  next
    case False
    with assms h \<open>handlers_are_set s\<close> obtain t r where
      c: "create_channel_and_resources L cfg renv True s = Inr (t, r)"
      by (cases "create_channel_and_resources L cfg renv True s") (auto simp: mdt_builder_def)
    with assms h False \<open>handlers_are_set s\<close> have "s' = t"
      by (simp add: mdt_builder_def split: if_splits)
    with create_frame [OF c] show ?thesis by simp
  qed
qed

lemma server_inv_mdt_builder:
  assumes "server_inv x" "mdt_builder L cfg renv (ss x) = Inr (mdt, s')"
  shows "server_inv (x\<lparr> ss := s' \<rparr>)"
  using server_inv_frame [OF assms(1) mdt_builder_frame [OF assms(2)]] .

lemma server_inv_hose:
  assumes "server_inv x" "sst x = Ch_ok" "handlers_are_set (ss x)" "hose e (ss x) = Inr s'"
  shows "server_inv (x\<lparr> ss := s', sst := Ch_err_emitted \<rparr>)"
proof -
  from assms(4) obtain h where "m_on_err_func (ss x) = Some h" "m_peer_state_err_code_or_ok (ss x) = None"
    "s' = (ss x)\<lparr> m_peer_state_err_code_or_ok := Some e, fired := fired (ss x) @ [(h, e)] \<rparr>"
    by (auto simp: hose_Inr)
  moreover have "started x" "s_done_calls (ss x) \<noteq> []"
    using assms(1,3) by (auto simp: server_inv_def Let_def logged_in_def)
  ultimately show ?thesis using assms(1-3)
    by (cases "m_pre_init_err_code (ss x)")
      (simp_all add: server_inv_def Let_def logged_in_def handlers_are_set_def on_err_func_set_def)
qed

lemma server_inv_handlers_ch:
  assumes "server_inv x" "handlers_are_set (ss x)"
  shows "m_master_channel (ss x) \<noteq> None"
  using assms by (auto simp: server_inv_def Let_def logged_in_def)

lemma srv_open_channel_cases:
  assumes "open_channel env mdt err s = Inr (r, s')"
  shows "(s' = s \<or> (\<exists>ms. s' = s\<lparr> s_sent := ms \<rparr>)) \<and>
      (mdt = None \<or> or_opened_channel (the mdt) = Blank \<or> m_peer_state_err_code_or_ok s \<noteq> None \<or>
       so_err env = None \<or> so_err env = Some (Transport_err T_TIMEOUT)) \<or>
    (\<exists>e. so_err env = Some e \<and> e \<noteq> Transport_err T_TIMEOUT \<and> hose e s = Inr s' \<and> mdt \<noteq> None \<and>
       or_opened_channel (the mdt) \<noteq> Blank)"
  using assms
  by (auto simp: open_channel_def Let_def res_bind_eq_Inr split: option.splits if_splits)

lemma server_inv_open_channel:
  assumes "server_inv x" "handlers_are_set (ss x)" "requesting (sst x) (so_rsp env) (so_err env) st'"
    "if mdt = None \<or> or_opened_channel (the mdt) = Blank then st' = sst x else True"
    "open_channel env mdt err (ss x) = Inr (r, s')"
  shows "server_inv (x\<lparr> ss := s', sst := st' \<rparr>)"
  using srv_open_channel_cases [OF assms(5)]
proof (elim disjE, goal_cases)
  case 1
  have f: "res_frame (ss x) s'" using 1 by auto
  have inv: "server_inv (x\<lparr> ss := s' \<rparr>)" by (rule server_inv_frame [OF assms(1) f])
  show ?case
  proof (cases "st' = sst x")
    case True
    with inv show ?thesis by simp
  next
    case False
    then have "sst x = Ch_ok" "mdt \<noteq> None" "or_opened_channel (the mdt) \<noteq> Blank"
      using assms(3,4) by (auto simp: requesting.simps split: if_splits)
    moreover have "m_peer_state_err_code_or_ok (ss x) = None"
      using assms(1,2) \<open>sst x = Ch_ok\<close> by (cases "m_pre_init_err_code (ss x)") (auto simp: server_inv_def Let_def)
    ultimately have "so_err env = None \<or> so_err env = Some (Transport_err T_TIMEOUT)" using 1 by blast
    with False \<open>sst x = Ch_ok\<close> assms(3) obtain e where "st' = Ch_err_pending e" by (auto simp: requesting.simps)
    moreover have "m_master_channel s' \<noteq> None"
      using server_inv_handlers_ch [OF assms(1,2)] f by (auto elim: res_frameE)
    ultimately show ?thesis using server_inv_pending [OF inv] \<open>sst x = Ch_ok\<close> by simp
  qed
next
  case 2
  then obtain e where e: "hose e (ss x) = Inr s'" "so_err env = Some e" "e \<noteq> Transport_err T_TIMEOUT" by blast
  with assms(3) have "st' = Ch_err_emitted" "sst x = Ch_ok" by (auto simp: requesting.simps)
  with e show ?case using server_inv_hose [OF assms(1) _ assms(2) e(1)] by simp
qed

lemma respond_passive_open_srv_cases:
  assumes "respond_passive_open a result r f md t = Inr s'"
  shows "(a = Refused \<and> s' = t) \<or> (\<exists>e. a = Sent_err e \<and> hose e t = Inr s') \<or>
    (a = Sent_ok \<and> (\<exists>ms. s' = t\<lparr> s_sent := ms \<rparr> \<or> (\<exists>c. s' = t\<lparr> s_sent := ms, s_passive_calls := c \<rparr>)))"
proof (cases a)
  case Sent_ok
  show ?thesis
  proof (cases "result = ACCEPTED")
    case True
    with Sent_ok assms show ?thesis
      by (cases f) (auto simp: respond_passive_open_def Let_def)
  next
    case False
    with Sent_ok assms show ?thesis by (auto simp: respond_passive_open_def Let_def)
  qed
qed (use assms in \<open>simp_all add: respond_passive_open_def\<close>)

lemma decide_passive_open_frame:
  "decide_passive_open L cfg env f s = Inr (t, r, res) \<Longrightarrow> res_frame s t"
  by (auto simp: decide_passive_open_def res_bind_eq_Inr dest: create_frame split: option.splits)

lemma srv_open_channel_req_cases:
  assumes "on_master_channel_open_channel_req L cfg env m s = Inr s'"
  shows "(m_peer_state_err_code_or_ok s \<noteq> None \<and> s' = s) \<or>
    (m_peer_state_err_code_or_ok s = None \<and> (\<exists>t. res_frame s t \<and>
      ((sp_rsp env = Refused \<and> s' = t) \<or> (\<exists>e. sp_rsp env = Sent_err e \<and> hose e t = Inr s') \<or>
       (sp_rsp env = Sent_ok \<and> (\<exists>ms. s' = t\<lparr> s_sent := ms \<rparr> \<or> (\<exists>c. s' = t\<lparr> s_sent := ms, s_passive_calls := c \<rparr>))))))"
proof (cases "m_peer_state_err_code_or_ok s = None")
  case False
  with assms show ?thesis by (auto simp: on_master_channel_open_channel_req_def res_bind_eq_Inr)
next
  case True
  with assms obtain t r res md f where d: "decide_passive_open L cfg (sp_resources env) f s = Inr (t, r, res)"
    "respond_passive_open (sp_rsp env) res r f md t = Inr s'"
    by (auto simp: on_master_channel_open_channel_req_def res_bind_eq_Inr Let_def split: if_splits)
  with True respond_passive_open_srv_cases [OF d(2)] decide_passive_open_frame [OF d(1)] show ?thesis by blast
qed

lemma server_inv_calls:
  assumes "server_inv x" "handlers_are_set (ss x)"
  shows "server_inv (x\<lparr> ss := (ss x)\<lparr> s_sent := ms, s_passive_calls := c \<rparr> \<rparr>)"
proof -
  have "logged_in (ss x)" using assms by (auto simp: server_inv_def Let_def)
  then obtain h where d: "s_done_calls (ss x) = [(h, None)]" by (auto simp: logged_in_def)
  note inv = assms(1) [unfolded server_inv_logged_in [of x, OF d] Let_def]
  with d assms(2) show ?thesis
    by (cases "m_peer_state_err_code_or_ok (ss x)"; cases "m_pre_init_err_code (ss x)")
      (simp_all add: server_inv_logged_in handlers_are_set_def on_err_func_set_def Let_def)
qed

lemma server_inv_open_channel_req:
  assumes "server_inv x" "m_master_channel (ss x) \<noteq> None" "s_expect_open (ss x)" "sending (sst x) (sp_rsp env) st'"
    "on_master_channel_open_channel_req L cfg env m (ss x) = Inr s'"
  shows "server_inv (x\<lparr> ss := s', sst := st' \<rparr>)"
proof -
  have h: "handlers_are_set (ss x)" using assms(1,3) by (auto simp: server_inv_def Let_def)
  have peer: "m_peer_state_err_code_or_ok (ss x) = None \<longleftrightarrow> sst x \<noteq> Ch_err_emitted"
    using assms(1,3) h by (cases "m_pre_init_err_code (ss x)") (auto simp: server_inv_def Let_def)
  from srv_open_channel_req_cases [OF assms(5)] show ?thesis
  proof (elim disjE conjE exE, goal_cases)
    case 1
    then have "x\<lparr> ss := s', sst := st' \<rparr> = x" using assms(4) peer by (cases x) auto
    with assms(1) show ?case by simp
  next
    case (2 t)
    have inv: "server_inv (x\<lparr> ss := t \<rparr>)" by (rule server_inv_frame [OF assms(1) 2(2)])
    moreover have "m_master_channel t \<noteq> None" using 2(2) assms(2) by (auto elim: res_frameE)
    ultimately show ?case
      using 2 assms(4) peer server_inv_pending [OF inv] by auto
  next
    case (3 t e)
    have inv: "server_inv (x\<lparr> ss := t \<rparr>)" by (rule server_inv_frame [OF assms(1) 3(2)])
    have "handlers_are_set t" using 3(2) h by (auto simp: handlers_are_set_def on_err_func_set_def elim: res_frameE)
    with 3 assms(4) server_inv_hose [OF inv] show ?case by auto
  next
    case (4 t ms)
    have inv: "server_inv (x\<lparr> ss := t \<rparr>)" by (rule server_inv_frame [OF assms(1) 4(2)])
    have "res_frame (ss x) s'" using 4 by simp
    note inv' = server_inv_frame [OF assms(1) this]
    have "x\<lparr> ss := s', sst := st' \<rparr> = x\<lparr> ss := s' \<rparr>" using 4(3) assms(4) by (cases x) auto
    with inv' show ?case by simp
  next
    case (5 t ms c)
    have inv: "server_inv (x\<lparr> ss := t \<rparr>)" by (rule server_inv_frame [OF assms(1) 5(2)])
    have "handlers_are_set t" using 5(2) h by (auto simp: handlers_are_set_def on_err_func_set_def elim: res_frameE)
    with 5 server_inv_calls [OF inv, where ms = ms and c = c] have inv': "server_inv (x\<lparr> ss := s' \<rparr>)" by simp
    have "x\<lparr> ss := s', sst := st' \<rparr> = x\<lparr> ss := s' \<rparr>" using 5(3) assms(4) by (cases x) auto
    with inv' show ?case by simp
  qed
qed

interpretation server: invariant_system server_ini "server_step L cfg" server_inv for L cfg
proof (unfold_locales, goal_cases)
  case (1 s)
  then show ?case by (rule server_inv_init)
next
  case (2 s t)
  from 2(2) show ?case
  proof cases
    case start
    show ?thesis unfolding start(1) by (rule server_inv_start [OF 2(1) start(2-4)])
  next
    case channel_fails
    with 2(1) show ?thesis by (auto intro: server_inv_pending)
  next
    case error
    with 2(1) show ?thesis by (auto intro: server_inv_error)
  next
    case log_in_req
    show ?thesis unfolding log_in_req(1) by (rule server_inv_log_in_req [OF 2(1) log_in_req(2-5)])
  next
    case init_handlers
    show ?thesis unfolding init_handlers(1) by (rule server_inv_init_handlers [OF 2(1) init_handlers(2-4)])
  next
    case cached_error
    with 2(1) show ?thesis by (auto intro: server_inv_cached_error)
  next
    case open_channel_req
    show ?thesis unfolding open_channel_req(1) by (rule server_inv_open_channel_req [OF 2(1) open_channel_req(2-5)])
  next
    case mdt_builder
    with 2(1) show ?thesis by (auto intro: server_inv_mdt_builder)
  next
    case open_channel
    show ?thesis unfolding open_channel(1) by (rule server_inv_open_channel [OF 2(1) open_channel(2-5)])
  qed
qed

end
