(* ===== verification/Session_Server_System.thy ===== *)
theory Session_Server_System
  imports Session_Server Server_System "HOL-Library.Multiset"
begin

text \<open>
  The session server as a machine: its operations and the handlers of the threads it works with, in
  any order. Its invariant accounts for every handler passed to \<open>async_accept\<close> and keeps the
  namespaces of the sessions apart.
\<close>

section \<open>Sessions that undergo their log-in\<close>

definition session_ok :: "nat \<Rightarrow> server_session \<Rightarrow> bool" where
  "session_ok n s \<longleftrightarrow> s_done_calls s = [] \<and> m_log_in_on_done_func s = Some n \<and> \<not> handlers_are_set s \<and>
     m_graceful_finisher s = None"

text \<open>How a task of such a session may leave it: its log-in handler not run, or run once.\<close>

definition task_result :: "nat \<Rightarrow> server_session \<Rightarrow> server_session \<Rightarrow> bool" where
  "task_result n s s' \<longleftrightarrow> session_ok n s' \<or>
     (\<exists>r. s_done_calls s' = [(n, r)] \<and> (r = None \<longrightarrow> m_cli_namespace s' \<noteq> []))"

lemma task_start:
  assumes "accept_log_in_start env s = Inr s'" "session_ok n s"
  shows "task_result n s s' \<and> m_cli_namespace s' = m_cli_namespace s"
  using assms
  by (auto simp: accept_log_in_start_def finish_log_in_Inr task_result_def session_ok_def handlers_are_set_def
      on_err_func_set_def split: sum.splits option.splits)

lemma task_error:
  assumes "Server_Session.on_master_channel_error cfg e s = Inr s'" "session_ok n s"
  shows "task_result n s s' \<and> m_cli_namespace s' = m_cli_namespace s"
  using assms
  by (auto simp: Server_Session.on_master_channel_error_def finish_log_in_Inr task_result_def session_ok_def
      split: if_splits)

lemma check_log_in_req_namespace:
  assumes "check_log_in_req L cfg cb creds name root s = Inr (t, r)"
  shows "(m_cli_namespace t = m_cli_namespace s \<and> (\<exists>e. r = Inl e)) \<or>
    (m_cli_namespace s = [] \<and> m_cli_namespace t = cli_namespace_func cb \<and> cli_namespace_func cb \<noteq> [])"
  using assms
  by (auto simp: check_log_in_req_def res_bind_eq_Inr set_cli_namespace_def set_cli_app_ptr_def
      split: option.splits if_splits)

lemma res_frame_finisher: "res_frame s t \<Longrightarrow> m_graceful_finisher t = m_graceful_finisher s"
  "res_frame s t \<Longrightarrow> handlers_are_set t = handlers_are_set s"
  "res_frame s t \<Longrightarrow> m_cli_namespace t = m_cli_namespace s"
  by (auto elim!: res_frameE simp: handlers_are_set_def on_err_func_set_def)

lemma finish_with_namespace:
  assumes "finish_with_init_channels L cfg env n k md s = Inr s'"
  shows "m_cli_namespace s' = m_cli_namespace s"
  using finish_with_cases [OF assms] by (auto dest: res_frame_finisher)

lemma task_log_in:
  assumes "on_log_in_req L cfg cb creds name rsp env m s = Inr s'" "session_ok n s"
  shows "task_result n s s' \<and> (m_cli_namespace s' = m_cli_namespace s \<or>
    m_cli_namespace s = [] \<and> m_cli_namespace s' = cli_namespace_func cb \<and> cli_namespace_func cb \<noteq> [])"
proof
  have "m_cli_namespace s' = m_cli_namespace s \<or>
    m_cli_namespace s = [] \<and> m_cli_namespace s' = cli_namespace_func cb \<and> cli_namespace_func cb \<noteq> []"
  proof (rule log_in_req_after_checks [OF assms(1)], goal_cases)
    case (1 root t r)
    have t: "m_cli_namespace s' = m_cli_namespace t"
    proof (cases r)
      case (Inl e)
      with 1(2) show ?thesis by (auto simp: finish_log_in_Inr)
    next
      case (Inr app)
      from 1(3) [OF this] show ?thesis by (auto simp: finish_log_in_Inr dest: finish_with_namespace)
    qed
    with check_log_in_req_namespace [OF 1(1)] show ?case by auto
  qed
  then show "m_cli_namespace s' = m_cli_namespace s \<or>
    m_cli_namespace s = [] \<and> m_cli_namespace s' = cli_namespace_func cb \<and> cli_namespace_func cb \<noteq> []" .
  from log_in_req_cases [OF assms(1)] assms(2) show "task_result n s s'"
    by (auto simp: task_result_def session_ok_def handlers_are_set_def on_err_func_set_def elim!: res_frameE)
qed

section \<open>Namespaces\<close>

definition namespaces :: "session_server \<Rightarrow> shared_name multiset" where
  "namespaces s = mset (map (\<lambda>(n, session, rq). m_cli_namespace session) (m_incomplete_sessions s)) +
     mset (map (\<lambda>(t, session). m_cli_namespace session) (v_targets s)) +
     mset (map m_cli_namespace (case m_incomplete_session_graveyard s of None \<Rightarrow> [] | Some g \<Rightarrow> g))"

text \<open>The empty name is a session that has no namespace yet.\<close>

definition namespaces_ok :: "shared_name multiset \<Rightarrow> nat \<Rightarrow> bool" where
  "namespaces_ok M l \<longleftrightarrow> (\<forall>x. x \<noteq> [] \<longrightarrow> count M x \<le> 1) \<and>
     (\<forall>x \<in># M. x \<noteq> [] \<longrightarrow> (\<exists>i. 1 \<le> i \<and> i \<le> l \<and> x = to_string i))"

lemma namespaces_ok_mono: "namespaces_ok M l \<Longrightarrow> M' \<subseteq># M \<Longrightarrow> namespaces_ok M' l"
  by (auto simp: namespaces_ok_def dest: mset_subset_eqD mset_subset_eq_count [where a = "_ :: shared_name"] intro: order_trans)

lemma namespaces_ok_empty_name: "namespaces_ok M l \<Longrightarrow> namespaces_ok (add_mset [] M) l"
  by (auto simp: namespaces_ok_def)

lemma namespaces_ok_fresh:
  assumes "namespaces_ok M l"
  shows "namespaces_ok (add_mset (to_string (l + 1)) M) (l + 1)"
proof -
  have "to_string (l + 1) \<notin># M" using assms by (fastforce simp: namespaces_ok_def)
  then have "count M (to_string (l + 1)) = 0" by (simp add: count_eq_zero_iff)
  with assms show ?thesis by (auto simp: namespaces_ok_def le_Suc_eq)
qed

lemma namespaces_ok_replace:
  assumes ok: "namespaces_ok (add_mset x R) l"
    and new: "x' = x \<and> l' = l \<or> x = [] \<and> x' = to_string (l + 1) \<and> l' = l + 1"
  shows "namespaces_ok (add_mset x' R) l'"
  using new
proof
  assume "x = [] \<and> x' = to_string (l + 1) \<and> l' = l + 1"
  moreover have "namespaces_ok R l" by (rule namespaces_ok_mono [OF ok]) simp
  ultimately show ?thesis using namespaces_ok_fresh by simp
qed (use ok in simp)

section \<open>The machine\<close>

text \<open>
  The initial states are those the constructor leaves on success. \<open>log_in\<close> asks for a namespace counter below
  its wrap-around.
\<close>

definition session_server_ini :: "session_lib \<Rightarrow> session_cfg \<Rightarrow> session_server \<Rightarrow> bool" where
  "session_server_ini L cfg s \<longleftrightarrow> (\<exists>env pid srv_app cli_apps setup emit k k'.
     Session_server_impl L cfg env pid srv_app cli_apps setup emit k = Inr (k', Constructed s None))"

inductive session_server_step :: "session_lib \<Rightarrow> session_cfg \<Rightarrow> session_server \<Rightarrow> session_server \<Rightarrow> bool"
  for L :: session_lib and cfg :: session_cfg where
  accept: "Session_Server.async_accept (Some t) rq s = Inr s' \<Longrightarrow> session_server_step L cfg s s'"
| socket: "on_socket_accepted r s = Inr s' \<Longrightarrow> session_server_step L cfg s s'"
| start: "session_start n env s = Inr s' \<Longrightarrow> session_server_step L cfg s s'"
| error: "session_error cfg n e s = Inr s' \<Longrightarrow> session_server_step L cfg s s'"
| log_in:
    "unat (m_last_cli_namespace s) + 1 < 2 ^ 64 \<Longrightarrow> session_log_in L cfg n creds name rsp env m s = Inr s' \<Longrightarrow>
     session_server_step L cfg s s'"
| graveyard: "session_server_step L cfg s (graveyard_work cfg s)"

definition pending_accepts :: "session_server \<Rightarrow> accept_request list" where
  "pending_accepts s = (case m_master_sock_acceptor s of None \<Rightarrow> [] | Some p \<Rightarrow> p)"

definition handlers_accounted :: "session_server \<Rightarrow> bool" where
  "handlers_accounted s \<longleftrightarrow> mset (map fst (v_done_calls s)) + mset (map rq_on_done (pending_accepts s)) +
     mset (map (\<lambda>(n, session, rq). rq_on_done rq) (m_incomplete_sessions s)) = mset (v_requests s)"

definition incomplete_ok :: "session_server \<Rightarrow> bool" where
  "incomplete_ok s \<longleftrightarrow> distinct (map fst (m_incomplete_sessions s)) \<and>
     (\<forall>(n, session, rq) \<in> set (m_incomplete_sessions s). n < v_next_session s \<and> session_ok n session)"

definition targets_ok :: "session_server \<Rightarrow> bool" where
  "targets_ok s \<longleftrightarrow> (\<forall>(t, session) \<in> set (v_targets s). m_cli_namespace session \<noteq> []) \<and>
     length (filter (\<lambda>(h, r). r = None) (v_done_calls s)) = length (v_targets s)"

definition session_server_inv :: "session_server \<Rightarrow> bool" where
  "session_server_inv s \<longleftrightarrow> m_master_sock_acceptor s \<noteq> None \<and> m_incomplete_session_graveyard s \<noteq> None \<and>
     handlers_accounted s \<and> incomplete_ok s \<and> targets_ok s \<and>
     namespaces_ok (namespaces s) (unat (m_last_cli_namespace s))"

lemmas session_server_inv_defs = session_server_inv_def handlers_accounted_def incomplete_ok_def targets_ok_def
  pending_accepts_def namespaces_def

lemma map_of_split:
  assumes "map_of xs n = Some v" "distinct (map fst xs)"
  obtains ys zs where "xs = ys @ (n, v) # zs" "n \<notin> fst ` set ys" "n \<notin> fst ` set zs"
proof -
  from assms(1) have "(n, v) \<in> set xs" by (rule map_of_SomeD)
  then obtain ys zs where "xs = ys @ (n, v) # zs" by (auto dest: split_list)
  with assms(2) that show thesis by auto
qed

lemma filter_key_absent: "n \<notin> fst ` set xs \<Longrightarrow> filter (\<lambda>x. fst x \<noteq> n) xs = xs"
  by (rule filter_True) auto

lemma map_key_absent: "n \<notin> fst ` set xs \<Longrightarrow> map (\<lambda>x. if fst x = n then y else x) xs = xs"
  by (rule map_idI) auto

lemma in_session_const: "map_of (m_incomplete_sessions s) n = Some (session, rq) \<Longrightarrow> f session = Inr session' \<Longrightarrow>
    in_session n f s = in_session n (\<lambda>_. Inr session') s"
  by (simp add: in_session_def)

lemma in_session_InrD:
  assumes "in_session n f s = Inr s'"
  obtains session rq session' where "map_of (m_incomplete_sessions s) n = Some (session, rq)"
    "f session = Inr session'" "in_session n (\<lambda>_. Inr session') s = Inr s'"
  using assms by (auto simp: in_session_def res_bind_eq_Inr split: option.splits)

lemma session_ok_incomplete:
  "session_server_inv s \<Longrightarrow> map_of (m_incomplete_sessions s) n = Some (session, rq) \<Longrightarrow> session_ok n session"
  by (auto simp: session_server_inv_def incomplete_ok_def dest!: map_of_SomeD)

text \<open>A task of session \<open>n\<close> that turns it into \<open>session'\<close>, \<open>l\<close> being the namespace counter then.\<close>

lemma session_server_inv_task:
  assumes inv: "session_server_inv s" and n: "map_of (m_incomplete_sessions s) n = Some (session, rq)"
    and task: "task_result n session session'"
    and ns: "m_cli_namespace session' = m_cli_namespace session \<and> l = m_last_cli_namespace s \<or>
      m_cli_namespace session = [] \<and> m_cli_namespace session' = to_string (unat (m_last_cli_namespace s) + 1) \<and>
        unat l = unat (m_last_cli_namespace s) + 1"
    and run: "in_session n (\<lambda>_. Inr session') (s\<lparr> m_last_cli_namespace := l \<rparr>) = Inr s'"
  shows "session_server_inv s'"
proof -
  from inv have "distinct (map fst (m_incomplete_sessions s))" by (simp add: session_server_inv_def incomplete_ok_def)
  with n obtain ys zs where inc: "m_incomplete_sessions s = ys @ (n, session, rq) # zs"
    and ys: "n \<notin> fst ` set ys" and zs: "n \<notin> fst ` set zs" by (rule map_of_split)
  from inv obtain p g where p: "m_master_sock_acceptor s = Some p" and g: "m_incomplete_session_graveyard s = Some g"
    by (auto simp: session_server_inv_def)
  from inv n have old: "session_ok n session" by (rule session_ok_incomplete)
  note absent = filter_key_absent [OF ys] filter_key_absent [OF zs] map_key_absent [OF ys] map_key_absent [OF zs]
  define R where "R = namespaces s - {# m_cli_namespace session #}"
  have R: "namespaces s = add_mset (m_cli_namespace session) R" by (simp add: R_def namespaces_def inc)
  from inv have "namespaces_ok (namespaces s) (unat (m_last_cli_namespace s))" by (simp add: session_server_inv_def)
  then have ok: "namespaces_ok (add_mset (m_cli_namespace session') R) (unat l)"
    unfolding R by (rule namespaces_ok_replace) (use ns in auto)
  from n have n': "map_of (m_incomplete_sessions (s\<lparr> m_last_cli_namespace := l \<rparr>)) n = Some (session, rq)" by simp
  show ?thesis
  proof (cases "s_done_calls session' = []")
    case True
    with task have new: "session_ok n session'" by (auto simp: task_result_def)
    have s': "s' = s\<lparr> m_last_cli_namespace := l, m_incomplete_sessions := ys @ (n, session', rq) # zs \<rparr>"
      using run n' True old by (simp add: in_session_def session_ok_def inc absent)
    have "namespaces s' = add_mset (m_cli_namespace session') R"
      by (simp add: R_def namespaces_def inc s' g)
    with ok inv new show ?thesis
      by (simp add: session_server_inv_def handlers_accounted_def incomplete_ok_def targets_ok_def
          pending_accepts_def inc s')
  next
    case False
    with task obtain r where r: "s_done_calls session' = [(n, r)]" and named: "r = None \<Longrightarrow> m_cli_namespace session' \<noteq> []"
      by (auto simp: task_result_def session_ok_def)
    have fin: "on_log_in_done n session' rq r (s\<lparr> m_last_cli_namespace := l \<rparr>) = Inr s'"
      using run n' r old by (simp add: in_session_def session_ok_def)
    show ?thesis
    proof (cases r)
      case None
      have s': "s' = s\<lparr> m_last_cli_namespace := l, m_incomplete_sessions := ys @ zs,
          v_targets := v_targets s @ [(rq_target rq, session')], v_done_calls := v_done_calls s @ [(rq_on_done rq, None)] \<rparr>"
        using fin by (simp add: on_log_in_done_def None inc absent on_done_def)
      have "namespaces s' = add_mset (m_cli_namespace session') R"
        by (simp add: R_def namespaces_def inc s' g)
      with ok inv named [OF None] show ?thesis
        by (simp add: session_server_inv_def handlers_accounted_def incomplete_ok_def targets_ok_def
            pending_accepts_def inc s')
    next
      case (Some e)
      have s': "s' = s\<lparr> m_last_cli_namespace := l, m_incomplete_sessions := ys @ zs,
          m_incomplete_session_graveyard := Some (g @ [session']), v_done_calls := v_done_calls s @ [(rq_on_done rq, Some e)] \<rparr>"
        using fin by (simp add: on_log_in_done_def Some inc absent on_done_def g)
      have "namespaces s' = add_mset (m_cli_namespace session') R"
        by (simp add: R_def namespaces_def inc s' g)
      with ok inv show ?thesis
        by (simp add: session_server_inv_def handlers_accounted_def incomplete_ok_def targets_ok_def
            pending_accepts_def inc s')
    qed
  qed
qed

lemma session_server_inv_init: "session_server_ini L cfg s \<Longrightarrow> session_server_inv s"
  by (auto simp: session_server_ini_def Session_server_impl_def res_bind_eq_Inr Let_def session_server_inv_defs
      namespaces_ok_def split: option.splits if_splits)

lemma session_server_inv_accept: "session_server_inv s \<Longrightarrow> Session_Server.async_accept (Some t) rq s = Inr s' \<Longrightarrow> session_server_inv s'"
  by (auto simp: Session_Server.async_accept_def session_server_inv_defs split: option.splits)

lemma session_ok_fresh: "session_ok n (Server_Session.async_accept_log_in out n (Server_session_impl pid app))"
  by (simp add: session_ok_def Server_Session.async_accept_log_in_def Server_session_impl_def handlers_are_set_def
      on_err_func_set_def Session_base_srv_def session_base.defs)

lemma namespace_fresh: "m_cli_namespace (Server_Session.async_accept_log_in out n (Server_session_impl pid app)) = []"
  by (simp add: Server_Session.async_accept_log_in_def Server_session_impl_def Session_base_srv_def session_base.defs)

lemma session_server_inv_socket: "session_server_inv s \<Longrightarrow> on_socket_accepted r s = Inr s' \<Longrightarrow> session_server_inv s'"
proof (cases r)
  case None
  assume inv: "session_server_inv s" and run: "on_socket_accepted r s = Inr s'"
  from run None obtain rq p where p: "m_master_sock_acceptor s = Some (rq # p)"
    by (auto simp: on_socket_accepted_def split: option.splits list.splits)
  let ?x = "Server_Session.async_accept_log_in (rq_out rq) (v_next_session s) (Server_session_impl (v_own_process_id s) (v_srv_app_ref s))"
  have s': "s' = s\<lparr> m_master_sock_acceptor := Some p,
      m_incomplete_sessions := m_incomplete_sessions s @ [(v_next_session s, ?x, rq)],
      v_next_session := v_next_session s + 1 \<rparr>"
    using run None p by (simp add: on_socket_accepted_def Let_def)
  have "namespaces s' = add_mset [] (namespaces s)" by (simp add: namespaces_def s' namespace_fresh)
  moreover have "v_next_session s \<notin> fst ` set (m_incomplete_sessions s)"
    using inv by (fastforce simp: session_server_inv_def incomplete_ok_def)
  ultimately show ?thesis
    using inv p
    by (auto simp: session_server_inv_def handlers_accounted_def incomplete_ok_def targets_ok_def pending_accepts_def
        s' session_ok_fresh namespaces_ok_empty_name)
qed (auto simp: on_socket_accepted_def session_server_inv_defs Let_def on_done_def split: option.splits list.splits)

lemma session_server_inv_graveyard: "session_server_inv s \<Longrightarrow> session_server_inv (graveyard_work cfg s)"
  by (auto simp: graveyard_work_def session_server_inv_defs split: option.splits list.splits
      elim: namespaces_ok_mono)

lemma session_log_in_InrD:
  assumes "session_log_in L cfg n creds name rsp env m s = Inr s'"
  obtains session rq root session' where
    "map_of (m_incomplete_sessions s) n = Some (session, rq)" "getLogInReq m = Inr root"
    "on_log_in_req L cfg (callbacks_of s rq (lq_own_app root)) creds name rsp env m session = Inr session'"
    "in_session n (\<lambda>_. Inr session') (s\<lparr> m_last_cli_namespace := if m_cli_namespace session' \<noteq> m_cli_namespace session
        then m_last_cli_namespace s + 1 else m_last_cli_namespace s \<rparr>) = Inr s'"
proof -
  from assms obtain session rq root session' where
    *: "map_of (m_incomplete_sessions s) n = Some (session, rq)" "getLogInReq m = Inr root"
    "on_log_in_req L cfg (callbacks_of s rq (lq_own_app root)) creds name rsp env m session = Inr session'"
    and r: "in_session n (\<lambda>_. Inr session') (if m_cli_namespace session' \<noteq> m_cli_namespace session
        then s\<lparr> m_last_cli_namespace := m_last_cli_namespace s + 1 \<rparr> else s) = Inr s'"
    by (auto simp: session_log_in_def res_bind_eq_Inr Let_def split: option.splits)
  have "s\<lparr> m_last_cli_namespace := m_last_cli_namespace s \<rparr> = s" by simp
  with r that [OF *] show thesis by (auto split: if_splits)
qed

lemma session_server_inv_log_in:
  assumes inv: "session_server_inv s" and small: "unat (m_last_cli_namespace s) + 1 < 2 ^ 64"
    and run: "session_log_in L cfg n creds name rsp env m s = Inr s'"
  shows "session_server_inv s'"
proof -
  have suc: "unat (m_last_cli_namespace s + 1) = unat (m_last_cli_namespace s) + 1"
    using small by (simp add: unat_word_ariths)
  from run show ?thesis
  proof (rule session_log_in_InrD, goal_cases)
    case (1 session rq root session')
    from task_log_in [OF 1(3) session_ok_incomplete [OF inv 1(1)]]
    have task: "task_result n session session'" and ns: "m_cli_namespace session' = m_cli_namespace session \<or>
      m_cli_namespace session = [] \<and> m_cli_namespace session' = to_string (unat (m_last_cli_namespace s) + 1)"
      using suc by (simp_all add: callbacks_of_def next_cli_namespace_def)
    show ?case
    proof (rule session_server_inv_task [OF inv 1(1) task _ 1(4)])
      show "m_cli_namespace session' = m_cli_namespace session \<and>
          (if m_cli_namespace session' \<noteq> m_cli_namespace session then m_last_cli_namespace s + 1
           else m_last_cli_namespace s) = m_last_cli_namespace s \<or>
        m_cli_namespace session = [] \<and> m_cli_namespace session' = to_string (unat (m_last_cli_namespace s) + 1) \<and>
          unat (if m_cli_namespace session' \<noteq> m_cli_namespace session then m_last_cli_namespace s + 1
           else m_last_cli_namespace s) = unat (m_last_cli_namespace s) + 1"
        using ns by (cases "m_cli_namespace session' = m_cli_namespace session") (simp_all only: suc to_string_nonempty
          if_True if_False simp_thms)
    qed
  qed
qed

lemma session_server_inv_start:
  assumes "session_server_inv s" "session_start n env s = Inr s'"
  shows "session_server_inv s'"
  using assms(2) unfolding session_start_def
proof (rule in_session_InrD, goal_cases)
  case (1 session rq session')
  with assms(1) show ?case
    by (intro session_server_inv_task [OF assms(1) 1(1), where session' = session' and l = "m_last_cli_namespace s"])
      (auto dest: task_start session_ok_incomplete)
qed

lemma session_server_inv_error:
  assumes "session_server_inv s" "session_error cfg n e s = Inr s'"
  shows "session_server_inv s'"
  using assms(2) unfolding session_error_def
proof (rule in_session_InrD, goal_cases)
  case (1 session rq session')
  with assms(1) show ?case
    by (intro session_server_inv_task [OF assms(1) 1(1), where session' = session' and l = "m_last_cli_namespace s"])
      (auto dest: task_error session_ok_incomplete)
qed

interpretation session_server: invariant_system "session_server_ini L cfg" "session_server_step L cfg"
    session_server_inv for L cfg
proof (unfold_locales, goal_cases)
  case (1 s)
  then show ?case by (rule session_server_inv_init)
next
  case (2 s t)
  from 2(2) show ?case
    by cases (use 2(1) in \<open>auto intro: session_server_inv_accept session_server_inv_socket session_server_inv_start
        session_server_inv_error session_server_inv_log_in session_server_inv_graveyard\<close>)
qed

end
