(* ===== verification/Server_Channels.thy ===== *)
theory Server_Channels
  imports Server_System
begin

text \<open>
  The resources of the channels a server session opens: the names of its message queues, and
  what \<open>create_channel_and_resources\<close> yields, keeps and cleans up.
\<close>

section \<open>Names of message queues\<close>

text \<open>The applications and namespaces of an established session, usable in names.\<close>

definition session_names_ok :: "session_lib \<Rightarrow> 'a session_base_scheme \<Rightarrow> bool" where
  "session_names_ok L s \<longleftrightarrow> srv_app_ok L (m_srv_app_ref s) \<and>
     (\<exists>app. m_cli_app_ptr s = Some app \<and> sn_piece (lib_sn L) (m_name app) \<and> m_name app \<noteq> S_SENTINEL (lib_sn L)) \<and>
     sn_piece (lib_sn L) (m_srv_namespace s) \<and> m_srv_namespace s \<noteq> S_SENTINEL (lib_sn L) \<and>
     sn_piece (lib_sn L) (m_cli_namespace s)"

definition mq_dir :: "bool \<Rightarrow> string" where
  "mq_dir c2s = (if c2s then ''c2s'' else ''s2c'')"

definition mq_name :: "session_lib \<Rightarrow> 'a session_base_scheme \<Rightarrow> bool \<Rightarrow> nat \<Rightarrow> shared_name" where
  "mq_name L s c2s i = join_pieces (lib_sn L) [S_ROOT_MAGIC (lib_sn L), MQ_RESOURCE_TYPE_ID (lib_sn L),
     m_name (m_srv_app_ref s), m_srv_namespace s, m_name (the (m_cli_app_ptr s)), m_cli_namespace s,
     mq_dir c2s, to_string i]"

lemma mq_dir_piece: "shared_name_laws L \<Longrightarrow> sn_piece L (mq_dir d)"
  by (auto simp: mq_dir_def sn_piece_def no_sep_def shared_name_laws_def is_digit_def)

lemma mq_dir_inj [simp]: "mq_dir d = mq_dir e \<longleftrightarrow> d = e"
  by (simp add: mq_dir_def)

lemma mq_name_func_form:
  assumes "session_names_ok L s"
  shows "mq_name_func L c2s s = Inr (mq_name L s c2s (unat (m_last_channel_mq_id s)))"
proof -
  let ?L = "lib_sn L" let ?sep = "S_SEPARATOR (lib_sn L)"
  from assms obtain app where a: "m_cli_app_ptr s = Some app" "sn_piece ?L (m_name app)"
    "m_name app \<noteq> S_SENTINEL ?L" and L: "shared_name_laws ?L"
    by (auto simp: session_names_ok_def srv_app_ok_def)
  let ?x = "join_pieces ?L [S_ROOT_MAGIC ?L, MQ_RESOURCE_TYPE_ID ?L, m_name (m_srv_app_ref s), m_srv_namespace s, m_name app]"
  have d1: "sn_div ?L (?x @ ?sep # m_cli_namespace s) (mq_dir c2s) = ?x @ ?sep # m_cli_namespace s @ ?sep # mq_dir c2s"
    using sn_div_piece [OF L _ mq_dir_piece [OF L, of c2s], of "m_cli_namespace s" "?x @ [?sep]"] assms
    by (simp add: session_names_ok_def)
  have d2: "sn_div ?L (?x @ ?sep # m_cli_namespace s @ ?sep # mq_dir c2s) (to_string i) =
      ?x @ ?sep # m_cli_namespace s @ ?sep # mq_dir c2s @ ?sep # to_string i" for i
    using sn_div_piece [OF L mq_dir_piece [OF L] sn_piece_to_string [OF L], of "?x @ ?sep # m_cli_namespace s @ [?sep]" c2s i]
    by simp
  show ?thesis
    using build_1_form [OF L sn_consts(4) [OF L], of "m_name (m_srv_app_ref s)" "m_srv_namespace s"
        "m_name app" "m_cli_namespace s"] assms a d1 d2
    by (simp add: mq_name_func_def mq_name_def cli_app_ptr_def srv_namespace_def cli_namespace_def
        session_names_ok_def srv_app_ok_def mq_dir_def [symmetric] Let_def)
qed

lemma mq_name_inj:
  assumes "session_names_ok L a" "session_names_ok L b"
  shows "mq_name L a d i = mq_name L b e j \<longleftrightarrow>
    m_name (m_srv_app_ref a) = m_name (m_srv_app_ref b) \<and> m_srv_namespace a = m_srv_namespace b \<and>
    m_name (the (m_cli_app_ptr a)) = m_name (the (m_cli_app_ptr b)) \<and> m_cli_namespace a = m_cli_namespace b \<and>
    d = e \<and> i = j"
proof -
  let ?sep = "S_SEPARATOR (lib_sn L)"
  have split: "x @ ?sep # r = y @ ?sep # q \<longleftrightarrow> x = y \<and> r = q"
    if "sn_piece (lib_sn L) x" "sn_piece (lib_sn L) y" for x y r q
    using sep_split_inj [of ?sep x y r q] that by (auto simp: sn_piece_def)
  have "sn_piece (lib_sn L) (mq_dir d)" "sn_piece (lib_sn L) (mq_dir e)"
    using assms(1) mq_dir_piece by (auto simp: session_names_ok_def srv_app_ok_def)
  with assms show ?thesis
    by (auto simp: mq_name_def session_names_ok_def srv_app_ok_def split)
qed

text \<open>
  C32. The name of a message queue identifies its use: two names computed in established sessions
  of one kernel are equal only if server application and process, client application and
  client namespace, direction and number agree. So two sessions with different client namespaces
  never share a queue.
\<close>

theorem mq_name_identifies_channel:
  assumes "session_names_ok L a" "session_names_ok L b"
  shows "mq_name_func L d a = mq_name_func L e b \<longleftrightarrow>
    m_name (m_srv_app_ref a) = m_name (m_srv_app_ref b) \<and> m_srv_namespace a = m_srv_namespace b \<and>
    m_name (the (m_cli_app_ptr a)) = m_name (the (m_cli_app_ptr b)) \<and> m_cli_namespace a = m_cli_namespace b \<and>
    d = e \<and> m_last_channel_mq_id a = m_last_channel_mq_id b"
  using mq_name_inj [OF assms] assms by (simp add: mq_name_func_form word_unat_eq_iff)

section \<open>Resources of a channel\<close>

lemma session_names_ok_frame: "res_frame s t \<Longrightarrow> session_names_ok L t \<longleftrightarrow> session_names_ok L s"
  by (erule res_frameE) (simp add: session_names_ok_def)

lemma mq_name_frame: "res_frame s t \<Longrightarrow> mq_name L t = mq_name L s"
  by (erule res_frameE) (simp add: mq_name_def fun_eq_iff)

lemma make_channel_mqs_form:
  assumes "session_names_ok L s"
  shows "make_channel_mqs L env s =
    (let i = unat (m_last_channel_mq_id s + 1) in
     if re_mq_c2s env \<noteq> None then Inr (s, Inl (the (re_mq_c2s env)))
     else if re_mq_s2c env \<noteq> None then Inr (s, Inl (the (re_mq_s2c env)))
     else Inr (s\<lparr> m_last_channel_mq_id := m_last_channel_mq_id s + 1,
                  s_mqs := mq_name L s False i # mq_name L s True i # s_mqs s \<rparr>,
               Inr (mq_name L s True i, mq_name L s False i)))"
proof -
  let ?s = "s\<lparr> m_last_channel_mq_id := m_last_channel_mq_id s + 1 \<rparr>"
  have "session_names_ok L ?s" using assms by (simp add: session_names_ok_def)
  note m1 = mq_name_func_form [OF this]
  let ?t = "?s\<lparr> s_mqs := mq_name L s True (unat (m_last_channel_mq_id s + 1)) # s_mqs s \<rparr>"
  have "session_names_ok L ?t" using assms by (simp add: session_names_ok_def)
  note m2 = mq_name_func_form [OF this]
  have "mq_name L ?s = mq_name L s" "mq_name L ?t = mq_name L s" by (simp_all add: mq_name_def fun_eq_iff)
  with m1 m2 show ?thesis
    by (simp add: make_channel_mqs_def Let_def split: option.splits)
qed

lemma failed_create_keeps_mqs:
  assumes "create_channel_and_resources L cfg env act s = Inr (s', r)" "\<not> cr_ok r"
  shows "s_mqs s' = s_mqs s"
proof -
  obtain nick t where n: "channel_nickname act s = (nick, t)" by fastforce
  then have t: "s_mqs t = s_mqs s" by (auto simp: channel_nickname_def Let_def split: if_splits)
  show ?thesis
  proof (cases "S_MQS_ENABLED cfg")
    case False
    with assms n t show ?thesis by (auto simp: create_channel_and_resources_def split: sum.splits)
  next
    case True
    with assms n have c: "create_mq_channel L cfg env nick t = Inr (s', r)"
      by (simp add: create_channel_and_resources_def)
    then obtain u m where m: "make_channel_mqs L env t = Inr (u, m)"
      by (auto simp: create_mq_channel_def res_bind_eq_Inr)
    have u: "case m of Inl _ \<Rightarrow> s_mqs u = s_mqs t | Inr (a, b) \<Rightarrow> s_mqs u = b # a # s_mqs t"
      using m by (auto simp: make_channel_mqs_def Let_def res_bind_eq_Inr split: option.splits)
    have "remove1 b (remove1 a (b # a # l)) = l" for a b :: shared_name and l by simp
    with c m u t assms(2) show ?thesis
      by (auto simp: create_mq_channel_def Let_def split: sum.splits if_splits)
  qed
qed

definition resources_available :: "session_cfg \<Rightarrow> resource_env \<Rightarrow> bool" where
  "resources_available cfg env \<longleftrightarrow>
     (S_MQS_ENABLED cfg \<longrightarrow> re_mq_c2s env = None \<and> re_mq_s2c env = None \<and> re_channel env = None) \<and>
     (S_SOCKET_STREAM_ENABLED cfg \<longrightarrow> (\<exists>p. re_pair env = Inr p))"

text \<open>What a channel with its resources looks like.\<close>

definition channel_made :: "session_lib \<Rightarrow> session_cfg \<Rightarrow> resource_env \<Rightarrow> server_session \<Rightarrow> server_session \<Rightarrow>
    channel_resources \<Rightarrow> bool" where
  "channel_made L cfg env s s' r \<longleftrightarrow>
     (if S_MQS_ENABLED cfg
      then cr_c2s r = mq_name L s True (unat (m_last_channel_mq_id s + 1)) \<and>
           cr_s2c r = mq_name L s False (unat (m_last_channel_mq_id s + 1)) \<and>
           m_last_channel_mq_id s' = m_last_channel_mq_id s + 1 \<and>
           s_mqs s' = cr_s2c r # cr_c2s r # s_mqs s
      else cr_c2s r = [] \<and> cr_s2c r = [] \<and> s_mqs s' = s_mqs s \<and>
           m_last_channel_mq_id s' = m_last_channel_mq_id s) \<and>
     (\<exists>nick local. cr_channel r = Channel nick (Channel_obj cfg)
         (if S_MQS_ENABLED cfg then Some (cr_s2c r, cr_c2s r) else None) local \<and>
       (if S_SOCKET_STREAM_ENABLED cfg
        then (\<exists>l r'. re_pair env = Inr (l, r') \<and> local = Some l \<and> cr_remote_hndl r = Some r')
        else local = None \<and> cr_remote_hndl r = None))"

lemma channel_nickname_frame:
  assumes "channel_nickname act s = (nick, t)"
  shows "res_frame s t" "m_last_channel_mq_id t = m_last_channel_mq_id s" "s_mqs t = s_mqs s"
  using assms by (auto simp: channel_nickname_def Let_def split: if_splits)

lemma create_outcome:
  assumes "session_names_ok L s"
  shows "\<exists>s' r. create_channel_and_resources L cfg env act s = Inr (s', r) \<and>
    (if resources_available cfg env then cr_ok r \<and> channel_made L cfg env s s' r
     else \<not> cr_ok r \<and> cr_channel r = Blank \<and> s_mqs s' = s_mqs s \<and>
       m_last_channel_mq_id s' \<in> {m_last_channel_mq_id s, m_last_channel_mq_id s + 1})"
proof -
  obtain nick t where n: "channel_nickname act s = (nick, t)" by fastforce
  note f = channel_nickname_frame [OF n]
  from f(1) assms have ok: "session_names_ok L t" by (simp add: session_names_ok_frame)
  show ?thesis
  proof (cases "S_MQS_ENABLED cfg")
    case False
    then show ?thesis using n f
      by (cases "re_pair env") (auto simp: create_channel_and_resources_def resources_available_def
        channel_made_def S_SOCKET_STREAM_ENABLED_def no_resources_def)
  next
    case True
    have c: "create_channel_and_resources L cfg env act s = create_mq_channel L cfg env nick t"
      using n True by (simp add: create_channel_and_resources_def)
    show ?thesis
    proof (cases "re_mq_c2s env = None \<and> re_mq_s2c env = None")
      case False
      then obtain e where "make_channel_mqs L env t = Inr (t, Inl e)"
        by (cases "re_mq_c2s env"; cases "re_mq_s2c env") (auto simp: make_channel_mqs_form [OF ok] Let_def)
      then have "create_channel_and_resources L cfg env act s = Inr (t, no_resources)"
        using c by (simp add: create_mq_channel_def)
      moreover have "\<not> resources_available cfg env" using False True by (auto simp: resources_available_def)
      ultimately show ?thesis using f by (simp add: no_resources_def)
    next
      case mq: True
      have "mq_name L t = mq_name L s" by (rule mq_name_frame [OF f(1)])
      with True mq c f show ?thesis
        by (cases "re_pair env"; cases "S_SOCKET_STREAM_ENABLED cfg"; cases "re_channel env")
          (auto simp: create_mq_channel_def make_channel_mqs_form [OF ok] resources_available_def
            no_resources_def channel_made_def Let_def)
    qed
  qed
qed


text \<open>The queues of a session are distinct, and their numbers are below the counter.\<close>

definition mqs_ok :: "session_lib \<Rightarrow> server_session \<Rightarrow> bool" where
  "mqs_ok L s \<longleftrightarrow> distinct (s_mqs s) \<and>
     (\<forall>n \<in> set (s_mqs s). \<exists>d i. n = mq_name L s d i \<and> i \<le> unat (m_last_channel_mq_id s))"

lemma mqs_ok_create:
  assumes ok: "session_names_ok L s" and m: "mqs_ok L s"
    and w: "unat (m_last_channel_mq_id s) + 1 < 2 ^ 32"
    and c: "create_channel_and_resources L cfg env act s = Inr (s', r)"
  shows "mqs_ok L s' \<and> (cr_ok r \<and> S_MQS_ENABLED cfg \<longrightarrow>
    cr_c2s r \<notin> set (s_mqs s) \<and> cr_s2c r \<notin> set (s_mqs s) \<and> cr_c2s r \<noteq> cr_s2c r)"
proof -
  let ?i = "unat (m_last_channel_mq_id s + 1)"
  have i: "?i = unat (m_last_channel_mq_id s) + 1" using w by (simp add: unat_word_ariths)
  note f = create_frame [OF c]
  note n = mq_name_frame [OF f, of L]
  have new: "mq_name L s d ?i \<notin> set (s_mqs s)" for d
    using m i by (auto simp: mqs_ok_def mq_name_inj [OF ok ok])
  have le: "mqs_ok L s'" if "s_mqs s' = s_mqs s" "unat (m_last_channel_mq_id s) \<le> unat (m_last_channel_mq_id s')"
    using m that n unfolding mqs_ok_def by (metis le_trans)
  show ?thesis
  proof (cases "resources_available cfg env")
    case False
    with create_outcome [OF ok, of cfg env act] c have "\<not> cr_ok r" "s_mqs s' = s_mqs s"
      "m_last_channel_mq_id s' \<in> {m_last_channel_mq_id s, m_last_channel_mq_id s + 1}" by auto
    with le i show ?thesis by auto
  next
    case True
    with create_outcome [OF ok, of cfg env act] c have made: "channel_made L cfg env s s' r" by auto
    show ?thesis
    proof (cases "S_MQS_ENABLED cfg")
      case False
      with made le show ?thesis by (auto simp: channel_made_def)
    next
      case True
      with made have "cr_c2s r = mq_name L s True ?i" "cr_s2c r = mq_name L s False ?i"
        "m_last_channel_mq_id s' = m_last_channel_mq_id s + 1" "s_mqs s' = cr_s2c r # cr_c2s r # s_mqs s"
        by (auto simp: channel_made_def)
      with new m n i show ?thesis
        by (fastforce simp: mqs_ok_def mq_name_inj [OF ok ok])
    qed
  qed
qed

text \<open>
  C33. Queue names are fresh: as long as the session's 32-bit counter has not wrapped, every channel
  opened gets two queues whose names differ from each other and from all queues the session
  has, so the exclusive creation of a queue never hits one of its own.
\<close>

theorem new_queue_names_are_fresh:
  assumes "session_names_ok L s" "mqs_ok L s" "unat (m_last_channel_mq_id s) + 1 < 2 ^ 32"
    "create_channel_and_resources L cfg env act s = Inr (s', r)"
  shows "mqs_ok L s' \<and> (cr_ok r \<and> S_MQS_ENABLED cfg \<longrightarrow>
    cr_c2s r \<notin> set (s_mqs s) \<and> cr_s2c r \<notin> set (s_mqs s) \<and> cr_c2s r \<noteq> cr_s2c r)"
  by (rule mqs_ok_create [OF assms])

end
