(* ===== verification/Server_Properties.thy ===== *)
theory Server_Properties
  imports Server_Channels
begin

text \<open>
  What the server session guarantees: the properties of its reachable states, the checks of the
  log-in request, the distribution of the init-channels, opening of channels, destruction, and
  the places where an assertion can trip. The witnesses follow a concrete run.
\<close>

section \<open>What the user of a server session sees\<close>

text \<open>
  C22. The log-in handler of a server session runs at most once, in every reachable state: it is
  pending exactly as long as it has not run. If it has reported an error the session has dropped
  its channel and can never enter PEER state; if it has reported success the session has a
  channel, the client application and a client namespace.
\<close>

theorem server_log_in_once:
  assumes "reach server_ini (server_step L cfg) x"
  shows "(m_log_in_on_done_func (ss x) \<noteq> None \<and> s_done_calls (ss x) = []) \<or>
    (\<exists>h e. s_done_calls (ss x) = [(h, Some e)] \<and> m_log_in_on_done_func (ss x) = None \<and>
       m_master_channel (ss x) = None \<and> \<not> handlers_are_set (ss x)) \<or>
    (\<exists>h. s_done_calls (ss x) = [(h, None)] \<and> m_log_in_on_done_func (ss x) = None \<and>
       m_master_channel (ss x) \<noteq> None \<and> client_app (ss x) \<noteq> None \<and> cli_namespace (ss x) \<noteq> [])"
proof (cases "s_done_calls (ss x)")
  case Nil
  with server.reach_inv [OF assms] show ?thesis by (auto simp: server_inv_def Let_def)
next
  case (Cons c l)
  obtain h r where c: "c = (h, r)" by fastforce
  from server.reach_inv [OF assms] Cons have "l = []" by (auto simp: server_inv_def Let_def)
  with Cons c have d: "s_done_calls (ss x) = [(h, r)]" by simp
  with server.reach_inv [OF assms] show ?thesis
    by (cases r) (auto simp: server_inv_def Let_def logged_in_def client_app_def cli_app_ptr_def cli_namespace_def)
qed

text \<open>
  C23. The on-error handler of a server session runs at most once, with the session's error, and
  never before \<^verbatim>\<open>init_handlers()\<close>. An error of the channel is not lost: once it was emitted and
  the handlers are set, the on-error handler has run, or the task that will run it is posted
  (the case of an error that had been cached before \<^verbatim>\<open>init_handlers()\<close>).
\<close>

theorem server_emits_once:
  assumes "reach server_ini (server_step L cfg) x"
  shows "(fired (ss x) = [] \<or> (\<exists>h e. fired (ss x) = [(h, e)] \<and> m_on_err_func (ss x) = Some h \<and>
       m_peer_state_err_code_or_ok (ss x) = Some e)) \<and>
    (handlers_are_set (ss x) \<and> sst x = Ch_err_emitted \<longrightarrow>
       fired (ss x) \<noteq> [] \<or> s_hose_posted (ss x) \<and> m_pre_init_err_code (ss x) \<noteq> None) \<and>
    (\<not> handlers_are_set (ss x) \<longrightarrow> fired (ss x) = [])"
  using server.reach_inv [OF assms]
  by (cases "m_peer_state_err_code_or_ok (ss x)"; cases "m_pre_init_err_code (ss x)";
      cases "m_on_err_func (ss x)")
    (auto simp: server_inv_def Let_def handlers_are_set_def on_err_func_set_def)

lemma server_inv_posted:
  assumes "server_inv x" "s_hose_posted (ss x)"
  shows "\<exists>h e. m_on_err_func (ss x) = Some h \<and> m_pre_init_err_code (ss x) = Some e \<and>
    m_peer_state_err_code_or_ok (ss x) = None \<and> fired (ss x) = []"
  using assms
  by (cases "m_on_err_func (ss x)"; cases "m_pre_init_err_code (ss x)";
      cases "m_peer_state_err_code_or_ok (ss x)";
      simp add: server_inv_def Let_def handlers_are_set_def on_err_func_set_def)

text \<open>
  The posted task that emits a cached error never trips an assertion: it returns, having run
  the on-error handler once with the error that was cached.
\<close>

theorem cached_error_is_emitted:
  assumes "reach server_ini (server_step L cfg) x" "s_hose_posted (ss x)"
  shows "\<exists>s' h e. emit_cached_error (ss x) = Inr s' \<and> m_pre_init_err_code (ss x) = Some e \<and>
    m_on_err_func (ss x) = Some h \<and> fired s' = [(h, e)] \<and> hosed s' = Inr True \<and> \<not> s_hose_posted s'"
proof -
  from server_inv_posted [OF server.reach_inv [OF assms(1)] assms(2)] obtain h e where
    h: "m_on_err_func (ss x) = Some h" and e: "m_pre_init_err_code (ss x) = Some e"
    "m_peer_state_err_code_or_ok (ss x) = None" "fired (ss x) = []" by blast
  from h e show ?thesis by (simp add: emit_cached_error_def hose_set)
qed

text \<open>
  C25. A server session that waits for its log-in is never stuck: once the log-in task has
  started, either the channel still expects the log-in request, or an error of the channel is on
  its way; the handler of that error returns, having dropped the channel and run the log-in
  handler with the error. In almost-PEER and PEER state the handler of a channel error returns
  too (on configurations without the graceful finish).
\<close>

theorem server_error_handled:
  assumes "reach server_ini (server_step L cfg) x" "started x" "\<not> S_GRACEFUL_FINISH_REQUIRED cfg"
  shows "(s_done_calls (ss x) = [] \<longrightarrow> sst x = Ch_ok \<and> s_expect_log_in (ss x) \<or> (\<exists>e. sst x = Ch_err_pending e)) \<and>
    (\<forall>e. sst x = Ch_err_pending e \<longrightarrow> (\<exists>s'. on_master_channel_error cfg e (ss x) = Inr s' \<and>
       (\<forall>h. m_log_in_on_done_func (ss x) = Some h \<longrightarrow> s_done_calls s' = [(h, Some e)] \<and> m_master_channel s' = None) \<and>
       (\<forall>h. m_on_err_func (ss x) = Some h \<longrightarrow> fired s' = [(h, e)]) \<and>
       (logged_in (ss x) \<and> \<not> handlers_are_set (ss x) \<longrightarrow> m_pre_init_err_code s' = Some e)))"
proof -
  note inv = server.reach_inv [OF assms(1)]
  have "\<exists>s'. on_master_channel_error cfg e (ss x) = Inr s' \<and>
       (\<forall>h. m_log_in_on_done_func (ss x) = Some h \<longrightarrow> s_done_calls s' = [(h, Some e)] \<and> m_master_channel s' = None) \<and>
       (\<forall>h. m_on_err_func (ss x) = Some h \<longrightarrow> fired s' = [(h, e)]) \<and>
       (logged_in (ss x) \<and> \<not> handlers_are_set (ss x) \<longrightarrow> m_pre_init_err_code s' = Some e)"
    if st: "sst x = Ch_err_pending e" for e
  proof (cases "m_log_in_on_done_func (ss x)")
    case (Some h)
    with inv assms(2) have "m_master_channel (ss x) \<noteq> None" "s_done_calls (ss x) = []" "\<not> handlers_are_set (ss x)"
      "\<not> logged_in (ss x)"
      by (auto simp: server_inv_def Let_def logged_in_def)
    with Some show ?thesis
      by (simp add: on_master_channel_error_def finish_log_in_def handlers_are_set_def on_err_func_set_def)
  next
    case None
    show ?thesis
    proof (cases "m_on_err_func (ss x)")
      case None
      have n: "m_pre_init_err_code (ss x) = None"
        using inv st None by (cases "logged_in (ss x)")
          (auto simp: server_inv_def Let_def handlers_are_set_def on_err_func_set_def)
      have "m_master_channel (ss x) \<noteq> None" if "logged_in (ss x)"
        using inv that by (auto simp: server_inv_def Let_def logged_in_def)
      with n None \<open>m_log_in_on_done_func (ss x) = None\<close> show ?thesis
        by (auto simp: on_master_channel_error_def handlers_are_set_def on_err_func_set_def)
    next
      case (Some h)
      then have l: "handlers_are_set (ss x)" by (simp add: handlers_are_set_def on_err_func_set_def)
      have "m_peer_state_err_code_or_ok (ss x) = None" "fired (ss x) = []"
        using inv st l by (cases "m_pre_init_err_code (ss x)"; auto simp: server_inv_def Let_def)+
      with Some l \<open>m_log_in_on_done_func (ss x) = None\<close> assms(3) server_inv_handlers_ch [OF inv l]
      show ?thesis by (simp add: on_master_channel_error_def hose_set)
    qed
  qed
  moreover have "s_done_calls (ss x) = [] \<Longrightarrow>
      sst x = Ch_ok \<and> s_expect_log_in (ss x) \<or> (\<exists>e. sst x = Ch_err_pending e)"
    using inv assms(2) by (cases "sst x") (auto simp: server_inv_def Let_def)
  ultimately show ?thesis by blast
qed

section \<open>The log-in request\<close>

text \<open>
  What the log-in request must satisfy, as a list of independent checks, each with the code
  it reports; \<open>None\<close> is a check that passes.
\<close>

definition log_in_checks ::
    "session_lib \<Rightarrow> session_cfg \<Rightarrow> accept_callbacks \<Rightarrow> process_creds \<Rightarrow> string \<Rightarrow> log_in_req \<Rightarrow> server_session \<Rightarrow>
     error_code option list" where
  "log_in_checks L cfg cb os_creds invoked_as q s =
     (let known = cli_app_lookup_func cb (lq_own_app q) in
      [compute_negotiated_proto_ver L (lq_max_proto_ver q),
       compute_negotiated_proto_ver L (lq_max_proto_ver_aux q),
       (if lq_shm_type q = S_SHM_TYPE_OR_NONE cfg \<and> lq_mq_type q = S_MQ_TYPE_OR_NONE cfg \<and>
           lq_native_handles q = S_TRANSMIT_NATIVE_HANDLES cfg
        then None else Some (Session_err S_SERVER_MASTER_LOG_IN_REQUEST_CONFIG_MISMATCH)),
       (if 0 < lq_n_init_by_cli q \<longrightarrow> out_by_cli_req (s_out s) \<noteq> None
        then None else Some (Session_err S_INVALID_ARGUMENT)),
       (if known \<noteq> None \<and> lq_own_app q \<in> set (m_allowed_client_apps (m_srv_app_ref s))
        then None else Some (Session_err S_SERVER_MASTER_LOG_IN_REQUEST_CLIENT_APP_DISALLOWED_OR_UNKNOWN)),
       (case known of None \<Rightarrow> None
        | Some app \<Rightarrow>
            if lq_creds q = os_creds \<and> m_exec_path app = invoked_as \<and>
               m_user_id app = pc_user_id os_creds \<and> m_group_id app = pc_group_id os_creds
            then None else Some (Session_err S_SERVER_MASTER_LOG_IN_REQUEST_CLIENT_APP_INCONSISTENT_CREDS)),
       pre_rsp_setup_func cb])"

definition first_failure :: "error_code option list \<Rightarrow> error_code option" where
  "first_failure checks = (case dropWhile (\<lambda>c. c = None) checks of [] \<Rightarrow> None | c # cs \<Rightarrow> c)"

lemma first_failure_simps [simp]:
  "first_failure [] = None" "first_failure (None # cs) = first_failure cs"
  "first_failure (Some e # cs) = Some e"
  by (simp_all add: first_failure_def)

definition namespace_usable :: "session_lib \<Rightarrow> accept_callbacks \<Rightarrow> bool" where
  "namespace_usable L cb \<longleftrightarrow> cli_namespace_func cb \<notin> {[], S_SENTINEL (lib_sn L)}"

lemma check_log_in_req_eq:
  assumes "m_cli_app_ptr s = None" "m_cli_namespace s = []" "namespace_usable L cb"
  shows "\<exists>t. res_frame (s\<lparr> m_cli_app_ptr := m_cli_app_ptr t, m_cli_namespace := m_cli_namespace t \<rparr>) t \<and>
    s_sent t = s_sent s \<and>
    (case first_failure (log_in_checks L cfg cb creds name q s) of
       Some e \<Rightarrow> check_log_in_req L cfg cb creds name q s = Inr (t, Inl e)
     | None \<Rightarrow> check_log_in_req L cfg cb creds name q s =
         Inr (t, Inr (the (cli_app_lookup_func cb (lq_own_app q)))) \<and>
         t = s\<lparr> m_cli_app_ptr := cli_app_lookup_func cb (lq_own_app q),
              m_cli_namespace := cli_namespace_func cb \<rparr>)"
proof -
  let ?f = "first_failure (log_in_checks L cfg cb creds name q s)"
  let ?t1 = "s\<lparr> m_cli_app_ptr := cli_app_lookup_func cb (lq_own_app q) \<rparr>"
  let ?t2 = "?t1\<lparr> m_cli_namespace := cli_namespace_func cb \<rparr>"
  note [simp] = check_log_in_req_def log_in_checks_def Let_def make_error_code_def set_cli_app_ptr_def
    set_cli_namespace_def check_creds_def
  note ns = assms(3) [unfolded namespace_usable_def]
  show ?thesis
  proof (cases "compute_negotiated_proto_ver L (lq_max_proto_ver q)")
    case (Some e)
    then show ?thesis by (intro exI [of _ s]) simp
  next
    case v1: None
    show ?thesis
    proof (cases "compute_negotiated_proto_ver L (lq_max_proto_ver_aux q)")
      case (Some e)
      with v1 show ?thesis by (intro exI [of _ s]) simp
    next
      case v2: None
      show ?thesis
      proof (cases "cli_app_lookup_func cb (lq_own_app q)")
        case None
        with v1 v2 show ?thesis by (intro exI [of _ s]) (auto simp: word_gt_0)
      next
        case (Some app)
        let ?early = "lq_shm_type q \<noteq> S_SHM_TYPE_OR_NONE cfg \<or> lq_mq_type q \<noteq> S_MQ_TYPE_OR_NONE cfg \<or>
           lq_native_handles q \<noteq> S_TRANSMIT_NATIVE_HANDLES cfg \<or>
           lq_n_init_by_cli q \<noteq> 0 \<and> out_by_cli_req (s_out s) = None \<or>
           lq_own_app q \<notin> set (m_allowed_client_apps (m_srv_app_ref s))"
        show ?thesis
        proof (cases "?early")
          case True
          with v1 v2 Some show ?thesis by (intro exI [of _ s]) (auto simp: word_gt_0)
        next
          case False
          show ?thesis
          proof (cases "check_creds app (lq_creds q) creds name")
            case False
            with \<open>\<not> ?early\<close> v1 v2 Some assms(1) show ?thesis
              by (intro exI [of _ ?t1]) (auto simp: word_gt_0)
          next
            case True
            with \<open>\<not> ?early\<close> v1 v2 Some assms(1,2) ns show ?thesis
              by (intro exI [of _ ?t2]) (auto simp: word_gt_0 split: option.splits)
          qed
        qed
      qed
    qed
  qed
qed

lemma res_frame_fields:
  assumes "res_frame s t"
  shows "m_log_in_on_done_func t = m_log_in_on_done_func s" "s_done_calls t = s_done_calls s"
    "s_out t = s_out s" "m_master_channel t = m_master_channel s" "m_cli_app_ptr t = m_cli_app_ptr s"
    "m_cli_namespace t = m_cli_namespace s" "m_srv_app_ref t = m_srv_app_ref s"
    "m_srv_namespace t = m_srv_namespace s" "m_on_err_func t = m_on_err_func s"
    "m_peer_state_err_code_or_ok t = m_peer_state_err_code_or_ok s" "fired t = fired s"
    "s_passive_calls t = s_passive_calls s"
    "m_on_passive_open_channel_func_or_empty t = m_on_passive_open_channel_func_or_empty s"
  by (rule res_frameE [OF assms], simp)+

lemma create_sent:
  assumes "create_channel_and_resources L cfg env act s = Inr (s', r)"
  shows "s_sent s' = s_sent s"
proof -
  obtain nick t where n: "channel_nickname act s = (nick, t)" by fastforce
  then have t: "s_sent t = s_sent s" by (auto simp: channel_nickname_def Let_def split: if_splits)
  show ?thesis
  proof (cases "S_MQS_ENABLED cfg")
    case False
    with assms n t show ?thesis by (auto simp: create_channel_and_resources_def split: sum.splits)
  next
    case True
    with assms n have c: "create_mq_channel L cfg env nick t = Inr (s', r)"
      by (simp add: create_channel_and_resources_def)
    then obtain u m where m: "make_channel_mqs L env t = Inr (u, m)"
      by (auto simp: create_mq_channel_def res_bind_eq_Inr)
    have "s_sent u = s_sent t"
      using m by (auto simp: make_channel_mqs_def Let_def res_bind_eq_Inr split: option.splits)
    with c m t show ?thesis
      by (auto simp: create_mq_channel_def Let_def split: sum.splits if_splits)
  qed
qed

lemma open_init_sent:
  assumes "open_init_channels L cfg env k chans s = Inr (s', chans', ok, e)"
  shows "\<exists>ms. s_sent s' = s_sent s @ ms"
  using assms
proof (induction k arbitrary: chans s)
  case 0
  then show ?case by simp
next
  case (Suc k)
  let ?e = "env (length chans)"
  from Suc.prems obtain t r where c: "create_channel_and_resources L cfg (si_resources ?e) True s = Inr (t, r)"
    by (auto simp: Let_def res_bind_eq_Inr)
  note t = create_sent [OF c]
  obtain o1 e1 where o1: "send_init_channel (k = 0) ?e = (o1, e1)" by fastforce
  let ?t = "if o1 then t\<lparr> s_sent := s_sent t @ [open_channel_req_msg (prepared_req r)] \<rparr> else t"
  have t': "\<exists>ms. s_sent ?t = s_sent s @ ms" using t by simp
  from Suc.prems c o1 have "s' = t \<or> s' = ?t \<or>
      open_init_channels L cfg env k (chans @ [cr_channel r]) ?t = Inr (s', chans', ok, e)"
    by (auto simp: Let_def split: if_splits)
  then show ?case
  proof (elim disjE)
    assume "open_init_channels L cfg env k (chans @ [cr_channel r]) ?t = Inr (s', chans', ok, e)"
    from Suc.IH [OF this] obtain ms where "s_sent s' = s_sent ?t @ ms" by blast
    with t' show ?thesis by (metis append.assoc)
  qed (use t t' in simp_all)
qed

text \<open>
  C1. The checks of the log-in request. If one fails, the log-in handler is run with the code of
  the first that fails (protocol versions, configuration, containers, known and allowed
  application, credentials, set-up, in this order), the master channel is dropped, nothing is sent
  to the client and no out-argument is touched. If all pass, the response goes out first.
\<close>

theorem log_in_request_gauntlet:
  assumes "m_log_in_on_done_func s = Some h" "m_master_channel s \<noteq> None" "m_cli_app_ptr s = None"
    "m_cli_namespace s = []" "namespace_usable L cb" "body m = LogInReq q"
  shows "case first_failure (log_in_checks L cfg cb creds name q s) of
     Some e \<Rightarrow> \<exists>s'. on_log_in_req L cfg cb creds name rsp env m s = Inr s' \<and>
       s_done_calls s' = s_done_calls s @ [(h, Some e)] \<and> m_master_channel s' = None \<and>
       s_sent s' = s_sent s \<and> s_out s' = s_out s
   | None \<Rightarrow> (\<forall>s'. on_log_in_req L cfg cb creds name Sent_ok env m s = Inr s' \<longrightarrow>
       (\<exists>r ms. s_sent s' = s_sent s @ \<lparr> body = LogInRsp r, native_handle_or_null = None \<rparr> # ms \<and>
          lr_cli_namespace r = cli_namespace_func cb))"
proof -
  let ?s = "s\<lparr> s_expect_log_in := False \<rparr>"
  have c: "log_in_checks L cfg cb creds name q ?s = log_in_checks L cfg cb creds name q s"
    by (simp add: log_in_checks_def)
  have g: "getLogInReq m = Inr q" using assms(6) by (simp add: getLogInReq_def)
  obtain t where t: "res_frame (?s\<lparr> m_cli_app_ptr := m_cli_app_ptr t, m_cli_namespace := m_cli_namespace t \<rparr>) t"
    "s_sent t = s_sent s"
    "case first_failure (log_in_checks L cfg cb creds name q s) of
       Some e \<Rightarrow> check_log_in_req L cfg cb creds name q ?s = Inr (t, Inl e)
     | None \<Rightarrow> check_log_in_req L cfg cb creds name q ?s =
         Inr (t, Inr (the (cli_app_lookup_func cb (lq_own_app q)))) \<and>
         t = ?s\<lparr> m_cli_app_ptr := cli_app_lookup_func cb (lq_own_app q),
              m_cli_namespace := cli_namespace_func cb \<rparr>"
    using check_log_in_req_eq [of ?s L cb cfg creds name q] assms(3-5) c by auto
  show ?thesis
  proof (cases "first_failure (log_in_checks L cfg cb creds name q s)")
    case (Some e)
    have "m_log_in_on_done_func t = Some h" "s_done_calls t = s_done_calls s" "s_out t = s_out s"
      using res_frame_fields [OF t(1)] assms(1) by simp_all
    with Some t(2,3) g assms(2) show ?thesis
      by (simp add: on_log_in_req_def finish_log_in_def)
  next
    case None
    have "\<exists>r ms. s_sent s' = s_sent s @ \<lparr> body = LogInRsp r, native_handle_or_null = None \<rparr> # ms \<and>
        lr_cli_namespace r = cli_namespace_func cb"
      if a: "on_log_in_req L cfg cb creds name Sent_ok env m s = Inr s'" for s'
    proof -
      let ?app = "the (cli_app_lookup_func cb (lq_own_app q))"
      let ?n = "total_init_channels cb ?app q t"
      let ?t = "t\<lparr> s_sent := s_sent s @ [fill_log_in_rsp cb ?app q ?n t] \<rparr>"
      have m: "\<exists>r. fill_log_in_rsp cb ?app q ?n t = \<lparr> body = LogInRsp r, native_handle_or_null = None \<rparr> \<and>
          lr_cli_namespace r = cli_namespace_func cb"
        using t(3) None by (simp add: fill_log_in_rsp_def cli_namespace_def)
      have "\<exists>ms. s_sent s' = s_sent ?t @ ms"
      proof (cases "?n = 0")
        case True
        with a None t g assms(2) show ?thesis
          by (auto simp: on_log_in_req_def Let_def finish_log_in_Inr split: if_splits)
      next
        case False
        with a None t g assms(2)
        have f: "finish_with_init_channels L cfg env (unat ?n) (unat (lq_n_init_by_cli q)) (lq_mdt q) ?t = Inr s'"
          by (simp add: on_log_in_req_def Let_def)
        then obtain u chans ok e where o: "open_init_channels L cfg env (unat ?n) [] ?t = Inr (u, chans, ok, e)"
          by (auto simp: finish_with_init_channels_def res_bind_eq_Inr)
        from f o have "s_sent s' = s_sent u"
          by (auto simp: finish_with_init_channels_def res_bind_eq_Inr finish_log_in_Inr
              dest!: emit_srv_Inr split: if_splits option.splits)
        with open_init_sent [OF o] show ?thesis by simp
      qed
      with m show ?thesis by auto
    qed
    with None show ?thesis by simp
  qed
qed

section \<open>The init-channels\<close>

text \<open>
  A channel and the resources sent for it fit the configuration; its handle and the one sent are the two ends
  of the socket pair the system made.
\<close>

definition fits :: "session_cfg \<Rightarrow> resource_env \<Rightarrow> channel_resources \<Rightarrow> bool" where
  "fits cfg env r \<longleftrightarrow> cr_ok r \<and> (S_MQS_ENABLED cfg \<longleftrightarrow> cr_c2s r \<noteq> []) \<and> (S_MQS_ENABLED cfg \<longleftrightarrow> cr_s2c r \<noteq> []) \<and>
     (\<exists>nick local. cr_channel r = Channel nick (Channel_obj cfg)
        (if S_MQS_ENABLED cfg then Some (cr_s2c r, cr_c2s r) else None) local \<and>
        (if S_SOCKET_STREAM_ENABLED cfg
         then \<exists>l r'. re_pair env = Inr (l, r') \<and> local = Some l \<and> cr_remote_hndl r = Some r'
         else local = None \<and> cr_remote_hndl r = None))"

lemma channel_made_fits: "cr_ok r \<Longrightarrow> channel_made L cfg env s s' r \<Longrightarrow> fits cfg env r"
  unfolding channel_made_def fits_def by (auto simp: mq_name_def split: if_splits)

text \<open>The answers for \<open>n\<close> init-channels under which all goes well.\<close>

definition init_answers_ok :: "session_cfg \<Rightarrow> (nat \<Rightarrow> srv_init_env) \<Rightarrow> nat \<Rightarrow> bool" where
  "init_answers_ok cfg env n \<longleftrightarrow> (\<forall>i < n. resources_available cfg (si_resources (env i)) \<and>
     (if Suc i = n then si_acked (env i) \<and> si_err (env i) = None else si_send (env i) = Sent_ok))"

lemma open_init_ok:
  assumes "session_names_ok L s" "init_answers_ok cfg env n" "length chans + k = n"
  shows "\<exists>s' rs. open_init_channels L cfg env k chans s = Inr (s', chans @ map cr_channel rs, True, None) \<and>
    length rs = k \<and> s_sent s' = s_sent s @ map (\<lambda>r. open_channel_req_msg (prepared_req r)) rs \<and>
    res_frame s s' \<and> (\<forall>i < k. fits cfg (si_resources (env (length chans + i))) (rs ! i))"
  using assms
proof (induction k arbitrary: chans s)
  case 0
  then show ?case by (intro exI [of _ s] exI [of _ "[]"]) simp
next
  case (Suc k)
  let ?i = "length chans" let ?e = "env (length chans)"
  have a: "resources_available cfg (si_resources ?e)" "send_init_channel (k = 0) ?e = (True, None)"
    using Suc.prems(2,3) by (auto simp: init_answers_ok_def send_init_channel_def)
  from create_outcome [OF Suc.prems(1), of cfg "si_resources ?e" True] a(1) obtain t r where
    c: "create_channel_and_resources L cfg (si_resources ?e) True s = Inr (t, r)" and r: "cr_ok r"
    and m: "channel_made L cfg (si_resources ?e) s t r" by auto
  let ?t = "t\<lparr> s_sent := s_sent s @ [open_channel_req_msg (prepared_req r)] \<rparr>"
  have f: "res_frame s ?t" using create_frame [OF c] by simp
  have step: "open_init_channels L cfg env (Suc k) chans s =
      (if k = 0 then Inr (?t, chans @ [cr_channel r], True, None)
       else open_init_channels L cfg env k (chans @ [cr_channel r]) ?t)"
    using c r a(2) create_sent [OF c] by (simp add: Let_def)
  note fit = channel_made_fits [OF r m]
  show ?case
  proof (cases "k = 0")
    case True
    with step f fit show ?thesis
      by (intro exI [of _ ?t] exI [of _ "[r]"]) simp
  next
    case False
    have "session_names_ok L ?t" using session_names_ok_frame [OF f] Suc.prems(1) by simp
    from Suc.IH [OF this Suc.prems(2), of "chans @ [cr_channel r]"] Suc.prems(3) obtain s' rs where
      "open_init_channels L cfg env k (chans @ [cr_channel r]) ?t = Inr (s', (chans @ [cr_channel r]) @ map cr_channel rs, True, None)"
      "length rs = k" "s_sent s' = s_sent ?t @ map (\<lambda>r. open_channel_req_msg (prepared_req r)) rs"
      "res_frame ?t s'" and rest: "\<forall>i < k. fits cfg (si_resources (env (length chans + Suc i))) (rs ! i)" by auto
    moreover have "\<forall>i < Suc k. fits cfg (si_resources (env (length chans + i))) ((r # rs) ! i)"
      using rest fit by (auto simp: less_Suc_eq_0_disj)
    ultimately show ?thesis using False step res_frame_trans [OF f]
      by (intro exI [of _ s'] exI [of _ "r # rs"]) simp
  qed
qed

text \<open>The out-arguments after a log-in that succeeded with \<open>n > 0\<close> init-channels.\<close>

definition filled_out :: "accept_out \<Rightarrow> nat \<Rightarrow> channel_obj list \<Rightarrow> mdt \<Rightarrow> accept_out" where
  "filled_out out n_cli chans md =
     \<lparr> out_by_srv_req = map_option (\<lambda>_. drop n_cli chans) (out_by_srv_req out),
       out_mdt_from_cli = map_option (\<lambda>_. Some md) (out_mdt_from_cli out),
       out_by_cli_req = map_option (\<lambda>_. take n_cli chans) (out_by_cli_req out) \<rparr>"

lemma emit_srv_ok:
  assumes "length chans = n" "k \<le> n" "out_by_cli_req (s_out s) = None \<Longrightarrow> k = 0"
    "out_by_srv_req (s_out s) = None \<Longrightarrow> k = n"
  shows "emit_init_channels n k chans md s = Inr (s\<lparr> s_out := filled_out (s_out s) k chans md \<rparr>)"
proof -
  obtain a b c where o: "s_out s = \<lparr> out_by_srv_req = a, out_mdt_from_cli = b, out_by_cli_req = c \<rparr>"
    by (cases "s_out s")
  show ?thesis using assms o
    by (cases a; cases b; cases c) (simp_all add: emit_init_channels_def filled_out_def Let_def)
qed

lemma finish_with_ok:
  assumes "session_names_ok L s" "init_answers_ok cfg env n" "k \<le> n"
    "out_by_cli_req (s_out s) = None \<Longrightarrow> k = 0" "out_by_srv_req (s_out s) = None \<Longrightarrow> k = n"
    "m_log_in_on_done_func s = Some h"
  shows "\<exists>s' rs. finish_with_init_channels L cfg env n k md s = Inr s' \<and> length rs = n \<and>
    s_out s' = filled_out (s_out s) k (map cr_channel rs) md \<and>
    s_sent s' = s_sent s @ map (\<lambda>r. open_channel_req_msg (prepared_req r)) rs \<and>
    s_done_calls s' = s_done_calls s @ [(h, None)] \<and> m_master_channel s' = m_master_channel s \<and>
    m_cli_namespace s' = m_cli_namespace s \<and> (\<forall>i < n. fits cfg (si_resources (env i)) (rs ! i)) \<and>
    m_cli_app_ptr s' = m_cli_app_ptr s \<and> m_srv_app_ref s' = m_srv_app_ref s \<and> m_srv_namespace s' = m_srv_namespace s"
proof -
  from open_init_ok [OF assms(1,2), of "[]" n] obtain u rs where
    o: "open_init_channels L cfg env n [] s = Inr (u, map cr_channel rs, True, None)"
    and l: "length rs = n" "s_sent u = s_sent s @ map (\<lambda>r. open_channel_req_msg (prepared_req r)) rs"
    "\<forall>i < n. fits cfg (si_resources (env i)) (rs ! i)" and f: "res_frame s u" by auto
  note e = emit_srv_ok [of "map cr_channel rs" n k u md]
  show ?thesis
    using o l e assms(3-6) res_frame_fields [OF f]
    by (intro exI [of _ "u\<lparr> s_out := filled_out (s_out u) k (map cr_channel rs) md,
        s_done_calls := s_done_calls u @ [(h, None)], m_log_in_on_done_func := None \<rparr>"] exI [of _ rs])
      (simp add: finish_with_init_channels_def finish_log_in_def)
qed

text \<open>The application the request names, and the session once the checks have passed.\<close>

definition app_of :: "accept_callbacks \<Rightarrow> log_in_req \<Rightarrow> Client_app" where
  "app_of cb q = the (cli_app_lookup_func cb (lq_own_app q))"

definition checked :: "accept_callbacks \<Rightarrow> log_in_req \<Rightarrow> server_session \<Rightarrow> server_session" where
  "checked cb q s = s\<lparr> s_expect_log_in := False, m_cli_app_ptr := cli_app_lookup_func cb (lq_own_app q),
     m_cli_namespace := cli_namespace_func cb \<rparr>"

definition ready_for_log_in :: "session_lib \<Rightarrow> session_cfg \<Rightarrow> accept_callbacks \<Rightarrow> process_creds \<Rightarrow> string \<Rightarrow>
    log_in_req \<Rightarrow> server_session \<Rightarrow> bool" where
  "ready_for_log_in L cfg cb creds name q s \<longleftrightarrow>
     m_log_in_on_done_func s \<noteq> None \<and> m_master_channel s \<noteq> None \<and> m_cli_app_ptr s = None \<and>
     m_cli_namespace s = [] \<and> namespace_usable L cb \<and>
     first_failure (log_in_checks L cfg cb creds name q s) = None \<and>
     (out_by_srv_req (s_out s) \<noteq> None \<longrightarrow> unat (lq_n_init_by_cli q) +
        unat (n_init_channels_by_srv_req_func cb (app_of cb q) (lq_n_init_by_cli q) (lq_mdt q)) < 2 ^ 64)"

lemma first_failure_None: "first_failure cs = None \<longleftrightarrow> (\<forall>c \<in> set cs. c = None)"
proof (induction cs)
  case (Cons c cs)
  then show ?case by (cases c) simp_all
qed simp

lemma on_log_in_req_checked:
  assumes "ready_for_log_in L cfg cb creds name q s" "body m = LogInReq q"
  shows "on_log_in_req L cfg cb creds name rsp env m s =
    (let t = checked cb q s; n = total_init_channels cb (app_of cb q) q s;
         u = t\<lparr> s_sent := s_sent s @ [fill_log_in_rsp cb (app_of cb q) q n t] \<rparr> in
     case rsp of
       Refused \<Rightarrow> Inr t
     | Sent_err e \<Rightarrow> finish_log_in (Some e) (t\<lparr> m_master_channel := None \<rparr>)
     | Sent_ok \<Rightarrow> if n = 0 then
           finish_log_in None (if out_mdt_from_cli (s_out s) \<noteq> None
             then u\<lparr> s_out := (s_out s)\<lparr> out_mdt_from_cli := Some (Some (lq_mdt q)) \<rparr> \<rparr> else u)
         else finish_with_init_channels L cfg env (unat n) (unat (lq_n_init_by_cli q)) (lq_mdt q) u)"
proof -
  let ?s = "s\<lparr> s_expect_log_in := False \<rparr>"
  have c: "log_in_checks L cfg cb creds name q ?s = log_in_checks L cfg cb creds name q s"
    by (simp add: log_in_checks_def)
  have "check_log_in_req L cfg cb creds name q ?s = Inr (checked cb q s, Inr (app_of cb q))"
    using check_log_in_req_eq [of ?s L cb cfg creds name q] assms(1) c
    by (auto simp: ready_for_log_in_def checked_def app_of_def)
  moreover have "total_init_channels cb (app_of cb q) q (checked cb q s) = total_init_channels cb (app_of cb q) q s"
    by (simp add: total_init_channels_def checked_def)
  moreover have "s_out (checked cb q s) = s_out s" "s_sent (checked cb q s) = s_sent s"
    by (simp_all add: checked_def)
  moreover have "getLogInReq m = Inr q" using assms(2) by (simp add: getLogInReq_def)
  ultimately show ?thesis
    using assms(1) by (simp add: on_log_in_req_def ready_for_log_in_def Let_def split: send_answer.splits)
qed

lemma total_init_channels_bounds:
  assumes "ready_for_log_in L cfg cb creds name q s"
  shows "unat (lq_n_init_by_cli q) \<le> unat (total_init_channels cb (app_of cb q) q s)"
    "out_by_srv_req (s_out s) = None \<Longrightarrow> total_init_channels cb (app_of cb q) q s = lq_n_init_by_cli q"
    "out_by_cli_req (s_out s) = None \<Longrightarrow> lq_n_init_by_cli q = 0"
  using assms
  by (auto simp: ready_for_log_in_def total_init_channels_def unat_word_ariths first_failure_None
      log_in_checks_def Let_def word_gt_0 split: if_splits)

lemma on_log_in_req_accepted:
  assumes "ready_for_log_in L cfg cb creds name q s" "body m = LogInReq q"
    "session_names_ok L (checked cb q s)"
    "init_answers_ok cfg env (unat (total_init_channels cb (app_of cb q) q s))"
  shows "\<exists>s' rs. on_log_in_req L cfg cb creds name Sent_ok env m s = Inr s' \<and>
    length rs = unat (total_init_channels cb (app_of cb q) q s) \<and>
    s_sent s' = s_sent s @ fill_log_in_rsp cb (app_of cb q) q (total_init_channels cb (app_of cb q) q s) (checked cb q s)
      # map (\<lambda>r. open_channel_req_msg (prepared_req r)) rs \<and>
    s_done_calls s' = s_done_calls s @ [(the (m_log_in_on_done_func s), None)] \<and>
    m_master_channel s' = m_master_channel s \<and> m_cli_namespace s' = cli_namespace_func cb \<and>
    s_out s' = (if rs = [] then (s_out s)\<lparr> out_mdt_from_cli := map_option (\<lambda>_. Some (lq_mdt q)) (out_mdt_from_cli (s_out s)) \<rparr>
      else filled_out (s_out s) (unat (lq_n_init_by_cli q)) (map cr_channel rs) (lq_mdt q)) \<and>
    (\<forall>i < length rs. fits cfg (si_resources (env i)) (rs ! i)) \<and>
    m_cli_app_ptr s' = cli_app_lookup_func cb (lq_own_app q) \<and> m_srv_app_ref s' = m_srv_app_ref s \<and>
    m_srv_namespace s' = m_srv_namespace s"
proof -
  let ?n = "total_init_channels cb (app_of cb q) q s"
  let ?u = "(checked cb q s)\<lparr> s_sent := s_sent s @ [fill_log_in_rsp cb (app_of cb q) q ?n (checked cb q s)] \<rparr>"
  obtain h where h: "m_log_in_on_done_func s = Some h" using assms(1) by (auto simp: ready_for_log_in_def)
  have u: "m_log_in_on_done_func ?u = Some h" "s_done_calls ?u = s_done_calls s" "s_out ?u = s_out s"
    "m_master_channel ?u = m_master_channel s" "s_out (checked cb q s) = s_out s"
    "s_done_calls (checked cb q s) = s_done_calls s" "m_master_channel (checked cb q s) = m_master_channel s"
    "m_log_in_on_done_func (checked cb q s) = Some h" "m_cli_namespace (checked cb q s) = cli_namespace_func cb"
    "m_cli_app_ptr ?u = cli_app_lookup_func cb (lq_own_app q)" "m_srv_app_ref ?u = m_srv_app_ref s"
    "m_srv_namespace ?u = m_srv_namespace s" "m_cli_app_ptr (checked cb q s) = cli_app_lookup_func cb (lq_own_app q)"
    "m_srv_app_ref (checked cb q s) = m_srv_app_ref s" "m_srv_namespace (checked cb q s) = m_srv_namespace s"
    using h by (simp_all add: checked_def)
  note b = total_init_channels_bounds [OF assms(1)]
  show ?thesis
  proof (cases "?n = 0")
    case True
    obtain a d c where o: "s_out s = \<lparr> out_by_srv_req = a, out_mdt_from_cli = d, out_by_cli_req = c \<rparr>"
      by (cases "s_out s")
    from True h u o show ?thesis
      by (cases d) (simp_all add: on_log_in_req_checked [OF assms(1,2)] Let_def finish_log_in_def)
  next
    case False
    have ok: "session_names_ok L ?u" using assms(3) by (simp add: session_names_ok_def)
    from finish_with_ok [OF ok assms(4) b(1) _ _ u(1), of "lq_mdt q"] b u obtain s' rs where
      "finish_with_init_channels L cfg env (unat ?n) (unat (lq_n_init_by_cli q)) (lq_mdt q) ?u = Inr s'"
      "length rs = unat ?n" "s_out s' = filled_out (s_out s) (unat (lq_n_init_by_cli q)) (map cr_channel rs) (lq_mdt q)"
      "s_sent s' = s_sent ?u @ map (\<lambda>r. open_channel_req_msg (prepared_req r)) rs"
      "s_done_calls s' = s_done_calls s @ [(h, None)]" "m_master_channel s' = m_master_channel s"
      "m_cli_namespace s' = cli_namespace_func cb" "\<forall>i < unat ?n. fits cfg (si_resources (env i)) (rs ! i)"
      "m_cli_app_ptr s' = cli_app_lookup_func cb (lq_own_app q)" "m_srv_app_ref s' = m_srv_app_ref s"
      "m_srv_namespace s' = m_srv_namespace s" by auto
    moreover from False this(2) have "rs \<noteq> []" by (auto simp: unat_eq_0)
    ultimately show ?thesis using False h
      by (intro exI [of _ s'] exI [of _ rs]) (simp add: on_log_in_req_checked [OF assms(1,2)] Let_def)
  qed
qed

text \<open>
  C2. A log-in that passes the checks, when no resource or send fails, completes: the response
  goes out, then one request per init-channel (as many as client and server asked for
  together), and the log-in handler is run with success. On both paths to it the metadata of
  the client is handed over; the containers get the channels in order, those for the client's
  request first, and every channel fits the configuration.
\<close>

theorem log_in_accepted:
  assumes "ready_for_log_in L cfg cb creds name q s" "body m = LogInReq q"
    "session_names_ok L (checked cb q s)"
    "init_answers_ok cfg env (unat (total_init_channels cb (app_of cb q) q s))"
  shows "\<exists>s' rs. on_log_in_req L cfg cb creds name Sent_ok env m s = Inr s' \<and>
    length rs = unat (total_init_channels cb (app_of cb q) q s) \<and>
    s_sent s' = s_sent s @ fill_log_in_rsp cb (app_of cb q) q (total_init_channels cb (app_of cb q) q s) (checked cb q s)
      # map (\<lambda>r. open_channel_req_msg (prepared_req r)) rs \<and>
    s_done_calls s' = s_done_calls s @ [(the (m_log_in_on_done_func s), None)] \<and>
    m_master_channel s' = m_master_channel s \<and> m_cli_namespace s' = cli_namespace_func cb \<and>
    s_out s' = (if rs = [] then (s_out s)\<lparr> out_mdt_from_cli := map_option (\<lambda>_. Some (lq_mdt q)) (out_mdt_from_cli (s_out s)) \<rparr>
      else filled_out (s_out s) (unat (lq_n_init_by_cli q)) (map cr_channel rs) (lq_mdt q)) \<and>
    (\<forall>i < length rs. fits cfg (si_resources (env i)) (rs ! i))"
  using on_log_in_req_accepted [OF assms] by blast

text \<open>
  Unless the log-in handler is run with success, the out-arguments of the accept keep their
  values: containers and metadata of the user are written on success only.
\<close>

theorem failed_log_in_keeps_out_args:
  assumes "on_log_in_req L cfg cb creds name rsp env m s = Inr s'"
    "\<nexists>h. s_done_calls s' = s_done_calls s @ [(h, None)]"
  shows "s_out s' = s_out s"
  using log_in_req_cases [OF assms(1)] assms(2)
  by (auto dest: res_frame_fields(3))

lemma open_init_refused:
  assumes "open_init_channels L cfg env k chans s = Inr (s', chans', False, None)"
  shows "\<exists>i. length chans \<le> i \<and> i < length chans + k \<and>
    (si_send (env i) = Refused \<or> \<not> si_acked (env i) \<and> si_err (env i) = None)"
  using assms
proof (induction k arbitrary: chans s)
  case 0
  then show ?case by simp
next
  case (Suc k)
  let ?e = "env (length chans)"
  from Suc.prems obtain t r where c: "create_channel_and_resources L cfg (si_resources ?e) True s = Inr (t, r)"
    by (auto simp: Let_def res_bind_eq_Inr)
  obtain o1 e1 where o1: "send_init_channel (k = 0) ?e = (o1, e1)" by fastforce
  from Suc.prems c o1 have "\<not> o1 \<and> e1 = None \<or>
      (\<exists>t. open_init_channels L cfg env k (chans @ [cr_channel r]) t = Inr (s', chans', False, None))"
    by (auto simp: Let_def split: if_splits)
  then show ?case
  proof (elim disjE exE)
    assume "\<not> o1 \<and> e1 = None"
    with o1 show ?thesis
      by (intro exI [of _ "length chans"]) (auto simp: send_init_channel_def split: if_splits send_answer.splits)
  next
    fix t assume "open_init_channels L cfg env k (chans @ [cr_channel r]) t = Inr (s', chans', False, None)"
    from Suc.IH [OF this] obtain i where i: "Suc (length chans) \<le> i" "i < Suc (length chans + k)"
      "si_send (env i) = Refused \<or> \<not> si_acked (env i) \<and> si_err (env i) = None" by auto
    then show ?thesis by (intro exI [of _ i]) simp
  qed
qed

text \<open>
  The handler of the log-in request leaves the log-in handler pending only if an operation of
  the channel was refused, that is if the channel's error is on its way to
  \<^verbatim>\<open>on_master_channel_error()\<close>, which then runs it.
\<close>

theorem log_in_left_pending_only_if_refused:
  assumes "on_log_in_req L cfg cb creds name rsp env m s = Inr s'" "m_log_in_on_done_func s' \<noteq> None"
    "ready_for_log_in L cfg cb creds name q s" "body m = LogInReq q"
  shows "rsp = Refused \<or> (\<exists>i < unat (total_init_channels cb (app_of cb q) q s).
     si_send (env i) = Refused \<or> \<not> si_acked (env i) \<and> si_err (env i) = None)"
proof -
  let ?n = "unat (total_init_channels cb (app_of cb q) q s)"
  from assms(1,2) have "rsp = Refused \<or> (\<exists>u. finish_with_init_channels L cfg env ?n
      (unat (lq_n_init_by_cli q)) (lq_mdt q) u = Inr s')"
    by (auto simp: on_log_in_req_checked [OF assms(3,4)] Let_def finish_log_in_Inr
        split: send_answer.splits if_splits)
  then show ?thesis
  proof (elim disjE exE)
    fix u assume f: "finish_with_init_channels L cfg env ?n (unat (lq_n_init_by_cli q)) (lq_mdt q) u = Inr s'"
    then obtain v chans ok e where o: "open_init_channels L cfg env ?n [] u = Inr (v, chans, ok, e)"
      by (auto simp: finish_with_init_channels_def res_bind_eq_Inr)
    with f assms(2) have "\<not> ok" "e = None"
      by (auto simp: finish_with_init_channels_def res_bind_eq_Inr finish_log_in_Inr split: if_splits option.splits)
    with o open_init_refused [of L cfg env ?n "[]" u v chans] show ?thesis by auto
  qed simp
qed

section \<open>Entering PEER state\<close>

text \<open>
  \<^verbatim>\<open>init_handlers()\<close> on a session whose log-in succeeded always returns (no assertion trips):
  \<^verbatim>\<open>true\<close> on the first call, after which the session is in PEER state with these handlers, and
  \<^verbatim>\<open>false\<close> with no effect on any later one.
\<close>

theorem init_handlers_takes_effect_once:
  assumes "reach server_ini (server_step L cfg) x" "logged_in (ss x)"
  shows "\<exists>b s'. init_handlers_impl cfg expect_ok (Some h) p (ss x) = Inr (b, s') \<and>
    (if handlers_are_set (ss x) then \<not> b \<and> s' = ss x
     else b \<and> m_on_err_func s' = Some h \<and> m_on_passive_open_channel_func_or_empty s' = p \<and>
       hosed s' = Inr False \<and> fired s' = [] \<and>
       (s_hose_posted s' \<longleftrightarrow> m_pre_init_err_code (ss x) \<noteq> None))"
proof (cases "m_on_err_func (ss x)")
  case (Some h)
  then show ?thesis
    by (intro exI [of _ False] exI [of _ "ss x"]) (simp add: init_handlers_impl_def handlers_are_set_def on_err_func_set_def)
next
  case None
  then have n: "\<not> handlers_are_set (ss x)" by (simp add: handlers_are_set_def on_err_func_set_def)
  have "m_peer_state_err_code_or_ok (ss x) = None" "\<not> s_hose_posted (ss x)" "fired (ss x) = []"
    "m_on_passive_open_channel_func_or_empty (ss x) = None" "m_master_channel (ss x) \<noteq> None"
    using server.reach_inv [OF assms(1)] n assms(2) by (auto simp: server_inv_def Let_def logged_in_def)
  with None show ?thesis
    by (auto simp: init_handlers_impl_def set_on_err_func_def set_on_passive_open_channel_func_def Let_def
        handlers_are_set_def on_err_func_set_def)
qed

text \<open>
  \<^verbatim>\<open>session_token()\<close> of a server session: the token of the master channel in PEER state, null
  once hosed; but before PEER state the call does not return the null token it logs that it
  returns, it trips an assertion.
\<close>

theorem server_session_token:
  "(\<not> handlers_are_set s \<longrightarrow> \<not> returns (Server_Session.session_token s)) \<and>
   (handlers_are_set s \<and> m_peer_state_err_code_or_ok s \<noteq> None \<longrightarrow> Server_Session.session_token s = Inr None) \<and>
   (handlers_are_set s \<and> m_peer_state_err_code_or_ok s = None \<and> m_master_channel s \<noteq> None \<longrightarrow>
      Server_Session.session_token s = Inr (m_master_channel s))"
  by (auto simp: Server_Session.session_token_def hosed_def handlers_are_set_def)

section \<open>Opening channels\<close>

lemma srv_open_channel:
  assumes "m_on_err_func s = Some h" "m_peer_state_err_code_or_ok s = None" "or_opened_channel r \<noteq> Blank"
    and rsp: "\<forall>m. so_rsp env = Some m \<longrightarrow> so_err env = None \<and>
      body m \<in> OpenChannelToClientRsp ` {ACCEPTED, REJECTED_PASSIVE_OPEN}"
  shows "Server_Session.open_channel env (Some r) err s =
    (let s' = s\<lparr> s_sent := s_sent s @ [open_channel_req_msg r] \<rparr> in
     case so_rsp env of
       Some m \<Rightarrow> if body m = OpenChannelToClientRsp ACCEPTED
          then Inr ((True, None, Some (or_opened_channel r)), s')
          else Inr ((True, Some (Session_err S_SESSION_OPEN_CHANNEL_REMOTE_PEER_REJECTED_PASSIVE_OPEN), None), s')
     | None \<Rightarrow> (case so_err env of
         None \<Rightarrow> Inr ((False, None, None), s)
       | Some e \<Rightarrow> if e = Transport_err T_TIMEOUT
          then Inr ((True, Some (Session_err S_SESSION_OPEN_CHANNEL_ACTIVE_TIMEOUT), None), s')
          else Inr ((False, None, None), s\<lparr> m_peer_state_err_code_or_ok := Some e, fired := fired s @ [(h, e)] \<rparr>)))"
proof (cases "so_rsp env")
  case None
  with assms(1-3) show ?thesis
    by (cases "so_err env")
      (simp_all add: Server_Session.open_channel_def handlers_are_set_def on_err_func_set_def hose_set make_error_code_def)
next
  case (Some m)
  with rsp assms(1-3) show ?thesis
    by (auto simp: Server_Session.open_channel_def handlers_are_set_def on_err_func_set_def Let_def
        getOpenChannelToClientRsp_def client_verdict_def make_error_code_def)
qed

text \<open>
  C29. How a server's \<^verbatim>\<open>open_channel()\<close> ends in PEER state with a metadata builder that holds a
  channel: with the client's consent the prepared channel is handed over; a refusal and a
  timeout are reported without harm to the session; any other error hoses the session, which is
  reported through the on-error handler only.
\<close>

theorem server_open_channel_outcome:
  assumes "m_on_err_func s = Some h" "m_peer_state_err_code_or_ok s = None" "or_opened_channel r \<noteq> Blank"
    and rsp: "\<forall>m. so_rsp env = Some m \<longrightarrow> so_err env = None \<and>
      body m \<in> OpenChannelToClientRsp ` {ACCEPTED, REJECTED_PASSIVE_OPEN}"
  shows "Server_Session.open_channel env (Some r) err s =
    (let s' = s\<lparr> s_sent := s_sent s @ [open_channel_req_msg r] \<rparr> in
     case so_rsp env of
       Some m \<Rightarrow> if body m = OpenChannelToClientRsp ACCEPTED
          then Inr ((True, None, Some (or_opened_channel r)), s')
          else Inr ((True, Some (Session_err S_SESSION_OPEN_CHANNEL_REMOTE_PEER_REJECTED_PASSIVE_OPEN), None), s')
     | None \<Rightarrow> (case so_err env of
         None \<Rightarrow> Inr ((False, None, None), s)
       | Some e \<Rightarrow> if e = Transport_err T_TIMEOUT
          then Inr ((True, Some (Session_err S_SESSION_OPEN_CHANNEL_ACTIVE_TIMEOUT), None), s')
          else Inr ((False, None, None), s\<lparr> m_peer_state_err_code_or_ok := Some e, fired := fired s @ [(h, e)] \<rparr>)))"
  by (rule srv_open_channel [OF assms])

text \<open>
  On a session that is hosed already, opening a channel without metadata does not return
  \<^verbatim>\<open>false\<close>, as a prior error should make it: the builder it prepares is indistinguishable
  from one whose resources could not be had, so it returns \<^verbatim>\<open>true\<close> with the
  resource-unavailable code.
\<close>

theorem open_channel_on_hosed_server_session:
  assumes "handlers_are_set s" "hosed s = Inr True" "m_master_channel s \<noteq> None"
  shows "open_channel_no_mdt L cfg renv env err s =
    Inr ((True, Some (Session_err S_SESSION_OPEN_CHANNEL_SERVER_CANNOT_PROCEED_RESOURCE_UNAVAILABLE), None), s)"
proof -
  from assms obtain h e where "m_on_err_func s = Some h" "m_peer_state_err_code_or_ok s = Some e" by auto
  with assms(1,3) show ?thesis
    by (simp add: open_channel_no_mdt_def Server_Session.mdt_builder_def Server_Session.open_channel_def
        prepared_req_def no_resources_def make_error_code_def)
qed

text \<open>
  When queues and socket pair of an active open can be had but the construction of the channel
  fails, \<^verbatim>\<open>mdt_builder()\<close> trips an assertion instead of recording the failure: the
  remote handle has been set by then.
\<close>

theorem channel_construction_failure_trips_assertion:
  assumes "m_on_err_func s = Some h" "m_peer_state_err_code_or_ok s = None" "session_names_ok L s"
    "S_MQS_ENABLED cfg" "S_SOCKET_STREAM_ENABLED cfg"
    "re_mq_c2s renv = None" "re_mq_s2c renv = None" "re_pair renv = Inr p" "re_channel renv = Some e"
  shows "\<not> returns (Server_Session.mdt_builder L cfg renv s)"
proof -
  obtain nick t where n: "Server_Session.channel_nickname True s = (nick, t)" by fastforce
  from channel_nickname_frame(1) [OF n] assms(3) have "session_names_ok L t" by (simp add: session_names_ok_frame)
  note m = make_channel_mqs_form [OF this, of renv]
  obtain a b where p: "p = (a, b)" by fastforce
  show ?thesis
    using assms n m p
    by (simp add: Server_Session.mdt_builder_def handlers_are_set_def on_err_func_set_def
        create_channel_and_resources_def create_mq_channel_def no_resources_def Let_def)
qed

lemma srv_passive_open:
  assumes "m_on_err_func s = Some h" "m_peer_state_err_code_or_ok s = None" "m_master_channel s \<noteq> None"
    "session_names_ok L s" "body m = OpenChannelToServerReq md" "sp_rsp env = Sent_ok"
  shows "\<exists>s' r. Server_Session.on_master_channel_open_channel_req L cfg env m s = Inr s' \<and>
    s_sent s' = s_sent s @ [open_channel_rsp_to_cli
      (if m_on_passive_open_channel_func_or_empty s = None then REJECTED_PASSIVE_OPEN
       else if resources_available cfg (sp_resources env) then ACCEPTED else REJECTED_RESOURCE_UNAVAILABLE) r] \<and>
    s_passive_calls s' = s_passive_calls s @
      (case m_on_passive_open_channel_func_or_empty s of
         Some f \<Rightarrow> if resources_available cfg (sp_resources env) then [(f, cr_channel r, md)] else []
       | None \<Rightarrow> []) \<and>
    (m_on_passive_open_channel_func_or_empty s \<noteq> None \<and> resources_available cfg (sp_resources env) \<longrightarrow> fits cfg (sp_resources env) r) \<and>
    hosed s' = Inr False"
proof (cases "m_on_passive_open_channel_func_or_empty s")
  case None
  with assms show ?thesis
    by (intro exI [of _ "s\<lparr> s_sent := s_sent s @ [open_channel_rsp_to_cli REJECTED_PASSIVE_OPEN no_resources] \<rparr>"]
        exI [of _ no_resources])
      (simp add: Server_Session.on_master_channel_open_channel_req_def decide_passive_open_def Let_def
        on_passive_open_channel_func_or_empty_def Server_Session.respond_passive_open_def)
next
  case (Some f)
  from create_outcome [OF assms(4), of cfg "sp_resources env" False] obtain t r where
    c: "create_channel_and_resources L cfg (sp_resources env) False s = Inr (t, r)"
    and o: "if resources_available cfg (sp_resources env) then cr_ok r \<and> channel_made L cfg (sp_resources env) s t r
     else \<not> cr_ok r" by (auto split: if_splits)
  note t = res_frame_fields [OF create_frame [OF c]] create_sent [OF c]
  have fit: "cr_ok r \<Longrightarrow> fits cfg (sp_resources env) r" using o channel_made_fits by (auto split: if_splits)
  then have g: "cr_ok r \<Longrightarrow> cr_remote_hndl r = None \<Longrightarrow> cr_c2s r \<noteq> [] \<and> cr_s2c r \<noteq> []"
    by (auto simp: fits_def S_SOCKET_STREAM_ENABLED_def)
  have ok: "cr_ok r \<longleftrightarrow> resources_available cfg (sp_resources env)" using o by (auto split: if_splits)
  let ?res = "if cr_ok r then ACCEPTED else REJECTED_RESOURCE_UNAVAILABLE"
  let ?u = "t\<lparr> s_sent := s_sent t @ [open_channel_rsp_to_cli ?res r] \<rparr>"
  have d: "decide_passive_open L cfg (sp_resources env) (Some f) s = Inr (t, r, ?res)"
    using c by (simp add: decide_passive_open_def)
  show ?thesis
    using assms Some t d g ok fit
    by (intro exI [of _ "if cr_ok r then ?u\<lparr> s_passive_calls := s_passive_calls t @ [(f, cr_channel r, md)] \<rparr> else ?u"]
        exI [of _ r])
      (auto simp: Server_Session.on_master_channel_open_channel_req_def Let_def getOpenChannelToServerReq_def
        on_passive_open_channel_func_or_empty_def Server_Session.respond_passive_open_def)
qed

text \<open>
  C30. How a server answers a client's request to open a channel: it refuses if no handler was
  given; it reports that resources are unavailable if they are; else it sends their names and
  the handle and, once that is sent, hands channel and metadata to the handler.
\<close>

theorem server_passive_open_outcome:
  assumes "m_on_err_func s = Some h" "m_peer_state_err_code_or_ok s = None" "m_master_channel s \<noteq> None"
    "session_names_ok L s" "body m = OpenChannelToServerReq md" "sp_rsp env = Sent_ok"
  shows "\<exists>s' r. Server_Session.on_master_channel_open_channel_req L cfg env m s = Inr s' \<and>
    s_sent s' = s_sent s @ [open_channel_rsp_to_cli
      (if m_on_passive_open_channel_func_or_empty s = None then REJECTED_PASSIVE_OPEN
       else if resources_available cfg (sp_resources env) then ACCEPTED else REJECTED_RESOURCE_UNAVAILABLE) r] \<and>
    s_passive_calls s' = s_passive_calls s @
      (case m_on_passive_open_channel_func_or_empty s of
         Some f \<Rightarrow> if resources_available cfg (sp_resources env) then [(f, cr_channel r, md)] else []
       | None \<Rightarrow> []) \<and>
    (m_on_passive_open_channel_func_or_empty s \<noteq> None \<and> resources_available cfg (sp_resources env) \<longrightarrow> fits cfg (sp_resources env) r) \<and>
    hosed s' = Inr False"
  by (rule srv_passive_open [OF assms])

section \<open>Destruction\<close>

text \<open>
  Over the life of a server session its log-in handler runs exactly once, the destructor
  included: a handler still pending is run by the destructor, with the code for aborted
  operations; otherwise the destructor runs no log-in handler. The subclass's task runs last.
\<close>

theorem server_dtor_completes_log_in:
  assumes "reach server_ini (server_step L cfg) x" "\<not> S_GRACEFUL_FINISH_REQUIRED cfg"
  shows "\<exists>s'. dtor_Server_session_impl cfg (ss x) = Some s' \<and> length (s_done_calls s') = 1 \<and>
    (\<forall>h. m_log_in_on_done_func (ss x) = Some h \<longrightarrow>
       s_done_calls s' = [(h, Some (Session_err S_OBJECT_SHUTDOWN_ABORTED_COMPLETION_HANDLER))]) \<and>
    (m_log_in_on_done_func (ss x) = None \<longrightarrow> s_done_calls s' = s_done_calls (ss x)) \<and>
    s_deinit_calls s' = s_deinit_calls (ss x) @
      (case m_deinit_func_or_empty (ss x) of None \<Rightarrow> [] | Some task \<Rightarrow> [task])"
proof (cases "m_log_in_on_done_func (ss x)")
  case None
  then have "length (s_done_calls (ss x)) = 1"
    using server.reach_inv [OF assms(1)] by (auto simp: server_inv_def Let_def le_Suc_eq)
  with None assms(2) show ?thesis
    by (auto simp: dtor_Server_session_impl_def Server_Session.dtor_async_worker_stop_def Let_def split: option.splits)
next
  case (Some h)
  then have "s_done_calls (ss x) = []"
    using server.reach_inv [OF assms(1)] by (auto simp: server_inv_def Let_def)
  with Some assms(2) show ?thesis
    by (auto simp: dtor_Server_session_impl_def Server_Session.dtor_async_worker_stop_def Let_def make_error_code_def
        split: option.splits)
qed

section \<open>A concrete run\<close>

definition demo_srv_cfg :: session_cfg where
  "demo_srv_cfg = \<lparr> S_MQ_TYPE_OR_NONE = MQ_POSIX, S_TRANSMIT_NATIVE_HANDLES = True,
     S_SHM_TYPE_OR_NONE = SHM_NONE, S_GRACEFUL_FINISH_REQUIRED = False \<rparr>"

definition demo_callbacks :: accept_callbacks where
  "demo_callbacks = \<lparr> cli_app_lookup_func = [''cli'' \<mapsto> demo_cli_app], cli_namespace_func = ''1'',
     pre_rsp_setup_func = None, n_init_channels_by_srv_req_func = (\<lambda>_ _ _. 1), mdt_load_func = (\<lambda>_ _ _. [4]) \<rparr>"

definition demo_creds :: process_creds where
  "demo_creds = \<lparr> pc_process_id = 99, pc_user_id = 1000, pc_group_id = 100 \<rparr>"

definition demo_req :: log_in_req where
  "demo_req = \<lparr> lq_max_proto_ver = 1, lq_max_proto_ver_aux = 1, lq_mq_type = MQ_POSIX, lq_native_handles = True,
     lq_creds = demo_creds, lq_own_app = ''cli'', lq_shm_type = SHM_NONE, lq_mdt = [5], lq_n_init_by_cli = 1 \<rparr>"

definition demo_req_msg :: msg where
  "demo_req_msg = \<lparr> body = LogInReq demo_req, native_handle_or_null = None \<rparr>"

definition demo_accept_out :: accept_out where
  "demo_accept_out = \<lparr> out_by_srv_req = Some [], out_mdt_from_cli = Some None, out_by_cli_req = Some [] \<rparr>"

definition demo_resources :: resource_env where
  "demo_resources = \<lparr> re_mq_c2s = None, re_mq_s2c = None, re_pair = Inr (31, 32), re_channel = None \<rparr>"

definition demo_init_env :: "nat \<Rightarrow> srv_init_env" where
  "demo_init_env i = \<lparr> si_resources = demo_resources, si_send = Sent_ok, si_acked = True, si_err = None \<rparr>"

definition demo_s0 :: server_session where
  "demo_s0 = async_accept_log_in demo_accept_out 21 (Server_session_impl 77 demo_srv_app)"

definition demo_accept_env :: accept_env where
  "demo_accept_env = \<lparr> ae_os_proc_creds = Inr demo_creds, ae_os_proc_invoked_as = Inr ''/bin/cli'',
     ae_opposing_proc_creds = None, ae_new_channel = 3, ae_expect_ok = True \<rparr>"

definition demo_s1 :: server_session where
  "demo_s1 = demo_s0\<lparr> m_master_sock_stm := False, m_master_channel := Some 3, s_expect_log_in := True \<rparr>"

abbreviation demo_sx :: "server_session \<Rightarrow> chan_status \<Rightarrow> bool \<Rightarrow> server_sys" where
  "demo_sx s st b \<equiv> \<lparr> ss = s, sst = st, started = b \<rparr>"

abbreviation demo_srv_reach :: "server_sys \<Rightarrow> bool" where
  "demo_srv_reach \<equiv> reach server_ini (server_step demo_session_lib demo_srv_cfg)"

lemma demo_srv_cfg_simps [simp]: "S_MQS_ENABLED demo_srv_cfg" "S_SOCKET_STREAM_ENABLED demo_srv_cfg"
  "\<not> S_GRACEFUL_FINISH_REQUIRED demo_srv_cfg"
  by (simp_all add: demo_srv_cfg_def S_MQS_ENABLED_def S_SOCKET_STREAM_ENABLED_def)

lemma demo_s1_simps [simp]: "m_log_in_on_done_func demo_s1 = Some 21" "m_master_channel demo_s1 = Some 3"
  "m_cli_app_ptr demo_s1 = None" "m_cli_namespace demo_s1 = []" "m_srv_app_ref demo_s1 = demo_srv_app"
  "s_out demo_s1 = demo_accept_out" "s_done_calls demo_s1 = []" "m_srv_namespace demo_s1 = int_to_string 77"
  "s_expect_log_in demo_s1" "s_sent demo_s1 = []" "m_last_channel_mq_id demo_s1 = 0" "s_mqs demo_s1 = []"
  by (simp_all add: demo_s1_def demo_s0_def async_accept_log_in_def Server_session_impl_def
      session_base.defs Session_base_srv_def)

lemma demo_srv_reach0: "demo_srv_reach (demo_sx demo_s0 Ch_ok False)"
  by (rule reach_init) (auto simp: server_ini_def demo_s0_def)

lemma demo_srv_reach1: "demo_srv_reach (demo_sx demo_s1 Ch_ok True)"
proof -
  have "accept_log_in_start demo_accept_env demo_s0 = Inr demo_s1"
    by (simp add: accept_log_in_start_def demo_accept_env_def demo_s1_def)
      (simp add: demo_s0_def async_accept_log_in_def Server_session_impl_def session_base.defs)
  from reach_step [OF demo_srv_reach0 server_step.start [where st' = Ch_ok and env = demo_accept_env and s' = demo_s1]] this
  show ?thesis by (simp add: demo_accept_env_def)
qed

lemma demo_ready: "ready_for_log_in demo_session_lib demo_srv_cfg demo_callbacks demo_creds ''/bin/cli'' demo_req demo_s1"
  by (simp add: ready_for_log_in_def namespace_usable_def log_in_checks_def demo_callbacks_def demo_req_def
      demo_srv_cfg_def demo_accept_out_def demo_cli_app_def demo_creds_def demo_session_lib_def demo_lib_def
      demo_srv_app_def)

lemma demo_app_of [simp]: "app_of demo_callbacks demo_req = demo_cli_app"
  by (simp add: app_of_def demo_callbacks_def demo_req_def)

lemma demo_total [simp]: "total_init_channels demo_callbacks demo_cli_app demo_req demo_s1 = 2"
  by (simp add: total_init_channels_def demo_accept_out_def demo_callbacks_def demo_req_def)

lemma demo_names_ok: "session_names_ok demo_session_lib (checked demo_callbacks demo_req demo_s1)"
  using demo_srv_app_ok sn_piece_int_to_string [OF demo_lib_laws, of 77]
  by (simp add: session_names_ok_def checked_def demo_callbacks_def demo_req_def sn_sentinel [OF demo_lib_laws])
    (simp add: demo_cli_app_def demo_lib_def sn_piece_def no_sep_def)

lemma demo_answers_ok: "init_answers_ok demo_srv_cfg demo_init_env n"
  by (auto simp: init_answers_ok_def demo_init_env_def resources_available_def demo_resources_def)

definition demo_req0 :: log_in_req where
  "demo_req0 = demo_req\<lparr> lq_n_init_by_cli := 0 \<rparr>"

definition demo_callbacks0 :: accept_callbacks where
  "demo_callbacks0 = demo_callbacks\<lparr> n_init_channels_by_srv_req_func := (\<lambda>_ _ _. 0) \<rparr>"

definition demo_req0_msg :: msg where
  "demo_req0_msg = \<lparr> body = LogInReq demo_req0, native_handle_or_null = None \<rparr>"

definition demo_s2 :: server_session where
  "demo_s2 = (checked demo_callbacks0 demo_req0 demo_s1)
     \<lparr> s_sent := [fill_log_in_rsp demo_callbacks0 demo_cli_app demo_req0 0 (checked demo_callbacks0 demo_req0 demo_s1)],
       s_out := demo_accept_out\<lparr> out_mdt_from_cli := Some (Some [5]) \<rparr>,
       s_done_calls := [(21, None)], m_log_in_on_done_func := None \<rparr>"

definition demo_s3 :: server_session where
  "demo_s3 = demo_s2\<lparr> m_on_err_func := Some 7, m_on_passive_open_channel_func_or_empty := Some 8,
     s_expect_open := True \<rparr>"

definition demo_s4 :: server_session where
  "demo_s4 = demo_s2\<lparr> m_pre_init_err_code := Some (Transport_err (T_OTHER 1)), m_on_err_func := Some 7,
     m_on_passive_open_channel_func_or_empty := Some 8, s_hose_posted := True \<rparr>"

lemma demo_ready0: "ready_for_log_in demo_session_lib demo_srv_cfg demo_callbacks0 demo_creds ''/bin/cli'' demo_req0 demo_s1"
  by (simp add: ready_for_log_in_def namespace_usable_def log_in_checks_def demo_callbacks0_def demo_callbacks_def
      demo_req0_def demo_req_def demo_srv_cfg_def demo_accept_out_def demo_cli_app_def demo_creds_def
      demo_session_lib_def demo_lib_def demo_srv_app_def)

lemma demo_log_in_req: "on_log_in_req demo_session_lib demo_srv_cfg demo_callbacks0 demo_creds ''/bin/cli''
    Sent_ok env demo_req0_msg demo_s1 = Inr demo_s2"
proof -
  have "app_of demo_callbacks0 demo_req0 = demo_cli_app"
    "total_init_channels demo_callbacks0 demo_cli_app demo_req0 demo_s1 = 0" "lq_mdt demo_req0 = [5]"
    by (simp_all add: app_of_def demo_callbacks0_def demo_callbacks_def demo_req0_def demo_req_def
        total_init_channels_def demo_accept_out_def)
  then show ?thesis
    by (simp add: on_log_in_req_checked [OF demo_ready0] demo_req0_msg_def Let_def demo_accept_out_def finish_log_in_def)
      (simp add: checked_def demo_s2_def demo_accept_out_def)
qed

lemma demo_s2_simps [simp]: "m_log_in_on_done_func demo_s2 = None" "s_done_calls demo_s2 = [(21, None)]"
  "m_master_channel demo_s2 = Some 3" "m_on_err_func demo_s2 = None" "m_pre_init_err_code demo_s2 = None"
  "m_on_passive_open_channel_func_or_empty demo_s2 = None" "m_peer_state_err_code_or_ok demo_s2 = None"
  "fired demo_s2 = []" "s_mqs demo_s2 = []" "m_last_channel_mq_id demo_s2 = 0"
  by (simp_all add: demo_s2_def checked_def)
    (simp_all add: demo_s1_def demo_s0_def async_accept_log_in_def Server_session_impl_def
      session_base.defs Session_base_srv_def)

lemma demo_s3_simps [simp]: "m_log_in_on_done_func demo_s3 = None" "m_master_channel demo_s3 = Some 3"
  "m_on_err_func demo_s3 = Some 7" "m_on_passive_open_channel_func_or_empty demo_s3 = Some 8"
  "m_peer_state_err_code_or_ok demo_s3 = None" "fired demo_s3 = []" "s_passive_calls demo_s3 = s_passive_calls demo_s2"
  "handlers_are_set demo_s3"
  by (simp_all add: demo_s3_def handlers_are_set_def on_err_func_set_def)

lemma demo_logged_in [simp]: "logged_in demo_s2"
  by (simp add: logged_in_def)

lemma demo_s3_names: "session_names_ok demo_session_lib demo_s2" "session_names_ok demo_session_lib demo_s3"
  using demo_names_ok
  by (simp_all add: session_names_ok_def demo_s3_def demo_s2_def checked_def demo_callbacks0_def demo_callbacks_def
      demo_req0_def demo_req_def)

lemma demo_srv_reach1_failing: "demo_srv_reach (demo_sx demo_s1 (Ch_err_pending e) True)"
  using reach_step [OF demo_srv_reach1 server_step.channel_fails [where e = e]] by simp

lemma demo_srv_reach2: "demo_srv_reach (demo_sx demo_s2 Ch_ok True)"
  using reach_step [OF demo_srv_reach1 server_step.log_in_req [where s' = demo_s2 and st' = Ch_ok and
      cb = demo_callbacks0 and creds = demo_creds and name = "''/bin/cli''" and rsp = Sent_ok and
      env = demo_init_env and m = demo_req0_msg]]
    demo_log_in_req by simp

lemma demo_init_handlers: "init_handlers_impl demo_srv_cfg True (Some 7) (Some 8) demo_s2 = Inr (True, demo_s3)"
  by (simp add: init_handlers_impl_def handlers_are_set_def on_err_func_set_def set_on_err_func_def
      set_on_passive_open_channel_func_def Let_def demo_s3_def)

lemma demo_srv_reach3: "demo_srv_reach (demo_sx demo_s3 Ch_ok True)"
  using reach_step [OF demo_srv_reach2 server_step.init_handlers [where h = 7 and p = "Some 8" and b = True
        and expect_ok = True and s' = demo_s3 and st' = Ch_ok]] demo_init_handlers
  by (simp add: handlers_are_set_def on_err_func_set_def)

lemma demo_srv_reach4: "demo_srv_reach (demo_sx demo_s4 Ch_err_emitted True)"
proof -
  let ?e = "Transport_err (T_OTHER 1)"
  let ?s = "demo_s2\<lparr> m_pre_init_err_code := Some ?e \<rparr>"
  have "demo_srv_reach (demo_sx demo_s2 (Ch_err_pending ?e) True)"
    using reach_step [OF demo_srv_reach2 server_step.channel_fails [where e = ?e]] by simp
  moreover have "on_master_channel_error demo_srv_cfg ?e demo_s2 = Inr ?s"
    by (simp add: on_master_channel_error_def handlers_are_set_def on_err_func_set_def)
  ultimately have "demo_srv_reach (demo_sx ?s Ch_err_emitted True)"
    using reach_step server_step.error [of "demo_sx demo_s2 (Ch_err_pending ?e) True" ?e demo_srv_cfg ?s] by fastforce
  moreover have "init_handlers_impl demo_srv_cfg True (Some 7) (Some 8) ?s = Inr (True, demo_s4)"
    by (simp add: init_handlers_impl_def handlers_are_set_def on_err_func_set_def set_on_err_func_def
        set_on_passive_open_channel_func_def demo_s4_def)
  ultimately show ?thesis
    using reach_step server_step.init_handlers [of "demo_sx ?s Ch_err_emitted True" Ch_err_emitted True demo_srv_cfg 7 "Some 8" True demo_s4]
    by (fastforce simp: logged_in_def)
qed

section \<open>Witnesses\<close>

theorem mq_name_identifies_channel_witness:
  "mq_name_func demo_session_lib True demo_s3 \<noteq> mq_name_func demo_session_lib False demo_s3 \<and>
   mq_name_func demo_session_lib True demo_s3 \<noteq> mq_name_func demo_session_lib True (demo_s3\<lparr> m_cli_namespace := ''2'' \<rparr>)"
proof -
  let ?t = "demo_s3\<lparr> m_cli_namespace := ''2'' \<rparr>"
  have c: "m_cli_namespace demo_s3 = ''1''"
    by (simp add: demo_s3_def demo_s2_def checked_def demo_callbacks0_def demo_callbacks_def)
  have t: "session_names_ok demo_session_lib ?t"
    using demo_s3_names(2) by (simp add: session_names_ok_def) (simp add: demo_lib_def sn_piece_def no_sep_def)
  show ?thesis
    using mq_name_identifies_channel [OF demo_s3_names(2) demo_s3_names(2), of True False]
      mq_name_identifies_channel [OF demo_s3_names(2) t, of True True] c by simp
qed

lemma demo_resources_ok: "resources_available demo_srv_cfg demo_resources"
  by (simp add: resources_available_def demo_resources_def)


theorem new_queue_names_are_fresh_witness:
  "\<exists>s' r. create_channel_and_resources demo_session_lib demo_srv_cfg demo_resources True demo_s2 = Inr (s', r) \<and>
     mqs_ok demo_session_lib s' \<and> cr_c2s r \<noteq> cr_s2c r"
proof -
  from create_outcome [OF demo_s3_names(1), of demo_srv_cfg demo_resources True] obtain s' r where
    c: "create_channel_and_resources demo_session_lib demo_srv_cfg demo_resources True demo_s2 = Inr (s', r)" "cr_ok r"
    using demo_resources_ok by auto
  have "mqs_ok demo_session_lib demo_s2" "unat (m_last_channel_mq_id demo_s2) + 1 < 2 ^ 32"
    by (simp_all add: mqs_ok_def)
  from new_queue_names_are_fresh [OF demo_s3_names(1) this c(1)] c show ?thesis by auto
qed

theorem server_log_in_once_witness: "m_log_in_on_done_func demo_s1 \<noteq> None \<and> s_done_calls demo_s1 = []"
  using server_log_in_once [OF demo_srv_reach1] by simp

theorem server_emits_once_witness: "fired demo_s4 = [] \<and> s_hose_posted demo_s4 \<and> \<not> handlers_are_set demo_s2"
  using server_emits_once [OF demo_srv_reach4] by (simp add: demo_s4_def handlers_are_set_def on_err_func_set_def)

theorem cached_error_is_emitted_witness:
  "\<exists>s'. emit_cached_error demo_s4 = Inr s' \<and> fired s' = [(7, Transport_err (T_OTHER 1))]"
  using cached_error_is_emitted [OF demo_srv_reach4] by (auto simp: demo_s4_def)

theorem server_error_handled_witness:
  "\<exists>s'. on_master_channel_error demo_srv_cfg (Transport_err (T_OTHER 1)) demo_s1 = Inr s' \<and>
     s_done_calls s' = [(21, Some (Transport_err (T_OTHER 1)))]"
  using server_error_handled [OF demo_srv_reach1_failing [where e = "Transport_err (T_OTHER 1)"]] by auto

theorem log_in_request_gauntlet_witness:
  "\<exists>s'. on_log_in_req demo_session_lib demo_srv_cfg demo_callbacks demo_creds ''/bin/other'' Sent_ok demo_init_env
       demo_req_msg demo_s1 = Inr s' \<and>
     s_done_calls s' = [(21, Some (Session_err S_SERVER_MASTER_LOG_IN_REQUEST_CLIENT_APP_INCONSISTENT_CREDS))]"
proof -
  have "namespace_usable demo_session_lib demo_callbacks" "body demo_req_msg = LogInReq demo_req"
    using demo_ready by (simp_all add: ready_for_log_in_def demo_req_msg_def)
  moreover have "first_failure (log_in_checks demo_session_lib demo_srv_cfg demo_callbacks demo_creds ''/bin/other''
      demo_req demo_s1) = Some (Session_err S_SERVER_MASTER_LOG_IN_REQUEST_CLIENT_APP_INCONSISTENT_CREDS)"
    by (simp add: log_in_checks_def demo_callbacks_def demo_req_def demo_srv_cfg_def demo_accept_out_def
        demo_cli_app_def demo_creds_def demo_srv_app_def)
  ultimately show ?thesis
    using log_in_request_gauntlet [of demo_s1 21 demo_session_lib demo_callbacks demo_req_msg demo_req,
        where cfg = demo_srv_cfg and creds = demo_creds and name = "''/bin/other''" and rsp = Sent_ok and env = demo_init_env]
    by auto
qed

theorem log_in_accepted_witness:
  "\<exists>s'. on_log_in_req demo_session_lib demo_srv_cfg demo_callbacks demo_creds ''/bin/cli'' Sent_ok demo_init_env
       demo_req_msg demo_s1 = Inr s' \<and> s_done_calls s' = [(21, None)] \<and>
     length (the (out_by_cli_req (s_out s'))) = 1 \<and> length (the (out_by_srv_req (s_out s'))) = 1"
proof -
  have "body demo_req_msg = LogInReq demo_req" "unat (lq_n_init_by_cli demo_req) = 1"
    by (simp_all add: demo_req_msg_def demo_req_def)
  then show ?thesis
    using log_in_accepted [OF demo_ready _ demo_names_ok demo_answers_ok, of demo_req_msg]
    by (auto simp: filled_out_def demo_accept_out_def)
qed

theorem failed_log_in_keeps_out_args_witness:
  "\<exists>s'. on_log_in_req demo_session_lib demo_srv_cfg demo_callbacks demo_creds ''/bin/cli'' Refused demo_init_env
       demo_req_msg demo_s1 = Inr s' \<and> s_out s' = demo_accept_out"
proof -
  have "on_log_in_req demo_session_lib demo_srv_cfg demo_callbacks demo_creds ''/bin/cli'' Refused demo_init_env
       demo_req_msg demo_s1 = Inr (checked demo_callbacks demo_req demo_s1)"
    using on_log_in_req_checked [OF demo_ready] by (simp add: demo_req_msg_def)
  moreover from failed_log_in_keeps_out_args [OF this] have "s_out (checked demo_callbacks demo_req demo_s1) = demo_accept_out"
    by (simp add: checked_def)
  ultimately show ?thesis by simp
qed

theorem init_handlers_takes_effect_once_witness:
  "\<exists>s'. init_handlers_impl demo_srv_cfg True (Some 7) (Some 8) demo_s2 = Inr (True, s') \<and> m_on_err_func s' = Some 7"
  using init_handlers_takes_effect_once [OF demo_srv_reach2, of True 7 "Some 8"]
  by (auto simp: handlers_are_set_def on_err_func_set_def)

theorem server_session_token_witness:
  "\<not> returns (Server_Session.session_token demo_s2) \<and> Server_Session.session_token demo_s3 = Inr (Some 3)"
  using server_session_token [of demo_s2] server_session_token [of demo_s3]
  by (simp add: handlers_are_set_def on_err_func_set_def)

definition demo_open_req :: open_channel_req where
  "demo_open_req = \<lparr> or_root = \<lparr> oc_mq_c2s_or_empty = ''a'', oc_mq_s2c_or_empty = ''b'', oc_mdt = [] \<rparr>,
     or_hndl = Some 32, or_opened_channel = Channel ''active1'' Mqs_socket_stream_channel (Some (''b'', ''a'')) (Some 31) \<rparr>"

theorem server_open_channel_outcome_witness:
  "fst (projr (Server_Session.open_channel \<lparr> so_rsp = None, so_err = Some (Transport_err T_TIMEOUT) \<rparr>
     (Some demo_open_req) None demo_s3)) = (True, Some (Session_err S_SESSION_OPEN_CHANNEL_ACTIVE_TIMEOUT), None)"
  using server_open_channel_outcome [of demo_s3 7 demo_open_req "\<lparr> so_rsp = None, so_err = Some (Transport_err T_TIMEOUT) \<rparr>" None]
  by (simp add: demo_open_req_def Let_def)

theorem open_channel_on_hosed_server_session_witness:
  "\<exists>s. open_channel_no_mdt demo_session_lib demo_srv_cfg demo_resources \<lparr> so_rsp = None, so_err = None \<rparr> None s =
    Inr ((True, Some (Session_err S_SESSION_OPEN_CHANNEL_SERVER_CANNOT_PROCEED_RESOURCE_UNAVAILABLE), None), s)"
  by (rule exI, rule open_channel_on_hosed_server_session
      [of "demo_s3\<lparr> m_peer_state_err_code_or_ok := Some (Transport_err T_TIMEOUT) \<rparr>"])
    (simp_all add: handlers_are_set_def on_err_func_set_def)

theorem channel_construction_failure_trips_assertion_witness:
  "\<not> returns (Server_Session.mdt_builder demo_session_lib demo_srv_cfg
     (demo_resources\<lparr> re_channel := Some (System_err 24) \<rparr>) demo_s3)"
  using channel_construction_failure_trips_assertion [OF _ _ demo_s3_names(2), of 7 demo_srv_cfg
      "demo_resources\<lparr> re_channel := Some (System_err 24) \<rparr>" "(31, 32)" "System_err 24"]
  by (simp add: demo_resources_def)

theorem server_passive_open_outcome_witness:
  "\<exists>s' f ch. Server_Session.on_master_channel_open_channel_req demo_session_lib demo_srv_cfg
     \<lparr> sp_resources = demo_resources, sp_rsp = Sent_ok \<rparr> \<lparr> body = OpenChannelToServerReq [6], native_handle_or_null = None \<rparr>
     demo_s3 = Inr s' \<and> s_passive_calls s' = s_passive_calls demo_s2 @ [(8, ch, [6])]"
  using server_passive_open_outcome [OF _ _ _ demo_s3_names(2), of 7
      "\<lparr> body = OpenChannelToServerReq [6], native_handle_or_null = None \<rparr>" "[6]"
      "\<lparr> sp_resources = demo_resources, sp_rsp = Sent_ok \<rparr>" demo_srv_cfg] demo_resources_ok
  by auto

theorem server_dtor_completes_log_in_witness:
  "\<exists>s'. dtor_Server_session_impl demo_srv_cfg demo_s1 = Some s' \<and>
     s_done_calls s' = [(21, Some (Session_err S_OBJECT_SHUTDOWN_ABORTED_COMPLETION_HANDLER))]"
  using server_dtor_completes_log_in [OF demo_srv_reach1] by auto

end
