(* ===== verification/Session_Server_Properties.thy ===== *)
theory Session_Server_Properties
  imports Session_Server_System Server_Properties
begin

text \<open>
  The properties of the session server: what its constructor does, that every handler given to
  \<open>async_accept\<close> runs once, that namespaces are distinct, and two defects of its destruction. Last,
  a concrete run.
\<close>

section \<open>The constructor\<close>

text \<open>What has to hold outside the process for the constructor to succeed.\<close>

definition ctor_succeeds :: "session_lib \<Rightarrow> ctor_env \<Rightarrow> process_id_t \<Rightarrow> Server_app \<Rightarrow> kernel_state \<Rightarrow> bool" where
  "ctor_succeeds L env pid srv k \<longleftrightarrow>
     pc_user_id (ct_own_creds env) = m_user_id srv \<and> pc_group_id (ct_own_creds env) = m_group_id srv \<and>
     (\<forall>n. cur_ns_store_mutex_absolute_name L srv = Inr n \<longrightarrow> ct_mutex env n = None) \<and>
     owner_at (ct_posix env) (cur_ns_store_absolute_path L srv) = Inr (m_user_id srv, m_group_id srv) \<and>
     (ks_cns k (cur_ns_store_absolute_path L srv) = None \<longrightarrow> ct_set_mode env = None) \<and>
     ct_open env = None \<and> ct_write env = None \<and>
     ct_acceptor env (acceptor_name L srv (int_to_string (sint pid))) = None"

lemma owner_check: "\<exists>r fds. ensure_resource_owner_is_app os path app [] = Inr (r, fds) \<and>
    (r = None \<longleftrightarrow> owner_at os path = Inr (m_user_id app, m_group_id app))"
  by (auto simp: ensure_resource_owner_is_app_def ensure_resource_owner_is_app_handle_def open_path_def owner_at_def
      split: sum.splits)

lemma write_cns_outcome:
  "\<exists>k' r. write_cns L env srv ns k = Inr (k', r) \<and> ks_mqs k' = ks_mqs k \<and>
    (\<forall>p. p \<noteq> cur_ns_store_absolute_path L srv \<longrightarrow> ks_cns k' p = ks_cns k p) \<and>
    (r = None \<longleftrightarrow> owner_at (ct_posix env) (cur_ns_store_absolute_path L srv) = Inr (m_user_id srv, m_group_id srv) \<and>
       (ks_cns k (cur_ns_store_absolute_path L srv) = None \<longrightarrow> ct_set_mode env = None) \<and>
       ct_open env = None \<and> ct_write env = None) \<and>
    ks_cns k' (cur_ns_store_absolute_path L srv) = (if r = None then Some (ns @ [CHR 0x0A])
      else if ct_open env = None then Some [] else ks_cns k (cur_ns_store_absolute_path L srv))"
proof -
  obtain r fds where r: "ensure_resource_owner_is_app (ct_posix env) (cur_ns_store_absolute_path L srv) srv [] = Inr (r, fds)"
    "r = None \<longleftrightarrow> owner_at (ct_posix env) (cur_ns_store_absolute_path L srv) = Inr (m_user_id srv, m_group_id srv)"
    using owner_check by blast
  show ?thesis
    unfolding write_cns_def Let_def r(1) r(2) [symmetric]
    by (cases r; cases "ct_open env"; cases "ct_write env"; cases "ct_set_mode env";
        cases "ks_cns k (cur_ns_store_absolute_path L srv)") simp_all
qed

lemma acceptor_name_srv:
  assumes "srv_app_ok L srv"
  shows "session_master_socket_stream_acceptor_absolute_name L (Session_base_srv pid srv) =
    Inr (acceptor_name L srv (int_to_string (sint pid)))"
  using acceptor_name_form [of L "Session_base_srv pid srv"] assms
  by (simp add: Session_base_srv_def srv_app_ok_def sn_piece_int_to_string)

text \<open>What is left of the queues once those of earlier instances are removed.\<close>

definition swept :: "session_lib \<Rightarrow> session_cfg \<Rightarrow> Server_app \<Rightarrow> shared_name list \<Rightarrow> shared_name list" where
  "swept L cfg srv qs = (if S_MQS_ENABLED cfg then filter (\<lambda>n. \<not> prefix (join_pieces (lib_sn L)
     [S_ROOT_MAGIC (lib_sn L), MQ_RESOURCE_TYPE_ID (lib_sn L), m_name srv, []]) n) qs else qs)"

lemma mqs_swept:
  assumes "srv_app_ok L srv" "sn_piece (lib_sn L) (MQ_RESOURCE_TYPE_ID (lib_sn L))"
  shows "remove_stale_mqs L cfg srv k = Inr (k\<lparr> ks_mqs := swept L cfg srv (ks_mqs k) \<rparr>)"
  using assms by (simp add: remove_stale_mqs_def srv_app_ok_def prefix_form swept_def)

text \<open>The state of a server that has just been constructed.\<close>

definition fresh_server :: "process_id_t \<Rightarrow> Server_app \<Rightarrow> Client_app_master_set \<Rightarrow>
    (Client_app \<Rightarrow> error_code option) \<Rightarrow> bool \<Rightarrow> session_server" where
  "fresh_server pid srv apps setup b =
     \<lparr> v_srv_app_ref = srv, m_cli_app_master_set_ref = apps, m_per_app_setup_func = setup,
       m_last_cli_namespace = 0, m_incomplete_sessions = [], m_master_sock_acceptor = Some [],
       m_incomplete_session_graveyard = Some [], v_graveyard_started = b,
       v_deinit_func_or_empty = None, v_own_process_id = pid, v_next_session = 0,
       v_targets = [], v_requests = [], v_done_calls = [], v_deinit_calls = [] \<rparr>"

lemma ctor_outcome:
  assumes app: "srv_app_ok L srv" "sn_piece (lib_sn L) (MQ_RESOURCE_TYPE_ID (lib_sn L))"
  shows "\<exists>k' r. Session_server_impl L cfg env pid srv apps setup emit k = Inr (k', r) \<and>
    ks_mqs k' = swept L cfg srv (ks_mqs k) \<and>
    (\<forall>p. p \<noteq> cur_ns_store_absolute_path L srv \<longrightarrow> ks_cns k' p = ks_cns k p) \<and>
    (if ctor_succeeds L env pid srv k
     then r = Constructed (fresh_server pid srv apps setup emit) None \<and>
       ks_cns k' (cur_ns_store_absolute_path L srv) = Some (int_to_string (sint pid) @ [CHR 0x0A])
     else \<exists>e. case r of Constructed s e' \<Rightarrow> emit \<and> e' = Some e | Thrown e' \<Rightarrow> \<not> emit \<and> e' = e)"
proof -
  let ?path = "cur_ns_store_absolute_path L srv"
  obtain mn where mn: "cur_ns_store_mutex_absolute_name L srv = Inr mn"
    using mutex_name_form [OF app(1)] by simp
  obtain k0 where sweep: "remove_stale_mqs L cfg srv k = Inr k0"
    and k0: "ks_cns k0 = ks_cns k" "ks_mqs k0 = swept L cfg srv (ks_mqs k)"
    using mqs_swept [OF app] by simp
  obtain k1 w where w: "write_cns L env srv (int_to_string (sint pid)) k0 = Inr (k1, w)" "ks_mqs k1 = ks_mqs k0"
    "\<forall>p. p \<noteq> ?path \<longrightarrow> ks_cns k1 p = ks_cns k0 p"
    "w = None \<longleftrightarrow> owner_at (ct_posix env) ?path = Inr (m_user_id srv, m_group_id srv) \<and>
       (ks_cns k0 ?path = None \<longrightarrow> ct_set_mode env = None) \<and> ct_open env = None \<and> ct_write env = None"
    "w = None \<Longrightarrow> ks_cns k1 ?path = Some (int_to_string (sint pid) @ [CHR 0x0A])"
    using write_cns_outcome [of L env srv "int_to_string (sint pid)" k0] by auto
  have ns: "srv_namespace (Session_base_srv pid srv) = int_to_string (sint pid)"
    by (simp add: Session_base_srv_def srv_namespace_def)
  
  note eqs = Session_server_impl_def Let_def sweep publish_namespace_def mn ns w(1)
    acceptor_name_srv [OF app(1)]
  show ?thesis
  proof (cases "pc_user_id (ct_own_creds env) = m_user_id srv \<and> pc_group_id (ct_own_creds env) = m_group_id srv")
    case False
    then have "\<not> ctor_succeeds L env pid srv k" by (auto simp: ctor_succeeds_def)
    with False k0 show ?thesis by (auto simp: eqs)
  next
    case creds: True
    show ?thesis
    proof (cases "ct_mutex env mn")
      case (Some e)
      then have "\<not> ctor_succeeds L env pid srv k" using mn by (auto simp: ctor_succeeds_def)
      with Some creds k0 show ?thesis by (auto simp: eqs)
    next
      case mutex: None
      show ?thesis
      proof (cases w)
        case (Some e)
        then have "\<not> ctor_succeeds L env pid srv k" using w(4) by (auto simp: ctor_succeeds_def k0)
        with Some creds mutex k0 w(2,3) show ?thesis by (auto simp: eqs)
      next
        case None
        with w(4,5) creds mutex mn have c: "ctor_succeeds L env pid srv k \<longleftrightarrow>
            ct_acceptor env (acceptor_name L srv (int_to_string (sint pid))) = None"
          and l: "ks_cns k1 ?path = Some (int_to_string (sint pid) @ [CHR 0x0A])"
          by (auto simp: ctor_succeeds_def k0)
        show ?thesis
        proof (cases "ct_acceptor env (acceptor_name L srv (int_to_string (sint pid)))")
          case acc: None
          with c l None creds mutex k0 w(2,3) show ?thesis by (simp add: eqs fresh_server_def)
        next
          case (Some e)
          with c None creds mutex k0 w(2,3) show ?thesis by (simp add: eqs)
        qed
      qed
    qed
  qed
qed

text \<open>
  C36. The constructor of the session server. Whatever happens, queues of earlier instances of the
  application are removed and no other file than the application's namespace store is touched. It
  succeeds exactly if the process is the configured user, the mutex can be had, the store is the
  configured user's, its mode can be set if it is new, it can be opened and written, and the
  stream acceptor can listen at the name made of the process id; then the store holds the process
  id and a newline. Otherwise the error is reported through the \<^verbatim>\<open>Error_code*\<close>, or thrown if there is none.
\<close>

theorem session_server_ctor_outcome:
  assumes "srv_app_ok L srv" "sn_piece (lib_sn L) (MQ_RESOURCE_TYPE_ID (lib_sn L))"
  shows "\<exists>k' r. Session_server_impl L cfg env pid srv apps setup emit k = Inr (k', r) \<and>
    ks_mqs k' = swept L cfg srv (ks_mqs k) \<and>
    (\<forall>p. p \<noteq> cur_ns_store_absolute_path L srv \<longrightarrow> ks_cns k' p = ks_cns k p) \<and>
    (if ctor_succeeds L env pid srv k
     then r = Constructed (fresh_server pid srv apps setup emit) None \<and>
       ks_cns k' (cur_ns_store_absolute_path L srv) = Some (int_to_string (sint pid) @ [CHR 0x0A])
     else \<exists>e. case r of Constructed s e' \<Rightarrow> emit \<and> e' = Some e | Thrown e' \<Rightarrow> \<not> emit \<and> e' = e)"
  by (rule ctor_outcome [OF assms])

section \<open>Destruction completes what is pending\<close>

abbreviation aborted :: "error_code option" where
  "aborted \<equiv> Some (Session_err S_OBJECT_SHUTDOWN_ABORTED_COMPLETION_HANDLER)"

lemma dtor_session_ok:
  assumes "session_ok n x"
  shows "\<exists>x'. dtor_Server_session_impl cfg x = Some x' \<and> s_done_calls x = [] \<and> s_done_calls x' = [(n, aborted)]"
  using assms
  by (auto simp: session_ok_def dtor_Server_session_impl_def Server_Session.dtor_async_worker_stop_def Let_def
      make_error_code_def split: option.splits)

lemma dtor_incomplete_eq:
  "\<forall>(n, x, rq) \<in> set xs. session_ok n x \<Longrightarrow> dtor_incomplete cfg xs s = Some (Inr (s\<lparr> v_done_calls := v_done_calls s @
     map (\<lambda>(n, x, rq). (rq_on_done rq, aborted)) xs \<rparr>))"
proof (induction xs arbitrary: s)
  case (Cons e xs)
  obtain n x rq where e: "e = (n, x, rq)" by (cases e)
  with Cons.prems obtain x' where "dtor_Server_session_impl cfg x = Some x'" "s_done_calls x = []"
    "s_done_calls x' = [(n, aborted)]" using dtor_session_ok [of n x cfg] by auto
  with Cons e show ?case by (simp add: make_error_code_def on_done_def Let_def)
qed simp

lemma fold_on_done: "fold (\<lambda>rq. on_done rq r) rqs s =
    s\<lparr> v_done_calls := v_done_calls s @ map (\<lambda>rq. (rq_on_done rq, r)) rqs \<rparr>"
  by (induction rqs arbitrary: s) (simp_all add: on_done_def)

lemma dtor_acceptor_eq: "dtor_acceptor s = s\<lparr> m_master_sock_acceptor := None,
    v_done_calls := v_done_calls s @ map (\<lambda>rq. (rq_on_done rq, aborted)) (pending_accepts s) \<rparr>"
  by (cases s) (auto simp: dtor_acceptor_def pending_accepts_def fold_on_done translate_aborted_def make_error_code_def
      split: option.splits)

lemma destruction_runs:
  assumes "\<forall>(n, x, rq) \<in> set (m_incomplete_sessions s). session_ok n x" "mset (ord (m_incomplete_sessions s)) = mset (m_incomplete_sessions s)"
  shows "reset_state cfg ord s = ([dtor_graveyard s, dtor_acceptor (dtor_graveyard s),
      (dtor_acceptor (dtor_graveyard s))\<lparr> m_incomplete_sessions := [],
        v_done_calls := v_done_calls s @ map (\<lambda>rq. (rq_on_done rq, aborted))
          (pending_accepts s @ map (\<lambda>(n, x, rq). rq) (ord (m_incomplete_sessions s))) \<rparr>],
    Some (Inr ((dtor_acceptor (dtor_graveyard s))\<lparr> m_incomplete_sessions := [],
        v_done_calls := v_done_calls s @ map (\<lambda>rq. (rq_on_done rq, aborted))
          (pending_accepts s @ map (\<lambda>(n, x, rq). rq) (ord (m_incomplete_sessions s))) \<rparr>)))"
proof -
  have "set (ord (m_incomplete_sessions s)) = set (m_incomplete_sessions s)" using assms(2) by (metis set_mset_mset)
  with assms(1) have "\<forall>(n, x, rq) \<in> set (ord (m_incomplete_sessions s)). session_ok n x" by simp
  note d = dtor_incomplete_eq [OF this]
  have pend: "pending_accepts (dtor_graveyard s) = pending_accepts s"
    by (simp add: pending_accepts_def dtor_graveyard_def)
  show ?thesis
    unfolding reset_state_def state_members_def
    by (simp add: dtor_member_def dtor_acceptor_eq pend Let_def)
      (simp add: dtor_graveyard_def d comp_def case_prod_beta')
qed

lemma destructor_returns:
  assumes "\<forall>(n, x, rq) \<in> set (m_incomplete_sessions s). session_ok n x" "mset (ord (m_incomplete_sessions s)) = mset (m_incomplete_sessions s)"
  shows "\<exists>s'. snd (dtor_Session_server_impl cfg ord s) = Some (Inr s') \<and>
    v_done_calls s' = v_done_calls s @ map (\<lambda>rq. (rq_on_done rq, aborted))
      (pending_accepts s @ map (\<lambda>(n, x, rq). rq) (ord (m_incomplete_sessions s))) \<and>
    v_deinit_calls s' = v_deinit_calls s @ (case v_deinit_func_or_empty s of None \<Rightarrow> [] | Some task \<Rightarrow> [task])"
  unfolding dtor_Session_server_impl_def destruction_runs [where s = s and ord = ord and cfg = cfg, OF assms]
  by (cases "v_deinit_func_or_empty s") (simp_all add: dtor_graveyard_def dtor_acceptor_eq)

text \<open>
  C34. Every handler passed to \<open>async_accept\<close> runs exactly once. At any time those that have run, those
  of the accepts the stream acceptor still has and those of the incomplete sessions are together the ones
  passed in, and the destructor, which returns, runs the remaining ones with the shutdown code, in whatever order \<open>ord\<close> the
  unordered set of incomplete sessions is destroyed. It runs the subclass's task last.
\<close>

theorem accept_handlers_run_once:
  assumes "reach (session_server_ini L cfg) (session_server_step L cfg) s"
    and "mset (ord (m_incomplete_sessions s)) = mset (m_incomplete_sessions s)"
  shows "\<exists>s'. snd (dtor_Session_server_impl cfg ord s) = Some (Inr s') \<and>
    v_done_calls s' = v_done_calls s @ map (\<lambda>rq. (rq_on_done rq, aborted))
      (pending_accepts s @ map (\<lambda>(n, x, rq). rq) (ord (m_incomplete_sessions s))) \<and>
    mset (map fst (v_done_calls s')) = mset (v_requests s) \<and>
    v_deinit_calls s' = v_deinit_calls s @ (case v_deinit_func_or_empty s of None \<Rightarrow> [] | Some task \<Rightarrow> [task])"
proof -
  from assms(1) have inv: "session_server_inv s" by (rule session_server.reach_inv)
  then have "\<forall>(n, x, rq) \<in> set (m_incomplete_sessions s). session_ok n x"
    by (auto simp: session_server_inv_def incomplete_ok_def)
  from destructor_returns [where s = s and ord = ord and cfg = cfg, OF this assms(2)] obtain s' where
    s': "snd (dtor_Session_server_impl cfg ord s) = Some (Inr s')"
    "v_done_calls s' = v_done_calls s @ map (\<lambda>rq. (rq_on_done rq, aborted))
      (pending_accepts s @ map (\<lambda>(n, x, rq). rq) (ord (m_incomplete_sessions s)))"
    "v_deinit_calls s' = v_deinit_calls s @ (case v_deinit_func_or_empty s of None \<Rightarrow> [] | Some task \<Rightarrow> [task])" by blast
  have "mset (map fst (v_done_calls s)) + mset (map rq_on_done (pending_accepts s)) +
      mset (map (\<lambda>(n, x, rq). rq_on_done rq) (m_incomplete_sessions s)) = mset (v_requests s)"
    using inv by (simp add: session_server_inv_def handlers_accounted_def)
  moreover have "mset (map (\<lambda>(n, x, rq). rq_on_done rq) (ord (m_incomplete_sessions s))) =
      mset (map (\<lambda>(n, x, rq). rq_on_done rq) (m_incomplete_sessions s))"
    using assms(2) by simp
  ultimately have "mset (map fst (v_done_calls s')) = mset (v_requests s)"
    unfolding s'(2) map_append mset_append map_map comp_def case_prod_beta' fst_conv by (simp add: add.assoc)
  with s' show ?thesis by blast
qed

text \<open>
  C35. The namespaces of sessions never clash: while the 64-bit counter has not wrapped around, every session
  given to a user has a namespace, which no other one has and no session still in its log-in.
\<close>

theorem session_namespaces_distinct:
  assumes "reach (session_server_ini L cfg) (session_server_step L cfg) s"
  shows "[] \<notin> set (map (\<lambda>(t, x). m_cli_namespace x) (v_targets s)) \<and>
    distinct (map (\<lambda>(t, x). m_cli_namespace x) (v_targets s) @
      filter (\<lambda>ns. ns \<noteq> []) (map (\<lambda>(n, x, rq). m_cli_namespace x) (m_incomplete_sessions s)))"
proof -
  from assms have inv: "session_server_inv s" by (rule session_server.reach_inv)
  let ?t = "map (\<lambda>(t, x). m_cli_namespace x) (v_targets s)"
  let ?i = "map (\<lambda>(n, x, rq). m_cli_namespace x) (m_incomplete_sessions s)"
  from inv have t: "[] \<notin> set ?t" by (auto simp: session_server_inv_def targets_ok_def)
  define xs where "xs = ?t @ filter (\<lambda>ns. ns \<noteq> []) ?i"
  have "[] \<notin> set xs" using t by (auto simp: xs_def)
  then have zero: "count (mset xs) [] = 0" by (simp only: count_mset_0_iff not_False_eq_True)
  have le1: "count (mset xs) x \<le> 1" if "x \<noteq> []" for x
  proof -
    have "count (mset xs) x \<le> count (namespaces s) x" using that by (simp add: namespaces_def xs_def)
    also have "\<dots> \<le> 1" using inv that by (auto simp: session_server_inv_def namespaces_ok_def)
    finally show ?thesis .
  qed
  have le: "count (mset xs) x \<le> 1" for x
    using le1 by (cases "x = []") (simp_all only: zero zero_le_one not_False_eq_True)
  have "distinct xs"
    unfolding distinct_count_atmost_1
  proof
    fix x show "count (mset xs) x = (if x \<in> set xs then 1 else 0)"
    proof (cases "x \<in> set xs")
      case True
      then have "1 \<le> count (mset xs) x" by (simp add: Suc_le_eq)
      with le [of x] have "count (mset xs) x = 1" by (rule le_antisym)
      with True show ?thesis by (simp only: if_True)
    qed (simp add: count_mset_0_iff)
  qed
  then have "distinct (?t @ filter (\<lambda>ns. ns \<noteq> []) ?i)" by (simp add: xs_def)
  with t show ?thesis by simp
qed

section \<open>The graveyard\<close>

lemma on_log_in_done_graveyard:
  assumes "on_log_in_done n x rq e s = Inr s'"
  shows "v_graveyard_started s' = v_graveyard_started s \<and>
    (\<forall>g. m_incomplete_session_graveyard s = Some g \<longrightarrow> (\<exists>ys. m_incomplete_session_graveyard s' = Some (g @ ys)))"
  using assms by (cases e) (auto simp: on_log_in_done_def on_done_def Let_def split: option.splits)

lemma in_session_graveyard:
  assumes "in_session n f s = Inr s'"
  shows "v_graveyard_started s' = v_graveyard_started s \<and>
    (\<forall>g. m_incomplete_session_graveyard s = Some g \<longrightarrow> (\<exists>ys. m_incomplete_session_graveyard s' = Some (g @ ys)))"
proof -
  from assms obtain y rq where y: "map_of (m_incomplete_sessions s) n = Some (y, rq)"
    by (cases "map_of (m_incomplete_sessions s) n") (auto simp: in_session_def)
  with assms obtain y' where "(if s_done_calls y' = s_done_calls y
      then Inr (s\<lparr> m_incomplete_sessions := map (\<lambda>x. if fst x = n then (n, y', rq) else x) (m_incomplete_sessions s) \<rparr>)
      else on_log_in_done n y' rq (snd (last (s_done_calls y'))) s) = Inr s'"
    unfolding in_session_def y option.case prod.case res_bind_eq_Inr by blast
  then show ?thesis by (cases "s_done_calls y' = s_done_calls y") (auto dest: on_log_in_done_graveyard)
qed

lemma step_keeps_graveyard:
  assumes "session_server_step L cfg s t" "\<not> v_graveyard_started s" "m_incomplete_session_graveyard s = Some g"
  shows "\<not> v_graveyard_started t \<and> (\<exists>ys. m_incomplete_session_graveyard t = Some (g @ ys))"
  using assms(1)
proof cases
  case (accept t rq)
  with assms show ?thesis by (auto simp: Session_Server.async_accept_def split: option.splits)
next
  case (socket r)
  with assms show ?thesis by (auto simp: on_socket_accepted_def on_done_def Let_def split: option.splits list.splits)
next
  case (start n env)
  with assms show ?thesis by (auto simp: session_start_def dest: in_session_graveyard)
next
  case (error n e)
  with assms show ?thesis by (auto simp: session_error_def dest: in_session_graveyard)
next
  case (log_in n creds name rsp env m)
  from log_in(2) show ?thesis
    by (rule session_log_in_InrD) (use assms in \<open>auto dest: in_session_graveyard\<close>)
next
  case graveyard
  with assms show ?thesis by (auto simp: graveyard_work_def split: option.splits list.splits)
qed

lemma steps_keep_graveyard:
  assumes "(session_server_step L cfg)\<^sup>*\<^sup>* s t" "\<not> v_graveyard_started s" "m_incomplete_session_graveyard s = Some g"
  shows "\<not> v_graveyard_started t \<and> (\<exists>ys. m_incomplete_session_graveyard t = Some (g @ ys))"
  using assms
proof (induction rule: rtranclp_induct)
  case (step t u)
  then obtain ys where "\<not> v_graveyard_started t" "m_incomplete_session_graveyard t = Some (g @ ys)" by blast
  from step_keeps_graveyard [OF step.hyps(2) this] show ?case by auto
qed auto

text \<open>
  C37. A session server constructed without an \<^verbatim>\<open>Error_code*\<close> never destroys a session whose log-in failed:
  it only starts the graveyard's thread if there is an \<^verbatim>\<open>Error_code*\<close>, so what is handed to the
  graveyard stays there until the session server is destroyed.
\<close>

theorem null_err_code_keeps_failed_sessions:
  assumes "Session_server_impl L cfg env pid srv apps setup False k = Inr (k', Constructed s0 None)"
    "(session_server_step L cfg)\<^sup>*\<^sup>* s0 s" "(session_server_step L cfg)\<^sup>*\<^sup>* s t"
  shows "\<exists>g ys. m_incomplete_session_graveyard s = Some g \<and> m_incomplete_session_graveyard t = Some (g @ ys)"
proof -
  from assms(1) have "\<not> v_graveyard_started s0" "m_incomplete_session_graveyard s0 = Some []"
    by (auto simp: Session_server_impl_def res_bind_eq_Inr Let_def split: option.splits if_splits)
  from steps_keep_graveyard [OF assms(2) this] obtain g where
    g: "\<not> v_graveyard_started s" "m_incomplete_session_graveyard s = Some g" by blast
  from steps_keep_graveyard [OF assms(3) this] g(2) show ?thesis by blast
qed

lemma session_error_reports:
  assumes "(n, x, rq) \<in> set (m_incomplete_sessions t)" "distinct (map fst (m_incomplete_sessions t))" "session_ok n x"
    "m_master_channel x \<noteq> None"
  shows "case m_incomplete_session_graveyard t of
      None \<Rightarrow> \<not> returns (session_error cfg n e t)
    | Some g \<Rightarrow> \<exists>t' x'. session_error cfg n e t = Inr t' \<and> n \<notin> fst ` set (m_incomplete_sessions t') \<and>
        v_done_calls t' = v_done_calls t @ [(rq_on_done rq, Some e)] \<and> m_incomplete_session_graveyard t' = Some (g @ [x'])"
proof -
  from assms(1,2) have m: "map_of (m_incomplete_sessions t) n = Some (x, rq)" by simp
  from assms(1) have n: "n \<in> fst ` set (m_incomplete_sessions t)" by force
  from assms(3,4) obtain h c where h: "m_log_in_on_done_func x = Some h" "s_done_calls x = []" "m_master_channel x = Some c"
    by (auto simp: session_ok_def)
  let ?x = "x\<lparr> m_master_channel := None, s_expect_log_in := False, s_done_calls := [(h, Some e)], m_log_in_on_done_func := None \<rparr>"
  have "Server_Session.on_master_channel_error cfg e x = Inr ?x"
    using h by (simp add: Server_Session.on_master_channel_error_def finish_log_in_def)
  then have "session_error cfg n e t = on_log_in_done n ?x rq (Some e) t"
    using m h(2) by (simp add: session_error_def in_session_def)
  with n show ?thesis
    by (cases "m_incomplete_session_graveyard t") (auto simp: on_log_in_done_def on_done_def Let_def)
qed

text \<open>
  C38. The members of the state are destroyed in the reverse order of their declaration. Take a reachable session server and
  one of its incomplete sessions whose channel is up, in its log-in. Undisturbed, the destructor returns and completes its handler with the
  shutdown code. If the channel fails before the destruction, the failure is reported and the session goes to the graveyard. But
  the destructor goes through states in which that session and its thread still live, and in each of them the handler of the
  channel's failure, run by that thread, uses the graveyard after its destruction.
\<close>

theorem log_in_failure_during_destruction:
  assumes "reach (session_server_ini L cfg) (session_server_step L cfg) s"
    and x: "(n, x, rq) \<in> set (m_incomplete_sessions s)" "m_master_channel x \<noteq> None"
    and ord: "mset (ord (m_incomplete_sessions s)) = mset (m_incomplete_sessions s)"
  shows "(\<exists>s'. snd (dtor_Session_server_impl cfg ord s) = Some (Inr s') \<and> (rq_on_done rq, aborted) \<in> set (v_done_calls s')) \<and>
    (\<exists>s' g x'. session_error cfg n e s = Inr s' \<and> v_done_calls s' = v_done_calls s @ [(rq_on_done rq, Some e)] \<and>
       m_incomplete_session_graveyard s = Some g \<and> m_incomplete_session_graveyard s' = Some (g @ [x'])) \<and>
    (\<exists>t \<in> set (fst (dtor_Session_server_impl cfg ord s)). (n, x, rq) \<in> set (m_incomplete_sessions t)) \<and>
    (\<forall>t \<in> set (fst (dtor_Session_server_impl cfg ord s)). (n, x, rq) \<in> set (m_incomplete_sessions t) \<longrightarrow>
       \<not> returns (session_error cfg n e t))"
proof -
  from session_server.reach_inv [OF assms(1)] have i: "distinct (map fst (m_incomplete_sessions s))"
    "\<forall>(n, x, rq) \<in> set (m_incomplete_sessions s). session_ok n x" and g: "m_incomplete_session_graveyard s \<noteq> None"
    by (auto simp: session_server_inv_def incomplete_ok_def)
  from i(2) x(1) have ok: "session_ok n x" by auto
  let ?t1 = "dtor_graveyard s" and ?t2 = "dtor_acceptor (dtor_graveyard s)"
  note d = destruction_runs [where s = s and ord = ord and cfg = cfg, OF i(2) ord]
  have t: "m_incomplete_sessions t = m_incomplete_sessions s \<and> m_incomplete_session_graveyard t = None" if "t \<in> {?t1, ?t2}" for t
    using that by (auto simp: dtor_graveyard_def dtor_acceptor_eq)
  have trips: "\<not> returns (session_error cfg n e t)" if "t \<in> {?t1, ?t2}" for t
    using session_error_reports [of n x rq t cfg e] t [OF that] x i(1) ok by simp
  have "set (ord (m_incomplete_sessions s)) = set (m_incomplete_sessions s)" using ord by (metis set_mset_mset)
  with x(1) have "(\<lambda>(n, x, rq). rq) (n, x, rq) \<in> (\<lambda>(n, x, rq). rq) ` set (ord (m_incomplete_sessions s))" by (intro imageI) simp
  then have "rq \<in> set (pending_accepts s @ map (\<lambda>(n, x, rq). rq) (ord (m_incomplete_sessions s)))" by simp
  then have "(rq_on_done rq, aborted) \<in> set (v_done_calls s @ map (\<lambda>rq. (rq_on_done rq, aborted))
      (pending_accepts s @ map (\<lambda>(n, x, rq). rq) (ord (m_incomplete_sessions s))))" unfolding set_append set_map by blast
  with destructor_returns [where s = s and ord = ord and cfg = cfg, OF i(2) ord]
  have "\<exists>s'. snd (dtor_Session_server_impl cfg ord s) = Some (Inr s') \<and> (rq_on_done rq, aborted) \<in> set (v_done_calls s')"
    by metis
  moreover have "\<exists>s' g x'. session_error cfg n e s = Inr s' \<and> v_done_calls s' = v_done_calls s @ [(rq_on_done rq, Some e)] \<and>
       m_incomplete_session_graveyard s = Some g \<and> m_incomplete_session_graveyard s' = Some (g @ [x'])"
    using session_error_reports [OF x(1) i(1) ok x(2), of cfg e] g by (auto split: option.splits)
  moreover have "\<exists>t \<in> set (fst (dtor_Session_server_impl cfg ord s)). (n, x, rq) \<in> set (m_incomplete_sessions t)"
    using x(1) t [of ?t1] by (simp add: dtor_Session_server_impl_def d)
  moreover have "\<not> returns (session_error cfg n e t)"
    if "t \<in> set (fst (dtor_Session_server_impl cfg ord s))" "(n, x, rq) \<in> set (m_incomplete_sessions t)" for t
    using that trips by (auto simp: dtor_Session_server_impl_def d)
  ultimately show ?thesis by blast
qed

section \<open>A concrete run\<close>

definition demo_apps :: Client_app_master_set where
  "demo_apps = [''cli'' \<mapsto> demo_cli_app]"

definition demo_rq :: "nat \<Rightarrow> handler \<Rightarrow> accept_request" where
  "demo_rq t h = \<lparr> rq_target = t, rq_out = demo_accept_out, rq_n_init = (\<lambda>_ _ _. 0), rq_mdt_load = (\<lambda>_ _ _. [4]),
     rq_on_done = h \<rparr>"

definition demo_ctor_env :: ctor_env where
  "demo_ctor_env = \<lparr> ct_own_creds = \<lparr> pc_process_id = 77, pc_user_id = 1000, pc_group_id = 100 \<rparr>, ct_mutex = (\<lambda>_. None),
     ct_open = None, ct_posix = \<lparr> os_open = (\<lambda>_. Inr 5), os_fstat = (\<lambda>_. Inr \<lparr> st_uid = 1000, st_gid = 100 \<rparr>) \<rparr>,
     ct_set_mode = None, ct_write = None, ct_acceptor = (\<lambda>_. None) \<rparr>"

definition demo_kernel :: kernel_state where
  "demo_kernel = \<lparr> ks_mqs = [''x''], ks_cns = Map.empty, ks_cns_mode_set = False \<rparr>"

abbreviation demo_server :: "bool \<Rightarrow> session_server" where
  "demo_server \<equiv> fresh_server 77 demo_srv_app demo_apps (\<lambda>_. None)"

lemma demo_ctor_succeeds: "ctor_succeeds demo_session_lib demo_ctor_env 77 demo_srv_app demo_kernel"
  by (simp add: ctor_succeeds_def demo_ctor_env_def owner_at_def) (simp add: demo_srv_app_def)

lemma demo_mq_piece: "sn_piece (lib_sn demo_session_lib) (MQ_RESOURCE_TYPE_ID (lib_sn demo_session_lib))"
  by (simp add: demo_lib_def sn_piece_def no_sep_def)

lemma demo_ctor: "\<exists>k'. Session_server_impl demo_session_lib demo_srv_cfg demo_ctor_env 77 demo_srv_app demo_apps (\<lambda>_. None)
    b demo_kernel = Inr (k', Constructed (demo_server b) None) \<and>
    ks_cns k' (cur_ns_store_absolute_path demo_session_lib demo_srv_app) = Some (int_to_string 77 @ [CHR 0x0A])"
  using ctor_outcome [OF demo_srv_app_ok demo_mq_piece, of demo_srv_cfg demo_ctor_env 77 demo_apps "\<lambda>_. None" b demo_kernel]
    demo_ctor_succeeds by auto

abbreviation demo_step :: "session_server \<Rightarrow> session_server \<Rightarrow> bool" where
  "demo_step \<equiv> session_server_step demo_session_lib demo_srv_cfg"

abbreviation demo_reach :: "session_server \<Rightarrow> bool" where
  "demo_reach \<equiv> reach (session_server_ini demo_session_lib demo_srv_cfg) demo_step"

definition demo_w1 :: session_server where
  "demo_w1 = (demo_server True)\<lparr> m_master_sock_acceptor := Some [demo_rq 0 31, demo_rq 1 32, demo_rq 2 33],
     v_requests := [31, 32, 33] \<rparr>"

definition demo_x0 :: "nat \<Rightarrow> server_session" where
  "demo_x0 n = Server_Session.async_accept_log_in demo_accept_out n (Server_session_impl 77 demo_srv_app)"

definition demo_x1 :: "nat \<Rightarrow> server_session" where
  "demo_x1 n = (demo_x0 n)\<lparr> m_master_sock_stm := False, m_master_channel := Some 3, s_expect_log_in := True \<rparr>"

definition demo_w3 :: session_server where
  "demo_w3 = demo_w1\<lparr> m_master_sock_acceptor := Some [demo_rq 1 32, demo_rq 2 33],
     m_incomplete_sessions := [(0, demo_x1 0, demo_rq 0 31)], v_next_session := 1 \<rparr>"

definition demo_x2 :: server_session where
  "demo_x2 = (checked demo_callbacks0 demo_req0 (demo_x1 0))
     \<lparr> s_sent := [fill_log_in_rsp demo_callbacks0 demo_cli_app demo_req0 0 (checked demo_callbacks0 demo_req0 (demo_x1 0))],
       s_out := demo_accept_out\<lparr> out_mdt_from_cli := Some (Some [5]) \<rparr>,
       s_done_calls := [(0, None)], m_log_in_on_done_func := None \<rparr>"

definition demo_w5 :: session_server where
  "demo_w5 = demo_w3\<lparr> m_master_sock_acceptor := Some [demo_rq 2 33],
     m_incomplete_sessions := [(1, demo_x0 1, demo_rq 1 32)], v_next_session := 2, m_last_cli_namespace := 1,
     v_targets := [(0, demo_x2)], v_done_calls := [(31, None)] \<rparr>"

lemma demo_w_simps [simp]:
  "m_master_sock_acceptor demo_w1 = Some [demo_rq 0 31, demo_rq 1 32, demo_rq 2 33]" "m_incomplete_sessions demo_w1 = []"
  "v_next_session demo_w1 = 0" "v_own_process_id demo_w1 = 77" "v_srv_app_ref demo_w1 = demo_srv_app"
  "v_done_calls demo_w1 = []" "v_targets demo_w1 = []"
  "m_incomplete_sessions demo_w3 = [(0, demo_x1 0, demo_rq 0 31)]" "v_next_session demo_w3 = 1"
  "m_master_sock_acceptor demo_w3 = Some [demo_rq 1 32, demo_rq 2 33]" "m_last_cli_namespace demo_w3 = 0"
  "m_cli_app_master_set_ref demo_w3 = demo_apps" "m_per_app_setup_func demo_w3 = (\<lambda>_. None)"
  "v_own_process_id demo_w3 = 77" "v_srv_app_ref demo_w3 = demo_srv_app" "v_done_calls demo_w3 = []" "v_targets demo_w3 = []"
  "rq_out (demo_rq t h) = demo_accept_out" "rq_on_done (demo_rq t h) = h" "rq_target (demo_rq t h) = t"
  by (simp_all add: demo_w1_def demo_w3_def fresh_server_def demo_rq_def)

lemma demo_xs_simps [simp]: "s_done_calls (demo_x0 n) = []" "s_done_calls (demo_x1 n) = []" "s_done_calls demo_x2 = [(0, None)]"
  "m_cli_namespace (demo_x0 n) = []" "m_cli_namespace (demo_x1 n) = []" "m_cli_namespace demo_x2 = ''1''"
  "m_log_in_on_done_func (demo_x1 n) = Some n" "m_master_channel (demo_x1 n) = Some 3" "m_cli_app_ptr (demo_x1 n) = None"
  "m_srv_app_ref (demo_x1 n) = demo_srv_app" "s_out (demo_x1 n) = demo_accept_out" "s_sent (demo_x1 n) = []"
  "s_expect_log_in (demo_x1 n)" "m_master_sock_stm (demo_x0 n)" "m_master_channel (demo_x0 n) = None"
  by (simp_all add: demo_x2_def demo_x1_def demo_x0_def async_accept_log_in_def Server_session_impl_def
      session_base.defs Session_base_srv_def checked_def demo_callbacks0_def demo_callbacks_def)

lemma accept_step:
  assumes "reach ini (session_server_step L cfg) s" "m_master_sock_acceptor s = Some q" "rq_target rq = t"
  shows "reach ini (session_server_step L cfg)
      (s\<lparr> m_master_sock_acceptor := Some (q @ [rq]), v_requests := v_requests s @ [rq_on_done rq] \<rparr>)"
proof -
  have "rq\<lparr> rq_target := t \<rparr> = rq" using assms(3) by (cases rq) simp
  then show ?thesis
    by (intro reach_step [OF assms(1)] session_server_step.accept [where t = t and rq = rq])
      (simp add: Session_Server.async_accept_def assms(2))
qed

lemma demo_reach_w1: "demo_reach demo_w1"
proof -
  obtain k' where "Session_server_impl demo_session_lib demo_srv_cfg demo_ctor_env 77 demo_srv_app demo_apps (\<lambda>_. None)
    True demo_kernel = Inr (k', Constructed (demo_server True) None)" using demo_ctor by blast
  then have "session_server_ini demo_session_lib demo_srv_cfg (demo_server True)"
    unfolding session_server_ini_def by blast
  then have r: "demo_reach (demo_server True)" by (rule reach_init)
  have s: "m_master_sock_acceptor (demo_server True) = Some []" "v_requests (demo_server True) = []"
    by (simp_all add: fresh_server_def)
  note r = accept_step [OF r s(1), where rq = "demo_rq 0 31" and t = 0]
  note r = accept_step [OF r, where rq = "demo_rq 1 32" and t = 1 and q = "[demo_rq 0 31]"]
  note r = accept_step [OF r, where rq = "demo_rq 2 33" and t = 2 and q = "[demo_rq 0 31, demo_rq 1 32]"]
  with s(2) show ?thesis by (simp add: demo_w1_def)
qed

lemma demo_start_x: "accept_log_in_start demo_accept_env (demo_x0 n) = Inr (demo_x1 n)"
  by (simp add: accept_log_in_start_def demo_accept_env_def demo_x1_def)

lemma demo_reach_w3: "demo_reach demo_w3"
proof -
  let ?w2 = "demo_w1\<lparr> m_master_sock_acceptor := Some [demo_rq 1 32, demo_rq 2 33],
     m_incomplete_sessions := [(0, demo_x0 0, demo_rq 0 31)], v_next_session := 1 \<rparr>"
  have "demo_step demo_w1 ?w2"
    by (rule session_server_step.socket [where r = None]) (simp add: on_socket_accepted_def Let_def demo_x0_def)
  note r = reach_step [OF demo_reach_w1 this]
  have "demo_step ?w2 demo_w3"
    by (rule session_server_step.start [where n = 0 and env = demo_accept_env])
      (simp add: session_start_def in_session_def demo_start_x demo_w3_def)
  from reach_step [OF r this] show ?thesis .
qed

lemma demo_callbacks_of: "callbacks_of demo_w3 (demo_rq 0 31) (lq_own_app demo_req0) = demo_callbacks0"
proof -
  have l: "cli_app_lookup demo_w3 = demo_apps" by (rule ext) (simp add: cli_app_lookup_def)
  have n: "next_cli_namespace demo_w3 = ''1''" by (simp add: next_cli_namespace_def) code_simp
  show ?thesis
    by (simp add: callbacks_of_def l n demo_callbacks0_def demo_callbacks_def demo_apps_def demo_req0_def demo_req_def
        demo_rq_def)
qed

lemma demo_ready_x: "ready_for_log_in demo_session_lib demo_srv_cfg demo_callbacks0 demo_creds ''/bin/cli'' demo_req0 (demo_x1 0)"
  by (simp add: ready_for_log_in_def namespace_usable_def log_in_checks_def demo_callbacks0_def demo_callbacks_def
      demo_req0_def demo_req_def demo_srv_cfg_def demo_accept_out_def demo_cli_app_def demo_creds_def
      demo_session_lib_def demo_lib_def demo_srv_app_def)

lemma demo_log_in_x: "on_log_in_req demo_session_lib demo_srv_cfg demo_callbacks0 demo_creds ''/bin/cli''
    Sent_ok env demo_req0_msg (demo_x1 0) = Inr demo_x2"
proof -
  have "app_of demo_callbacks0 demo_req0 = demo_cli_app"
    "total_init_channels demo_callbacks0 demo_cli_app demo_req0 (demo_x1 0) = 0" "lq_mdt demo_req0 = [5]"
    by (simp_all add: app_of_def demo_callbacks0_def demo_callbacks_def demo_req0_def demo_req_def
        total_init_channels_def demo_accept_out_def)
  then show ?thesis
    by (simp add: on_log_in_req_checked [OF demo_ready_x] demo_req0_msg_def Let_def demo_accept_out_def finish_log_in_def)
      (simp add: checked_def demo_x2_def demo_accept_out_def)
qed

lemma demo_reach_w5: "demo_reach demo_w5"
proof -
  let ?w4 = "demo_w3\<lparr> m_incomplete_sessions := [], m_last_cli_namespace := 1,
     v_targets := [(0, demo_x2)], v_done_calls := [(31, None)] \<rparr>"
  have "session_log_in demo_session_lib demo_srv_cfg 0 demo_creds ''/bin/cli'' Sent_ok demo_init_env demo_req0_msg demo_w3 = Inr ?w4"
    by (simp add: session_log_in_def demo_callbacks_of demo_log_in_x demo_req0_msg_def getLogInReq_def
        demo_log_in_x [unfolded demo_req0_msg_def] in_session_def on_log_in_done_def on_done_def)
  then have "demo_step demo_w3 ?w4"
    by (intro session_server_step.log_in [where n = 0 and m = demo_req0_msg and creds = demo_creds]) simp_all
  note r = reach_step [OF demo_reach_w3 this]
  have "demo_step ?w4 demo_w5"
    by (rule session_server_step.socket [where r = None])
      (simp add: on_socket_accepted_def Let_def demo_x0_def demo_w5_def)
  from reach_step [OF r this] show ?thesis .
qed

theorem session_server_ctor_outcome_witness:
  "\<exists>k'. Session_server_impl demo_session_lib demo_srv_cfg demo_ctor_env 77 demo_srv_app demo_apps (\<lambda>_. None) True demo_kernel =
    Inr (k', Constructed (demo_server True) None)"
  using session_server_ctor_outcome [OF demo_srv_app_ok demo_mq_piece, of demo_srv_cfg demo_ctor_env 77 demo_apps "\<lambda>_. None" True
      demo_kernel] demo_ctor_succeeds by auto

lemma demo_w5_simps [simp]: "v_done_calls demo_w5 = [(31, None)]" "pending_accepts demo_w5 = [demo_rq 2 33]"
  "m_incomplete_sessions demo_w5 = [(1, demo_x0 1, demo_rq 1 32)]" "v_targets demo_w5 = [(0, demo_x2)]"
  by (simp_all add: demo_w5_def pending_accepts_def)

theorem accept_handlers_run_once_witness:
  "\<exists>s'. snd (dtor_Session_server_impl demo_srv_cfg rev demo_w5) = Some (Inr s') \<and>
     v_done_calls s' = [(31, None), (33, aborted), (32, aborted)]"
  using accept_handlers_run_once [OF demo_reach_w5, of rev] by auto

theorem session_namespaces_distinct_witness:
  "distinct (map (\<lambda>(t, x). m_cli_namespace x) (v_targets demo_w5)) \<and> v_targets demo_w5 = [(0, demo_x2)]"
  using session_namespaces_distinct [OF demo_reach_w5] by simp

lemma demo_failed_session: "\<exists>x. demo_step\<^sup>*\<^sup>* (demo_server False) ((demo_server False)\<lparr> v_requests := [31], v_next_session := 1,
    m_incomplete_session_graveyard := Some [x], v_done_calls := [(31, Some (System_err 5))] \<rparr>)"
proof -
  let ?a = "(demo_server False)\<lparr> m_master_sock_acceptor := Some [demo_rq 0 31], v_requests := [31] \<rparr>"
  let ?b = "?a\<lparr> m_master_sock_acceptor := Some [], m_incomplete_sessions := [(0, demo_x0 0, demo_rq 0 31)], v_next_session := 1 \<rparr>"
  let ?env = "demo_accept_env\<lparr> ae_os_proc_creds := Inl (System_err 5) \<rparr>"
  let ?x = "(demo_x0 0)\<lparr> m_master_sock_stm := False, s_done_calls := [(0, Some (System_err 5))], m_log_in_on_done_func := None \<rparr>"
  let ?c = "(demo_server False)\<lparr> v_requests := [31], v_next_session := 1,
    m_incomplete_session_graveyard := Some [?x], v_done_calls := [(31, Some (System_err 5))] \<rparr>"
  note simps = fresh_server_def demo_rq_def
  have l: "m_log_in_on_done_func (demo_x0 0) = Some 0" by (simp add: demo_x0_def async_accept_log_in_def)
  have "demo_step (demo_server False) ?a"
    by (rule session_server_step.accept [where t = 0 and rq = "demo_rq 0 31"])
      (simp add: Session_Server.async_accept_def simps)
  moreover have "demo_step ?a ?b"
    by (rule session_server_step.socket [where r = None]) (simp add: on_socket_accepted_def Let_def demo_x0_def simps)
  moreover have "demo_step ?b ?c"
    by (rule session_server_step.start [where n = 0 and env = ?env])
      (simp add: session_start_def in_session_def accept_log_in_start_def finish_log_in_def l simps
        on_log_in_done_def on_done_def)
  ultimately show ?thesis by (meson rtranclp.rtrancl_into_rtrancl rtranclp.rtrancl_refl)
qed

theorem null_err_code_keeps_failed_sessions_witness:
  "\<exists>s x. demo_step\<^sup>*\<^sup>* (demo_server False) s \<and> m_incomplete_session_graveyard s = Some [x] \<and>
     v_done_calls s = [(31, Some (System_err 5))] \<and>
     (\<exists>ys. m_incomplete_session_graveyard (graveyard_work demo_srv_cfg s) = Some (x # ys))"
proof -
  obtain k' where k: "Session_server_impl demo_session_lib demo_srv_cfg demo_ctor_env 77 demo_srv_app demo_apps (\<lambda>_. None)
    False demo_kernel = Inr (k', Constructed (demo_server False) None)" using demo_ctor by blast
  obtain x where "demo_step\<^sup>*\<^sup>* (demo_server False) ((demo_server False)\<lparr> v_requests := [31], v_next_session := 1,
    m_incomplete_session_graveyard := Some [x], v_done_calls := [(31, Some (System_err 5))] \<rparr>)" (is "demo_step\<^sup>*\<^sup>* _ ?s")
    using demo_failed_session by blast
  moreover have "demo_step\<^sup>*\<^sup>* ?s (graveyard_work demo_srv_cfg ?s)"
    by (rule r_into_rtranclp, rule session_server_step.graveyard)
  ultimately have "demo_step\<^sup>*\<^sup>* (demo_server False) ?s"
    "\<exists>g ys. m_incomplete_session_graveyard ?s = Some g \<and>
       m_incomplete_session_graveyard (graveyard_work demo_srv_cfg ?s) = Some (g @ ys)"
    by (blast, rule null_err_code_keeps_failed_sessions [OF k])
  then
  show ?thesis by (intro exI [of _ ?s] exI [of _ x]) (auto simp: fresh_server_def)
qed

theorem log_in_failure_during_destruction_witness:
  "\<exists>t \<in> set (fst (dtor_Session_server_impl demo_srv_cfg rev demo_w3)). \<not> returns (session_error demo_srv_cfg 0 (System_err 5) t)"
proof -
  have "(0, demo_x1 0, demo_rq 0 31) \<in> set (m_incomplete_sessions demo_w3)" "m_master_channel (demo_x1 0) \<noteq> None"
    "mset (rev (m_incomplete_sessions demo_w3)) = mset (m_incomplete_sessions demo_w3)" by simp_all
  from log_in_failure_during_destruction [where ord = rev, OF demo_reach_w3 this, of "System_err 5"] show ?thesis by blast
qed

end
