(* ===== verification/Session_Protocol.thy ===== *)
theory Session_Protocol
  imports Client_Properties Session_Server_Properties
begin

text \<open>
  Both sides of a session together: a client finds the server that published its namespace, the
  log-in leads both to the same session, and channels that either side opens have their two ends
  at the two sides.
\<close>

section \<open>Finding the server\<close>

text \<open>
  C3. A client finds the server. After the constructor of a session server has succeeded, a client of the
  application that gets the store's content as the server left it connects to the very name at which
  the server's stream acceptor listens, takes the server's own namespace as its session's, sends
  its log-in request and waits for the response.
\<close>

theorem client_reaches_server:
  assumes app: "srv_app_ok L srv" "sn_piece (lib_sn L) (MQ_RESOURCE_TYPE_ID (lib_sn L))"
    and server: "Session_server_impl L cfg env pid srv apps setup emit k = Inr (k', Constructed s None)"
    and cast: "lexical_cast_pid L (int_to_string (sint pid)) = Some pid" "pid \<noteq> 0"
    and client: "m_srv_app_ref c = srv" "m_state c = S_NULL" "Client_Session.m_master_channel c = None" "m_srv_namespace c = []"
    and store: "\<forall>n. env_mutex cenv n = None"
      "env_file cenv (cur_ns_store_absolute_path L srv) = Inr (the (ks_cns k' (cur_ns_store_absolute_path L srv)))"
    and listens: "\<forall>n. ct_acceptor env n = None \<longrightarrow> env_sock_connect cenv n = None"
      "env_remote_creds cenv = None" "env_request cenv = Sent_ok"
  shows "\<exists>c'. async_connect L ccfg cenv hook (Some \<lparr> mb_kind = For_log_in, mb_mdt = md \<rparr>) outs h c = Inr (True, c') \<and>
    m_state c' = S_CONNECTING \<and> c_expect c' = Expect_log_in_rsp \<and> m_conn_on_done_func_or_empty c' = Some h \<and>
    m_srv_namespace c' = m_srv_namespace (Server_session_impl pid srv) \<and>
    sent c' = sent c @ [fill_log_in_req ccfg cenv md (c\<lparr> c_out := outs \<rparr>)]"
proof -
  from ctor_outcome [OF app, of cfg env pid apps "setup" emit k] server
  have succ: "ctor_succeeds L env pid srv k"
    and cns: "ks_cns k' (cur_ns_store_absolute_path L srv) = Some (int_to_string (sint pid) @ [CHR 0x0A])"
    by (auto split: if_splits)
  from succ have "ct_acceptor env (acceptor_name L srv (int_to_string (sint pid))) = None"
    by (simp add: ctor_succeeds_def)
  with listens have acc: "env_sock_connect cenv (acceptor_name L (m_srv_app_ref c) (int_to_string (sint pid))) = None"
    using client by simp
  have nl: "CHR 0x0A \<notin> set (int_to_string (sint pid))"
    using int_to_string_chars [of "CHR 0x0A" "sint pid"] by (auto simp: is_digit_def)
  have "async_connect L ccfg cenv hook (Some \<lparr> mb_kind = For_log_in, mb_mdt = md \<rparr>) outs h c = Inr (True,
    c\<lparr> m_srv_namespace := int_to_string (sint pid), m_state := S_CONNECTING,
       m_conn_on_done_func_or_empty := Some h, Client_Session.m_master_channel := Some (env_new_channel cenv),
       c_expect := Expect_log_in_rsp, c_out := outs,
       sent := sent c @ [fill_log_in_req ccfg cenv md (c\<lparr> c_out := outs \<rparr>)] \<rparr>)"
    by (rule async_connect_log_in [where rest = "[]", OF _ client(2-4) store(1) _ nl cast acc listens(2,3)])
      (use app client store cns in simp_all)
  then show ?thesis by (simp add: Server_session_impl_def Session_base_srv_def session_base.defs)
qed

section \<open>The log-in\<close>

text \<open>
  What travels during the log-in: the server handles the client's request; what it sent is then
  handled by the client, first the response, then the requests that open the init-channels.
  \<open>senv\<close> and \<open>cenvs\<close> are the answers of the environment of either side.
\<close>

definition log_in_exchange ::
    "session_lib \<Rightarrow> session_cfg \<Rightarrow> accept_callbacks \<Rightarrow> process_creds \<Rightarrow> string \<Rightarrow> (nat \<Rightarrow> srv_init_env) \<Rightarrow>
     init_env list \<Rightarrow> server_session \<Rightarrow> client_session \<Rightarrow> (server_session \<times> client_session) res" where
  "log_in_exchange L cfg cb creds name senv cenvs s c =
     res_bind (on_log_in_req L cfg cb creds name Sent_ok senv (last (sent c)) s) (\<lambda>s'.
     case drop (length (s_sent s)) (s_sent s') of
       [] \<Rightarrow> Inr (s', c)
     | rsp # reqs \<Rightarrow>
         res_bind (on_master_channel_log_in_rsp L cfg user_hook True rsp c) (\<lambda>c.
         res_bind (deliver_init_channels cfg (zip cenvs reqs) c) (\<lambda>c. Inr (s', c))))"

text \<open>
  The two objects of one channel: the same transports, the queues in opposite roles, and the
  two ends of one socket pair.
\<close>

definition paired :: "session_cfg \<Rightarrow> resource_env \<Rightarrow> channel_obj \<Rightarrow> channel_obj \<Rightarrow> bool" where
  "paired cfg env a b \<longleftrightarrow> (\<exists>na nb mqs l r.
     a = Channel na (Channel_obj cfg) (map_option prod.swap mqs) (if S_SOCKET_STREAM_ENABLED cfg then Some l else None) \<and>
     b = Channel nb (Channel_obj cfg) mqs (if S_SOCKET_STREAM_ENABLED cfg then Some r else None) \<and>
     (mqs \<noteq> None \<longleftrightarrow> S_MQS_ENABLED cfg) \<and> (S_SOCKET_STREAM_ENABLED cfg \<longrightarrow> re_pair env = Inr (l, r)))"

lemma fits_paired:
  assumes "fits cfg env r"
  shows "paired cfg env (cr_channel r) (passive_channel cfg n (open_channel_req_msg (prepared_req r)))"
proof -
  let ?mqs = "if S_MQS_ENABLED cfg then Some (cr_c2s r, cr_s2c r) else None"
  from assms show ?thesis
    unfolding paired_def fits_def passive_channel_def open_channel_req_msg_def prepared_req_def
    by (intro exI [of _ "ch_nickname (cr_channel r)"] exI [of _ "''passive'' @ to_string (unat n)"] exI [of _ ?mqs]
        exI [of _ "the (ch_hndl (cr_channel r))"] exI [of _ "the (cr_remote_hndl r)"])
      (auto split: if_splits)
qed

lemma fits_good: "fits cfg env r \<Longrightarrow> good_channel_msg cfg (open_channel_req_msg (prepared_req r))"
  unfolding fits_def good_channel_msg_def open_channel_req_msg_def prepared_req_def by (auto split: if_splits)

lemma passive_channels_nth:
  "i < length ms \<Longrightarrow> passive_channels cfg n ms ! i = passive_channel cfg (n + word_of_nat (Suc i)) (ms ! i)"
proof (induction ms arbitrary: n i)
  case (Cons m ms)
  then show ?case by (cases i) (simp_all add: algebra_simps)
qed simp

text \<open>A client that waits for the response, its request being the last message it sent.\<close>

definition awaits_log_in :: "client_session \<Rightarrow> handler \<Rightarrow> log_in_req \<Rightarrow> channel_obj list \<Rightarrow> bool" where
  "awaits_log_in c h q by_cli \<longleftrightarrow> m_state c = S_CONNECTING \<and> m_conn_on_done_func_or_empty c = Some h \<and>
     m_cli_namespace c = [] \<and> sent c \<noteq> [] \<and> body (last (sent c)) = LogInReq q \<and>
     (\<exists>om by_srv. c_out c = \<lparr> out_by_cli = Some by_cli, out_mdt = Some om, out_by_srv = Some by_srv \<rparr>) \<and>
     lq_n_init_by_cli q = word_of_nat (length by_cli) \<and> length by_cli < 2 ^ 64"

text \<open>The answers of the client's environment for \<open>n\<close> init-channels under which all goes well.\<close>

definition client_answers_ok :: "init_env list \<Rightarrow> nat \<Rightarrow> bool" where
  "client_answers_ok envs n \<longleftrightarrow> length envs = n \<and> (\<forall>e \<in> set envs. channel_env_ok (ie_channel e)) \<and>
     (n > 0 \<longrightarrow> ie_undo_ok (last envs) \<and> ie_expect_ok (last envs) \<and> ie_rsp (last envs) = Sent_ok)"

lemma client_completes:
  assumes c: "awaits_log_in c h q by_cli" and cfg: "\<not> S_GRACEFUL_FINISH_REQUIRED cfg"
    and rsp: "body rsp = LogInRsp r" "compute_negotiated_proto_ver L (lr_max_proto_ver r) = None"
      "compute_negotiated_proto_ver L (lr_max_proto_ver_aux r) = None"
      "lr_cli_namespace r \<notin> {[], S_SENTINEL (lib_sn L)}"
    and n: "unat (lr_n_init_by_srv r) + length by_cli = length reqs" "length reqs < 2 ^ 64"
    and reqs: "\<forall>m \<in> set reqs. good_channel_msg cfg m" and envs: "client_answers_ok envs (length reqs)"
  shows "\<exists>c1 c2. on_master_channel_log_in_rsp L cfg user_hook True rsp c = Inr c1 \<and>
    deliver_init_channels cfg (zip envs reqs) c1 = Inr c2 \<and>
    m_state c2 = S_PEER \<and> done_calls c2 = done_calls c @ [(h, None)] \<and> m_cli_namespace c2 = lr_cli_namespace r \<and>
    c_out c2 = init_out (c_out c) (length by_cli) (passive_channels cfg (Client_Session.m_last_passively_opened_channel_id c1) reqs)
      (Some (lr_mdt r)) \<and> same_base c c2"
proof -
  from c obtain om by_srv where out: "c_out c = \<lparr> out_by_cli = Some by_cli, out_mdt = Some om, out_by_srv = Some by_srv \<rparr>"
    by (auto simp: awaits_log_in_def)
  then have nc: "n_by_cli c = length by_cli" by (simp add: n_by_cli_def)
  have s: "m_state c = S_CONNECTING" "m_conn_on_done_func_or_empty c = Some h" "m_cli_namespace c = []"
    using c by (simp_all add: awaits_log_in_def)
  have acc: "accepts_log_in_rsp L (c_out c) rsp" using rsp out by (simp add: accepts_log_in_rsp_def)
  from on_log_in_rsp [OF s cfg, of rsp L] rsp(1) n nc acc obtain c1 where
    c1: "on_master_channel_log_in_rsp L cfg user_hook True rsp c = Inr c1" "m_cli_namespace c1 = lr_cli_namespace r"
    "if lr_n_init_by_srv r = 0 \<and> n_by_cli c = 0
     then m_state c1 = S_PEER \<and> c_expect c1 = Expect_open_channel \<and>
          done_calls c1 = done_calls c @ [(h, None)] \<and>
          c_out c1 = log_in_out (c_out c) (Some (lr_mdt r))
     else m_state c1 = S_CONNECTING \<and> c_out c1 = c_out c \<and> done_calls c1 = done_calls c \<and>
          m_conn_on_done_func_or_empty c1 = Some h \<and>
          c_expect c1 = Expect_init_channels (length reqs) [] (Some (lr_mdt r))"
    using out by auto
  note b = on_log_in_rsp_base [OF c1(1)]
  show ?thesis
  proof (cases "reqs = []")
    case True
    with n nc have "lr_n_init_by_srv r = 0 \<and> n_by_cli c = 0" by (auto simp: unat_eq_0)
    with True c1 n out b show ?thesis by (simp add: init_out_def log_in_out_def)
  next
    case False
    have "\<not> (lr_n_init_by_srv r = 0 \<and> n_by_cli c = 0)" using False n nc by auto
    with c1(3) have d: "m_state c1 = S_CONNECTING" "c_out c1 = c_out c" "done_calls c1 = done_calls c"
      "m_conn_on_done_func_or_empty c1 = Some h" "c_expect c1 = Expect_init_channels (length reqs) [] (Some (lr_mdt r))"
      by (simp_all only: if_False)
    have ready: "client_init_ready (length reqs) [] (Some (lr_mdt r)) c1" "n_by_cli c1 = length by_cli"
      using d out n by (simp_all add: client_init_ready_def n_by_cli_def)
    have l: "length envs = length reqs" using envs by (simp add: client_answers_ok_def)
    have ne: "envs \<noteq> []" "zip envs reqs \<noteq> []" using False l by (cases envs; cases reqs; simp)+
    then have last: "fst (last (zip envs reqs)) = last envs"
      using False l by (simp add: last_conv_nth)
    have z: "\<forall>(e, m) \<in> set (zip envs reqs). good_channel_msg cfg m \<and> channel_env_ok (ie_channel e)"
      using envs reqs by (auto simp: client_answers_ok_def set_zip)
    have "deliver_init_channels cfg (zip envs reqs) c1 = Inr
      (c1\<lparr> Client_Session.m_last_passively_opened_channel_id :=
             Client_Session.m_last_passively_opened_channel_id c1 + word_of_nat (length (zip envs reqs)),
       c_expect := Expect_open_channel,
       sent := sent c1 @ [open_channel_rsp_to_srv ACCEPTED],
       c_out := init_out (c_out c1) (n_by_cli c1)
         ([] @ passive_channels cfg (Client_Session.m_last_passively_opened_channel_id c1) (map snd (zip envs reqs)))
         (Some (lr_mdt r)),
       m_state := S_PEER, m_conn_on_done_func_or_empty := None,
       done_calls := done_calls c1 @ [(h, None)] \<rparr>)"
      by (rule deliver_init_channels_ok [OF ready(1) _ _ z _ _ _ cfg d(4)])
        (use False l last envs in \<open>auto simp: client_answers_ok_def\<close>)
    with c1 d ready l b show ?thesis by (simp add: same_base_def)
  qed
qed

text \<open>The exchange without failures: what each side ends with, in terms of the channels the server made.\<close>

lemma log_in_exchange_completes:
  assumes client: "awaits_log_in c h q by_cli" and server: "ready_for_log_in L cfg cb creds name q s"
      "session_names_ok L (checked cb q s)"
      "s_out s = \<lparr> out_by_srv_req = Some bs, out_mdt_from_cli = Some om, out_by_cli_req = Some bc \<rparr>"
    and n: "n_srv = unat (n_init_channels_by_srv_req_func cb (app_of cb q) (lq_n_init_by_cli q) (lq_mdt q))"
      "n = length by_cli + n_srv"
    and fine: "init_answers_ok cfg senv n" "client_answers_ok cenvs n" "compute_negotiated_proto_ver L 1 = None"
      "\<not> S_GRACEFUL_FINISH_REQUIRED cfg"
  shows "\<exists>s' c' rs k. log_in_exchange L cfg cb creds name senv cenvs s c = Inr (s', c') \<and> length rs = n \<and>
    s_done_calls s' = s_done_calls s @ [(the (m_log_in_on_done_func s), None)] \<and> m_cli_namespace s' = cli_namespace_func cb \<and>
    s_out s' = (if rs = [] then (s_out s)\<lparr> out_mdt_from_cli := map_option (\<lambda>_. Some (lq_mdt q)) (out_mdt_from_cli (s_out s)) \<rparr>
      else filled_out (s_out s) (length by_cli) (map cr_channel rs) (lq_mdt q)) \<and>
    (\<forall>i < n. fits cfg (si_resources (senv i)) (rs ! i)) \<and>
    m_state c' = S_PEER \<and> done_calls c' = done_calls c @ [(h, None)] \<and> m_cli_namespace c' = cli_namespace_func cb \<and>
    c_out c' = init_out (c_out c) (length by_cli) (passive_channels cfg k
        (map (\<lambda>r. open_channel_req_msg (prepared_req r)) rs))
      (Some (mdt_load_func cb (app_of cb q) (lq_n_init_by_cli q) (lq_mdt q))) \<and>
    m_cli_app_ptr s' = cli_app_lookup_func cb (lq_own_app q) \<and> m_srv_app_ref s' = m_srv_app_ref s \<and>
    m_srv_namespace s' = m_srv_namespace s \<and> same_base c c'"
proof -
  let ?m = "last (sent c)" let ?t = "total_init_channels cb (app_of cb q) q s"
  from client have m: "body ?m = LogInReq q" and q: "unat (lq_n_init_by_cli q) = length by_cli" "length by_cli < 2 ^ 64"
    by (simp_all add: awaits_log_in_def unat_of_nat take_bit_eq_mod)
  have bound: "length by_cli + n_srv < 2 ^ 64" using server(1,3) n(1) q by (simp add: ready_for_log_in_def)
  have t: "unat ?t = n" "unat (?t - lq_n_init_by_cli q) = n_srv"
    using server(3) n q bound by (simp_all add: total_init_channels_def unat_word_ariths)
  from on_log_in_req_accepted [OF server(1) m server(2), of senv] fine(1) t(1) obtain s' rs where
    s': "on_log_in_req L cfg cb creds name Sent_ok senv ?m s = Inr s'" "length rs = n"
    "s_sent s' = s_sent s @ fill_log_in_rsp cb (app_of cb q) q ?t (checked cb q s)
      # map (\<lambda>r. open_channel_req_msg (prepared_req r)) rs"
    "s_done_calls s' = s_done_calls s @ [(the (m_log_in_on_done_func s), None)]"
    "m_cli_namespace s' = cli_namespace_func cb"
    "s_out s' = (if rs = [] then (s_out s)\<lparr> out_mdt_from_cli := map_option (\<lambda>_. Some (lq_mdt q)) (out_mdt_from_cli (s_out s)) \<rparr>
      else filled_out (s_out s) (unat (lq_n_init_by_cli q)) (map cr_channel rs) (lq_mdt q))"
    "\<forall>i < n. fits cfg (si_resources (senv i)) (rs ! i)"
    "m_cli_app_ptr s' = cli_app_lookup_func cb (lq_own_app q)" "m_srv_app_ref s' = m_srv_app_ref s"
    "m_srv_namespace s' = m_srv_namespace s" by auto
  let ?reqs = "map (\<lambda>r. open_channel_req_msg (prepared_req r)) rs"
  let ?rsp = "fill_log_in_rsp cb (app_of cb q) q ?t (checked cb q s)"
  let ?r = "\<lparr> lr_max_proto_ver = 1, lr_max_proto_ver_aux = 1, lr_cli_namespace = cli_namespace_func cb,
    lr_mdt = mdt_load_func cb (app_of cb q) (lq_n_init_by_cli q) (lq_mdt q), lr_n_init_by_srv = ?t - lq_n_init_by_cli q \<rparr>"
  have rsp: "body ?rsp = LogInRsp ?r" by (simp add: fill_log_in_rsp_def checked_def cli_namespace_def)
  have usable: "lr_cli_namespace ?r \<notin> {[], S_SENTINEL (lib_sn L)}"
    using server(1) by (simp add: ready_for_log_in_def namespace_usable_def)
  have "\<forall>i < n. good_channel_msg cfg (open_channel_req_msg (prepared_req (rs ! i)))"
    using s'(7) fits_good by blast
  then have good: "\<forall>m \<in> set ?reqs. good_channel_msg cfg m" using s'(2) by (auto simp: in_set_conv_nth)
  have len: "length ?reqs = n" using s'(2) by simp
  have "\<exists>c1 c2. on_master_channel_log_in_rsp L cfg user_hook True ?rsp c = Inr c1 \<and>
    deliver_init_channels cfg (zip cenvs ?reqs) c1 = Inr c2 \<and>
    m_state c2 = S_PEER \<and> done_calls c2 = done_calls c @ [(h, None)] \<and> m_cli_namespace c2 = lr_cli_namespace ?r \<and>
    c_out c2 = init_out (c_out c) (length by_cli) (passive_channels cfg (Client_Session.m_last_passively_opened_channel_id c1) ?reqs)
      (Some (lr_mdt ?r)) \<and> same_base c c2"
    by (rule client_completes [OF client fine(4) rsp _ _ usable _ _ good])
      (use fine t n bound in \<open>simp_all add: s'(2)\<close>)
  then obtain c1 c2 where c2: "on_master_channel_log_in_rsp L cfg user_hook True ?rsp c = Inr c1"
    "deliver_init_channels cfg (zip cenvs ?reqs) c1 = Inr c2"
    "m_state c2 = S_PEER" "done_calls c2 = done_calls c @ [(h, None)]" "m_cli_namespace c2 = cli_namespace_func cb"
    "c_out c2 = init_out (c_out c) (length by_cli) (passive_channels cfg (Client_Session.m_last_passively_opened_channel_id c1) ?reqs)
      (Some (lr_mdt ?r))" "same_base c c2" by auto
  have ex: "log_in_exchange L cfg cb creds name senv cenvs s c = Inr (s', c2)"
    using s'(1,3) c2(1,2) by (simp add: log_in_exchange_def)
  show ?thesis
    by (intro exI [of _ s'] exI [of _ c2] exI [of _ rs] exI [of _ "Client_Session.m_last_passively_opened_channel_id c1"] conjI) (use ex s' c2 q(1) in simp_all)
qed


section \<open>Opening a channel\<close>

text \<open>
  The client opens: the server handles the request and the client's call gets the server's response. The
  server opens, with the request \<open>r\<close> prepared by its \<open>mdt_builder\<close>: the client handles it
  and the server's call gets the client's response. The answers are those of a working channel.
\<close>

definition open_from_client ::
    "session_lib \<Rightarrow> session_cfg \<Rightarrow> resource_env \<Rightarrow> channel_env \<Rightarrow> mdt \<Rightarrow> server_session \<Rightarrow> client_session \<Rightarrow>
     (open_result \<times> server_session \<times> client_session) res" where
  "open_from_client L cfg senv cenv md s c =
     res_bind (Server_Session.on_master_channel_open_channel_req L cfg \<lparr> sp_resources = senv, sp_rsp = Sent_ok \<rparr>
       \<lparr> body = OpenChannelToServerReq md, native_handle_or_null = None \<rparr> s) (\<lambda>s'.
     res_bind (Client_Session.open_channel cfg
       \<lparr> oe_rsp = Some (last (s_sent s')), oe_err = None, oe_channel = cenv \<rparr>
       (Some \<lparr> mb_kind = For_open_channel, mb_mdt = md \<rparr>) None c) (\<lambda>(r, c'). Inr (r, s', c')))"

definition open_from_server ::
    "session_cfg \<Rightarrow> channel_env \<Rightarrow> open_channel_req \<Rightarrow> server_session \<Rightarrow> client_session \<Rightarrow>
     (open_result \<times> server_session \<times> client_session) res" where
  "open_from_server cfg cenv r s c =
     res_bind (Client_Session.on_master_channel_open_channel_req cfg \<lparr> pe_channel = cenv, pe_rsp = Sent_ok \<rparr>
       (open_channel_req_msg r) c) (\<lambda>c'.
     res_bind (Server_Session.open_channel \<lparr> so_rsp = Some (last (sent c')), so_err = None \<rparr> (Some r) None s) (\<lambda>(res, s').
     Inr (res, s', c')))"

text \<open>A session in PEER state that is not hosed.\<close>

definition client_peer :: "client_session \<Rightarrow> bool" where
  "client_peer c \<longleftrightarrow> m_state c = S_PEER \<and> m_on_err_func c \<noteq> None \<and> m_peer_state_err_code_or_ok c = None"

definition server_peer :: "session_lib \<Rightarrow> server_session \<Rightarrow> bool" where
  "server_peer L s \<longleftrightarrow> m_on_err_func s \<noteq> None \<and> m_peer_state_err_code_or_ok s = None \<and>
     Server_Session.m_master_channel s \<noteq> None \<and> session_names_ok L s"

lemma fits_fields:
  assumes "fits cfg env r"
  shows "cr_ok r" "cr_remote_hndl r \<noteq> None \<longleftrightarrow> S_SOCKET_STREAM_ENABLED cfg" "cr_c2s r \<noteq> [] \<longleftrightarrow> S_MQS_ENABLED cfg"
    "cr_channel r \<noteq> Blank"
    "paired cfg env (cr_channel r) (Channel nick (Channel_obj cfg)
      (if S_MQS_ENABLED cfg then Some (cr_c2s r, cr_s2c r) else None) (cr_remote_hndl r))"
proof -
  show "cr_ok r" "cr_remote_hndl r \<noteq> None \<longleftrightarrow> S_SOCKET_STREAM_ENABLED cfg" "cr_c2s r \<noteq> [] \<longleftrightarrow> S_MQS_ENABLED cfg"
    "cr_channel r \<noteq> Blank"
    using assms by (auto simp: fits_def split: if_splits)
  let ?mqs = "if S_MQS_ENABLED cfg then Some (cr_c2s r, cr_s2c r) else None"
  from assms show "paired cfg env (cr_channel r) (Channel nick (Channel_obj cfg) ?mqs (cr_remote_hndl r))"
    unfolding paired_def fits_def
    by (intro exI [of _ "ch_nickname (cr_channel r)"] exI [of _ nick] exI [of _ ?mqs]
        exI [of _ "the (ch_hndl (cr_channel r))"] exI [of _ "the (cr_remote_hndl r)"]) (auto split: if_splits)
qed

text \<open>
  C7. A channel the client opens. The call returns true, and the two sides agree on the outcome: without a
  passive-open handler at the server or without the resources there, the client is told so and no channel
  exists on either side; else the channel the client gets and the one the server's handler gets,
  with the client's metadata, are the two ends of the same channel.
\<close>

theorem open_from_client_agreement:
  assumes "client_peer c" "server_peer L s" "channel_env_ok cenv"
  shows "\<exists>res s' c'. open_from_client L cfg senv cenv md s c = Inr (res, s', c') \<and>
    (case m_on_passive_open_channel_func_or_empty s of
       None \<Rightarrow> res = (True, Some (Session_err S_SESSION_OPEN_CHANNEL_REMOTE_PEER_REJECTED_PASSIVE_OPEN), None) \<and>
         s_passive_calls s' = s_passive_calls s
     | Some f \<Rightarrow>
         if resources_available cfg senv
         then \<exists>a b. res = (True, None, Some b) \<and> s_passive_calls s' = s_passive_calls s @ [(f, a, md)] \<and> paired cfg senv a b
         else res = (True, Some (Session_err S_SESSION_OPEN_CHANNEL_SERVER_CANNOT_PROCEED_RESOURCE_UNAVAILABLE), None) \<and>
           s_passive_calls s' = s_passive_calls s) \<and>
    hosed s' = Inr False \<and> hosed c' = Inr False"
proof -
  let ?env = "\<lparr> sp_resources = senv, sp_rsp = Sent_ok \<rparr>"
  let ?m = "\<lparr> body = OpenChannelToServerReq md, native_handle_or_null = None \<rparr>"
  let ?f = "m_on_passive_open_channel_func_or_empty s"
  from assms(2) obtain h where h: "m_on_err_func s = Some h" by (auto simp: server_peer_def)
  have "m_peer_state_err_code_or_ok s = None" "Server_Session.m_master_channel s \<noteq> None" "session_names_ok L s"
    using assms(2) by (simp_all add: server_peer_def)
  note p = srv_passive_open [OF h this, of ?m md ?env cfg, unfolded srv_passive_env.simps msg.simps, OF refl refl]
  from p obtain s' r where s':
    "Server_Session.on_master_channel_open_channel_req L cfg ?env ?m s = Inr s'"
    "s_sent s' = s_sent s @ [open_channel_rsp_to_cli
      (if ?f = None then REJECTED_PASSIVE_OPEN
       else if resources_available cfg senv then ACCEPTED else REJECTED_RESOURCE_UNAVAILABLE) r]"
    "s_passive_calls s' = s_passive_calls s @
      (case ?f of Some f \<Rightarrow> if resources_available cfg senv then [(f, cr_channel r, md)] else [] | None \<Rightarrow> [])"
    "?f \<noteq> None \<and> resources_available cfg senv \<longrightarrow> fits cfg senv r" "hosed s' = Inr False"
    by blast
  let ?rsp = "last (s_sent s')"
  have op: "Client_Session.open_channel cfg \<lparr> oe_rsp = Some ?rsp, oe_err = None, oe_channel = cenv \<rparr>
       (Some \<lparr> mb_kind = For_open_channel, mb_mdt = md \<rparr>) None c = open_channel_with_rsp cfg cenv ?rsp c"
    and hc: "hosed c = Inr False"
    using assms(1) by (auto simp: Client_Session.open_channel_def client_peer_def)
  have ex: "open_from_client L cfg senv cenv md s c = res_bind (open_channel_with_rsp cfg cenv ?rsp c) (\<lambda>(r, c'). Inr (r, s', c'))"
    by (simp add: open_from_client_def s'(1) op)
  show ?thesis
  proof (cases "?f \<noteq> None \<and> resources_available cfg senv")
    case False
    with ex s' hc show ?thesis
      by (cases ?f) (auto simp: open_channel_with_rsp_def open_channel_rsp_to_cli_def getOpenChannelToServerRsp_def
          rejection_def make_error_code_def)
  next
    case True
    with s'(4) have fits: "fits cfg senv r" by blast
    let ?n = "Client_Session.m_last_actively_opened_channel_id c + 1"
    let ?b = "Channel (''active'' @ to_string (unat ?n)) (Channel_obj cfg)
      (if S_MQS_ENABLED cfg then Some (cr_c2s r, cr_s2c r) else None) (cr_remote_hndl r)"
    have rsp: "?rsp = open_channel_rsp_to_cli ACCEPTED r" using s'(2) True by auto
    have "open_channel_with_rsp cfg cenv ?rsp c =
        Inr ((True, None, Some ?b), c\<lparr> Client_Session.m_last_actively_opened_channel_id := ?n \<rparr>)"
      unfolding rsp using fits_fields(2,3) [OF fits] assms(3)
      by (auto simp: open_channel_with_rsp_def getOpenChannelToServerRsp_def open_channel_rsp_to_cli_def rejection_def
          create_channel_obj_def Client_Session.channel_nickname_def channel_env_ok_def Let_def)
    moreover have "hosed (c\<lparr> Client_Session.m_last_actively_opened_channel_id := ?n \<rparr>) = Inr False"
      using hc assms(1) by (auto simp: client_peer_def)
    ultimately show ?thesis using ex s' True fits_fields(5) [OF fits] by auto
  qed
qed

text \<open>
  C8. A channel the server opens, with a request prepared for resources that could be had. The call returns
  true and the two sides agree: without a passive-open handler at the client the server is told
  so; else the client's handler gets, with the server's metadata, the other end of the channel the
  server's call returns.
\<close>

theorem open_from_server_agreement:
  assumes "client_peer c" "server_peer L s" "channel_env_ok cenv" "fits cfg senv r"
    and q: "q = (prepared_req r)\<lparr> or_root := (or_root (prepared_req r))\<lparr> oc_mdt := md \<rparr> \<rparr>"
  shows "\<exists>res s' c'. open_from_server cfg cenv q s c = Inr (res, s', c') \<and>
    (case m_on_passive_open_channel_func_or_empty c of
       None \<Rightarrow> res = (True, Some (Session_err S_SESSION_OPEN_CHANNEL_REMOTE_PEER_REJECTED_PASSIVE_OPEN), None) \<and>
         passive_calls c' = passive_calls c
     | Some f \<Rightarrow> \<exists>a b. res = (True, None, Some a) \<and> passive_calls c' = passive_calls c @ [(f, b, md)] \<and> paired cfg senv a b) \<and>
    hosed s' = Inr False"
proof -
  let ?m = "open_channel_req_msg q"
  let ?env = "\<lparr> pe_channel = cenv, pe_rsp = Sent_ok \<rparr>"
  let ?f = "m_on_passive_open_channel_func_or_empty c"
  note fit = fits_fields [OF assms(4)]
  have root: "body ?m = OpenChannelToClientReq (\<lparr> oc_mq_c2s_or_empty = cr_c2s r, oc_mq_s2c_or_empty = cr_s2c r, oc_mdt = md \<rparr>)"
    and hndl: "native_handle_or_null ?m = cr_remote_hndl r" and ch: "or_opened_channel q = cr_channel r"
    using fit(1) by (simp_all add: q open_channel_req_msg_def prepared_req_def)
  have good: "good_channel_msg cfg ?m" unfolding good_channel_msg_def root hndl using fit(2,3) by simp
  from assms(1) obtain h where h: "m_on_err_func c = Some h" and ok: "m_peer_state_err_code_or_ok c = None"
    by (auto simp: client_peer_def)
  have "channel_env_ok (pe_channel ?env)" using assms(3) by simp
  from cli_passive_open [OF h good this] ok root obtain c' where c':
    "Client_Session.on_master_channel_open_channel_req cfg ?env ?m c = Inr c'"
    "sent c' = sent c @ [open_channel_rsp_to_srv (if ?f = None then REJECTED_PASSIVE_OPEN else ACCEPTED)]"
    "passive_calls c' = passive_calls c @ (case ?f of None \<Rightarrow> []
       | Some f \<Rightarrow> [(f, passive_channel cfg (Client_Session.m_last_passively_opened_channel_id c + 1) ?m, md)])"
    by (cases ?f) auto
  let ?b = "passive_channel cfg (Client_Session.m_last_passively_opened_channel_id c + 1) ?m"
  have pair: "paired cfg senv (cr_channel r) ?b"
    unfolding passive_channel_def root hndl msg_body.case open_channel_to_client_req.simps by (rule fit(5))
  from assms(2) obtain g where g: "m_on_err_func s = Some g" "m_peer_state_err_code_or_ok s = None"
    by (auto simp: server_peer_def)
  have ne: "or_opened_channel q \<noteq> Blank" using fit(4) ch by simp
  let ?rsp = "last (sent c')"
  have rsp: "?rsp = open_channel_rsp_to_srv (if ?f = None then REJECTED_PASSIVE_OPEN else ACCEPTED)" using c'(2) by simp
  have "Server_Session.open_channel \<lparr> so_rsp = Some ?rsp, so_err = None \<rparr> (Some q) None s =
     (let s' = s\<lparr> s_sent := s_sent s @ [open_channel_req_msg q] \<rparr> in
      if ?f \<noteq> None then Inr ((True, None, Some (cr_channel r)), s')
      else Inr ((True, Some (Session_err S_SESSION_OPEN_CHANNEL_REMOTE_PEER_REJECTED_PASSIVE_OPEN), None), s'))"
    using srv_open_channel [OF g ne, of "\<lparr> so_rsp = Some ?rsp, so_err = None \<rparr>" None] ch
    by (cases ?f) (simp_all add: rsp open_channel_rsp_to_srv_def Let_def)
  with c' pair g show ?thesis by (cases ?f) (simp_all add: open_from_server_def Let_def)
qed

section \<open>A concrete run\<close>

lemma demo_pid_string: "int_to_string (sint (77 :: process_id_t)) = ''77''"
  by code_simp

theorem client_reaches_server_witness:
  "\<exists>k' c'. Session_server_impl demo_session_lib demo_srv_cfg demo_ctor_env 77 demo_srv_app demo_apps (\<lambda>_. None) True demo_kernel =
       Inr (k', Constructed (demo_server True) None) \<and>
     async_connect demo_session_lib demo_cfg (demo_connect_env\<lparr> env_file := (\<lambda>p. Inr (the (ks_cns k' p))) \<rparr>) user_hook
       (Some \<lparr> mb_kind = For_log_in, mb_mdt = [5] \<rparr>) demo_out 11 demo_c0 = Inr (True, c') \<and>
     c_expect c' = Expect_log_in_rsp"
proof -
  obtain k' where k: "Session_server_impl demo_session_lib demo_srv_cfg demo_ctor_env 77 demo_srv_app demo_apps (\<lambda>_. None)
    True demo_kernel = Inr (k', Constructed (demo_server True) None)" using demo_ctor by blast
  have "lexical_cast_pid demo_session_lib (int_to_string (sint (77 :: process_id_t))) = Some 77"
    unfolding demo_pid_string by (rule demo_lex)
  from client_reaches_server [OF demo_srv_app_ok demo_mq_piece k this, of demo_c0
      "demo_connect_env\<lparr> env_file := (\<lambda>p. Inr (the (ks_cns k' p))) \<rparr>" demo_cfg user_hook "[5]" demo_out 11] k
  show ?thesis by (auto simp: demo_connect_env_def)
qed

definition demo_c_waits :: client_session where
  "demo_c_waits = demo_c1\<lparr> c_out := \<lparr> out_by_cli = Some [Blank], out_mdt = Some None, out_by_srv = Some [] \<rparr>,
     sent := [demo_req_msg] \<rparr>"

lemma demo_awaits: "awaits_log_in demo_c_waits 11 demo_req [Blank]"
  by (simp add: awaits_log_in_def demo_c_waits_def) (simp add: demo_req_msg_def demo_req_def)


lemma demo_peers: "client_peer demo_c2" "server_peer demo_session_lib demo_s3"
  using demo_s3_names by (simp_all add: client_peer_def server_peer_def)

theorem open_from_client_agreement_witness:
  "\<exists>s' c' a b. open_from_client demo_session_lib demo_srv_cfg demo_resources demo_channel_env [9] demo_s3 demo_c2 =
       Inr ((True, None, Some b), s', c') \<and>
     s_passive_calls s' = s_passive_calls demo_s3 @ [(8, a, [9])] \<and> paired demo_srv_cfg demo_resources a b"
  using open_from_client_agreement [OF demo_peers, of demo_channel_env demo_srv_cfg demo_resources "[9]"] demo_resources_ok
  by auto

theorem open_from_server_agreement_witness:
  "\<exists>q s' c' a b. open_from_server demo_srv_cfg demo_channel_env q demo_s3 demo_c2 = Inr ((True, None, Some a), s', c') \<and>
     passive_calls c' = [(8, b, [9])] \<and> paired demo_srv_cfg demo_resources a b"
proof -
  from create_outcome [OF demo_s3_names(2), of demo_srv_cfg demo_resources True] demo_resources_ok obtain t r where
    "cr_ok r" "channel_made demo_session_lib demo_srv_cfg demo_resources demo_s3 t r" by auto
  then have "fits demo_srv_cfg demo_resources r" by (rule channel_made_fits)
  from open_from_server_agreement [OF demo_peers demo_good(2) this refl, of "[9]"] obtain q s' c' a b where
    "open_from_server demo_srv_cfg demo_channel_env q demo_s3 demo_c2 = Inr ((True, None, Some a), s', c')"
    "passive_calls c' = [(8, b, [9])]" "paired demo_srv_cfg demo_resources a b" by auto
  then show ?thesis by blast
qed

end
