(* ===== verification/Sync_Io.thy ===== *)
theory Sync_Io
  imports Session_Protocol
begin

text \<open>
  The adapters of the \<^verbatim>\<open>sync_io\<close> pattern, \<^verbatim>\<open>sync_io/detail/session_adapter.hpp\<close> with its subclasses
  for clients and servers, and \<^verbatim>\<open>sync_io/session_server_adapter.hpp\<close>. An adapter owns the
  session object, whose handlers it supplies; these store what is reported and write a byte to a pipe, for whose
  other end the user's event loop waits. When the loop reports it readable, the user's handler runs.

  A pipe is the number of bytes in it. An event-wait handle is the execution context it
  belongs to and the native handle assigned to it.
\<close>

type_synonym ev_wait_hndl = "nat \<times> nat"

record session_adapter =
  m_ready_err :: nat \<comment> \<open>\<^verbatim>\<open>m_ready_reader_err\<close>, \<^verbatim>\<open>m_ready_writer_err\<close>\<close>
  m_ready_chan :: nat
  m_ev_wait_hndl_err :: ev_wait_hndl
  m_ev_wait_hndl_chan :: ev_wait_hndl
  m_ev_wait_func :: "handler option"
  m_waits_err :: bool \<comment> \<open>an async-wait is in force\<close>
  m_waits_chan :: bool
  m_user_err_func :: "handler option" \<comment> \<open>\<^verbatim>\<open>m_on_err_func\<close>\<close>
  m_on_channel_func_or_empty :: "handler option"
  m_target_err_code_err :: "error_code option"
  m_target_channel_open_q :: "(channel_obj \<times> mdt) list"
  m_err_calls :: "(handler \<times> error_code option) list"
  m_channel_calls :: "(handler \<times> channel_obj \<times> mdt) list"

section \<open>Set-up\<close>

text \<open>The pipes are connected to native handles \<open>e\<close> and \<open>c\<close>; \<open>None\<close> is a failure to connect one.\<close>

definition Session_adapter ::
    "handler option \<Rightarrow> handler option \<Rightarrow> nat option \<Rightarrow> nat option \<Rightarrow> session_adapter res" where
  "Session_adapter on_err_func on_passive_open_channel_func e c =
     (case (e, c) of (Some e, Some c) \<Rightarrow> Inr
        \<lparr> m_ready_err = 0, m_ready_chan = 0, m_ev_wait_hndl_err = (0, e), m_ev_wait_hndl_chan = (0, c),
          m_ev_wait_func = None, m_waits_err = False, m_waits_chan = False,
          m_user_err_func = on_err_func, m_on_channel_func_or_empty = on_passive_open_channel_func,
          m_target_err_code_err = None, m_target_channel_open_q = [], m_err_calls = [], m_channel_calls = [] \<rparr>
      | _ \<Rightarrow> Inl (Assert ''connect-pipe failed''))"

text \<open>\<open>core_ok\<close> is the result of \<^verbatim>\<open>core()->init_handlers()\<close>.\<close>

definition adapter_init_handlers ::
    "bool \<Rightarrow> handler \<Rightarrow> handler \<Rightarrow> session_adapter \<Rightarrow> (bool \<times> session_adapter) res" where
  "adapter_init_handlers core_ok on_err_func_arg on_passive_open_channel_func_arg a =
     (if m_user_err_func a \<noteq> None then Inr (False, a)
      else
        ensure (m_on_channel_func_or_empty a = None) ''m_on_channel_func_or_empty.empty()'' (
        ensure core_ok ''We should have caught this with the above guard.'' (
        Inr (True, a\<lparr> m_user_err_func := Some on_err_func_arg,
                       m_on_channel_func_or_empty := Some on_passive_open_channel_func_arg \<rparr>))))"

definition adapter_init_handlers_no_passive ::
    "bool \<Rightarrow> handler \<Rightarrow> session_adapter \<Rightarrow> (bool \<times> session_adapter) res" where
  "adapter_init_handlers_no_passive core_ok on_err_func_arg a =
     (if m_user_err_func a \<noteq> None then Inr (False, a)
      else
        ensure core_ok ''We should have caught this with the above guard.'' (
        Inr (True, a\<lparr> m_user_err_func := Some on_err_func_arg \<rparr>)))"

definition adapter_start_ops :: "handler \<Rightarrow> session_adapter \<Rightarrow> bool \<times> session_adapter" where
  "adapter_start_ops ev_wait_func a =
     (if m_ev_wait_func a \<noteq> None then (False, a)
      else (True, a\<lparr> m_ev_wait_func := Some ev_wait_func, m_waits_err := True, m_waits_chan := True \<rparr>))"

text \<open>\<open>n1\<close> and \<open>n2\<close> are the contexts of the handles the user's function creates.\<close>

definition adapter_replace_event_wait_handles ::
    "nat \<Rightarrow> nat \<Rightarrow> session_adapter \<Rightarrow> bool \<times> session_adapter" where
  "adapter_replace_event_wait_handles n1 n2 a =
     (if m_ev_wait_func a \<noteq> None then (False, a)
      else (True, a\<lparr> m_ev_wait_hndl_err := (n1, snd (m_ev_wait_hndl_err a)),
                     m_ev_wait_hndl_chan := (n2, snd (m_ev_wait_hndl_chan a)) \<rparr>))"

section \<open>What the session's thread does\<close>

text \<open>The handlers given to the session; each first stores what is reported, then writes its byte.\<close>

definition on_err_func_sio :: "error_code \<Rightarrow> session_adapter \<Rightarrow> session_adapter res" where
  "on_err_func_sio err_code a =
     ensure (m_target_err_code_err a = None) ''Error handler must never fire more than once per Session!'' (
     Inr (a\<lparr> m_target_err_code_err := Some err_code \<rparr>))"

definition on_channel_func_sio :: "channel_obj \<times> mdt \<Rightarrow> session_adapter \<Rightarrow> session_adapter" where
  "on_channel_func_sio new a = a\<lparr> m_target_channel_open_q := m_target_channel_open_q a @ [new] \<rparr>"

datatype which_pipe = Err_pipe | Chan_pipe

definition pipe_produce :: "which_pipe \<Rightarrow> session_adapter \<Rightarrow> session_adapter" where
  "pipe_produce w a = (case w of
     Err_pipe \<Rightarrow> a\<lparr> m_ready_err := m_ready_err a + 1 \<rparr>
   | Chan_pipe \<Rightarrow> a\<lparr> m_ready_chan := m_ready_chan a + 1 \<rparr>)"

section \<open>What the user's event loop runs\<close>

text \<open>A wait is over once its pipe was reported readable. The error is reported at most once.\<close>

definition on_ev_err :: "session_adapter \<Rightarrow> session_adapter res" where
  "on_ev_err a = (case m_user_err_func a of
     None \<Rightarrow> Inl (Uncaught ''bad_function_call'')
   | Some on_done_func \<Rightarrow> Inr (a\<lparr> m_waits_err := False, m_ready_err := m_ready_err a - 1, m_user_err_func := None,
       m_err_calls := m_err_calls a @ [(on_done_func, m_target_err_code_err a)] \<rparr>))"

text \<open>First the oldest result is taken off the queue and given to the handler; then the byte is read, and
  the loop waits again.\<close>

definition on_ev_channel_open :: "session_adapter \<Rightarrow> session_adapter res" where
  "on_ev_channel_open a = (case m_target_channel_open_q a of
     [] \<Rightarrow> Inl (Assert ''Result-queue elements and pipe signal bytes must be 1-1'')
   | result # q \<Rightarrow> (case m_on_channel_func_or_empty a of
       None \<Rightarrow> Inl (Uncaught ''bad_function_call'')
     | Some f \<Rightarrow> Inr (a\<lparr> m_waits_chan := False, m_target_channel_open_q := q,
         m_channel_calls := m_channel_calls a @ [(f, result)] \<rparr>)))"

definition on_ev_channel_open_rearm :: "session_adapter \<Rightarrow> session_adapter" where
  "on_ev_channel_open_rearm a = a\<lparr> m_ready_chan := m_ready_chan a - 1, m_waits_chan := True \<rparr>"

section \<open>The adapter of the session server\<close>

text \<open>
  \<open>sv_accepts\<close> is the number of accepts issued to the session server; \<open>sv_waits\<close> as above.
\<close>

record session_server_adapter =
  sv_ready :: nat
  sv_ev_wait_hndl :: ev_wait_hndl
  sv_ev_wait_func :: "handler option"
  sv_waits :: bool
  m_on_done_func_or_empty :: "handler option"
  m_target_err_code :: "error_code option"
  sv_accepts :: nat
  sv_done_calls :: "(handler \<times> error_code option) list"

definition Session_server_adapter :: "nat option \<Rightarrow> session_server_adapter res" where
  "Session_server_adapter p = (case p of
     None \<Rightarrow> Inl (Assert ''connect-pipe failed'')
   | Some p \<Rightarrow> Inr \<lparr> sv_ready = 0, sv_ev_wait_hndl = (0, p), sv_ev_wait_func = None, sv_waits = False,
       m_on_done_func_or_empty = None, m_target_err_code = None, sv_accepts = 0, sv_done_calls = [] \<rparr>)"

definition server_adapter_start_ops :: "handler \<Rightarrow> session_server_adapter \<Rightarrow> bool \<times> session_server_adapter" where
  "server_adapter_start_ops ev_wait_func a =
     (if sv_ev_wait_func a \<noteq> None then (False, a) else (True, a\<lparr> sv_ev_wait_func := Some ev_wait_func \<rparr>))"

definition server_adapter_replace_event_wait_handles ::
    "nat \<Rightarrow> session_server_adapter \<Rightarrow> bool \<times> session_server_adapter" where
  "server_adapter_replace_event_wait_handles n a =
     (if sv_ev_wait_func a \<noteq> None then (False, a)
      else (True, a\<lparr> sv_ev_wait_hndl := (n, snd (sv_ev_wait_hndl a)) \<rparr>))"

text \<open>
  Both overloads: the accept is issued to the session server (\<open>sv_accepts\<close> counts it) before
  the event-wait function is called, which throws if there is none. The second component is the state, also
  when the call throws.
\<close>

definition server_adapter_async_accept ::
    "handler \<Rightarrow> session_server_adapter \<Rightarrow> bool res \<times> session_server_adapter" where
  "server_adapter_async_accept on_done_func a =
     (if m_on_done_func_or_empty a \<noteq> None then (Inr False, a)
      else
        let a = a\<lparr> m_on_done_func_or_empty := Some on_done_func, sv_accepts := sv_accepts a + 1 \<rparr> in
        (case sv_ev_wait_func a of
           None \<Rightarrow> (Inl (Uncaught ''bad_function_call''), a)
         | Some f \<Rightarrow> (Inr True, a\<lparr> sv_waits := True \<rparr>)))"

definition accept_write :: "error_code option \<Rightarrow> session_server_adapter \<Rightarrow> session_server_adapter" where
  "accept_write err_code a =
     (if err_code = Some (make_error_code S_OBJECT_SHUTDOWN_ABORTED_COMPLETION_HANDLER) then a
      else a\<lparr> m_target_err_code := err_code, sv_ready := sv_ready a + 1 \<rparr>)"

definition accept_read :: "session_server_adapter \<Rightarrow> session_server_adapter res" where
  "accept_read a = (case m_on_done_func_or_empty a of
     None \<Rightarrow> Inl (Uncaught ''bad_function_call'')
   | Some on_done_func \<Rightarrow> Inr (a\<lparr> sv_waits := False, sv_ready := sv_ready a - 1, m_on_done_func_or_empty := None,
       sv_done_calls := sv_done_calls a @ [(on_done_func, m_target_err_code a)] \<rparr>))"

end
