(* ===== verification/Sync_Io_System.thy ===== *)
theory Sync_Io_System
  imports Sync_Io
begin

text \<open>
  An adapter and the session inside it as one machine, in which the session's thread and the user's
  event loop run interleaved. What the adapter relies on is a locale; that the client
  session and the server session provide it is shown at the end.
\<close>

section \<open>What an adapter relies on\<close>

text \<open>
  The session object inside an adapter, whatever its kind: a machine that reports at most one
  error, and passively opened channels one by one, and nothing before its handlers are set. \<open>initp p\<close>
  is a successful \<^verbatim>\<open>init_handlers()\<close>, with a handler for channels if \<open>p\<close>; \<open>ready\<close> and \<open>hasp\<close> say whether handlers
  are set at all, and the one for channels.
\<close>

inductive core_event :: "('s \<Rightarrow> error_code list) \<Rightarrow> ('s \<Rightarrow> (channel_obj \<times> mdt) list) \<Rightarrow> ('s \<Rightarrow> bool) \<Rightarrow> 's \<Rightarrow> 's \<Rightarrow> bool"
  for errs :: "'s \<Rightarrow> error_code list" and chans :: "'s \<Rightarrow> (channel_obj \<times> mdt) list" and hasp :: "'s \<Rightarrow> bool" where
  quiet: "errs t = errs s \<Longrightarrow> chans t = chans s \<Longrightarrow> core_event errs chans hasp s t"
| error: "errs t = errs s @ [e] \<Longrightarrow> chans t = chans s \<Longrightarrow> core_event errs chans hasp s t"
| channel: "errs t = errs s \<Longrightarrow> chans t = chans s @ [c] \<Longrightarrow> hasp s \<Longrightarrow> core_event errs chans hasp s t"

locale session_core =
  fixes ini :: "'s \<Rightarrow> bool" and stp :: "'s \<Rightarrow> 's \<Rightarrow> bool" and initp :: "bool \<Rightarrow> 's \<Rightarrow> 's \<Rightarrow> bool"
    and good :: "'s \<Rightarrow> bool"
    and ready :: "'s \<Rightarrow> bool" and hasp :: "'s \<Rightarrow> bool"
    and errs :: "'s \<Rightarrow> error_code list" and chans :: "'s \<Rightarrow> (channel_obj \<times> mdt) list"
  assumes core_ini: "ini s \<Longrightarrow> good s \<and> errs s = [] \<and> chans s = []"
    and core_stp: "good s \<Longrightarrow> stp s t \<Longrightarrow> good t \<and> core_event errs chans hasp s t \<and> ready t = ready s \<and> hasp t = hasp s"
    and core_init: "good s \<Longrightarrow> initp p s t \<Longrightarrow> good t \<and> \<not> ready s \<and> ready t \<and> hasp t = p \<and> errs t = errs s \<and> chans t = chans s"
    and one_err: "good s \<Longrightarrow> length (errs s) \<le> 1"
    and not_ready: "good s \<Longrightarrow> \<not> ready s \<Longrightarrow> errs s = [] \<and> chans s = []"

text \<open>
  The adapter and its session. \<open>w_todo\<close> is the byte that the session's thread is about to write; \<open>u_todo\<close>: the
  user's thread has run the handler for a channel and not yet read the byte. In between the
  other thread may run.
\<close>

record 's sio_sys =
  core :: 's
  adapter :: session_adapter
  w_todo :: "which_pipe option"
  u_todo :: bool

inductive sio_step :: "('s \<Rightarrow> 's \<Rightarrow> bool) \<Rightarrow> (bool \<Rightarrow> 's \<Rightarrow> 's \<Rightarrow> bool) \<Rightarrow> ('s \<Rightarrow> error_code list) \<Rightarrow>
    ('s \<Rightarrow> (channel_obj \<times> mdt) list) \<Rightarrow> 's sio_sys \<Rightarrow> 's sio_sys \<Rightarrow> bool"
  for stp :: "'s \<Rightarrow> 's \<Rightarrow> bool" and initp :: "bool \<Rightarrow> 's \<Rightarrow> 's \<Rightarrow> bool" and errs :: "'s \<Rightarrow> error_code list"
  and chans :: "'s \<Rightarrow> (channel_obj \<times> mdt) list" where
  core_quiet:
    "w_todo x = None \<Longrightarrow> stp (core x) t \<Longrightarrow> errs t = errs (core x) \<Longrightarrow> chans t = chans (core x) \<Longrightarrow>
     sio_step stp initp errs chans x (x\<lparr> core := t \<rparr>)"
| core_error:
    "w_todo x = None \<Longrightarrow> stp (core x) t \<Longrightarrow> errs t = errs (core x) @ [e] \<Longrightarrow> on_err_func_sio e (adapter x) = Inr a \<Longrightarrow>
     sio_step stp initp errs chans x (x\<lparr> core := t, adapter := a, w_todo := Some Err_pipe \<rparr>)"
| core_channel:
    "w_todo x = None \<Longrightarrow> stp (core x) t \<Longrightarrow> chans t = chans (core x) @ [c] \<Longrightarrow>
     sio_step stp initp errs chans x (x\<lparr> core := t, adapter := on_channel_func_sio c (adapter x), w_todo := Some Chan_pipe \<rparr>)"
| produce:
    "w_todo x = Some w \<Longrightarrow>
     sio_step stp initp errs chans x (x\<lparr> adapter := pipe_produce w (adapter x), w_todo := None \<rparr>)"
| init_handlers:
    "w_todo x = None \<Longrightarrow> initp True (core x) t \<Longrightarrow> adapter_init_handlers True h f (adapter x) = Inr (True, a) \<Longrightarrow>
     sio_step stp initp errs chans x (x\<lparr> core := t, adapter := a \<rparr>)"
| init_handlers_no_passive:
    "w_todo x = None \<Longrightarrow> initp False (core x) t \<Longrightarrow> adapter_init_handlers_no_passive True h (adapter x) = Inr (True, a) \<Longrightarrow>
     sio_step stp initp errs chans x (x\<lparr> core := t, adapter := a \<rparr>)"
| start_ops: "sio_step stp initp errs chans x (x\<lparr> adapter := snd (adapter_start_ops f (adapter x)) \<rparr>)"
| replace: "sio_step stp initp errs chans x (x\<lparr> adapter := snd (adapter_replace_event_wait_handles n1 n2 (adapter x)) \<rparr>)"
| ev_err:
    "\<not> u_todo x \<Longrightarrow> m_waits_err (adapter x) \<Longrightarrow> m_ready_err (adapter x) > 0 \<Longrightarrow> on_ev_err (adapter x) = Inr a \<Longrightarrow>
     sio_step stp initp errs chans x (x\<lparr> adapter := a \<rparr>)"
| ev_chan:
    "\<not> u_todo x \<Longrightarrow> m_waits_chan (adapter x) \<Longrightarrow> m_ready_chan (adapter x) > 0 \<Longrightarrow> on_ev_channel_open (adapter x) = Inr a \<Longrightarrow>
     sio_step stp initp errs chans x (x\<lparr> adapter := a, u_todo := True \<rparr>)"
| ev_chan_rearm:
    "u_todo x \<Longrightarrow> sio_step stp initp errs chans x (x\<lparr> adapter := on_ev_channel_open_rearm (adapter x), u_todo := False \<rparr>)"

text \<open>Initially the adapter has the handlers that the session was told of.\<close>

definition sio_ini :: "('s \<Rightarrow> bool) \<Rightarrow> ('s \<Rightarrow> bool) \<Rightarrow> ('s \<Rightarrow> bool) \<Rightarrow> 's sio_sys \<Rightarrow> bool" where
  "sio_ini ini ready hasp x \<longleftrightarrow> ini (core x) \<and> w_todo x = None \<and> \<not> u_todo x \<and>
     (\<exists>h f e c. Session_adapter h f (Some e) (Some c) = Inr (adapter x) \<and>
       (h \<noteq> None \<longleftrightarrow> ready (core x)) \<and> (f \<noteq> None \<longleftrightarrow> ready (core x) \<and> hasp (core x)))"

text \<open>
  The user's handlers get exactly what the session reported. What is stored and not yet handed over matches
  the bytes in the pipes.
\<close>

definition sio_inv :: "('s \<Rightarrow> bool) \<Rightarrow> ('s \<Rightarrow> bool) \<Rightarrow> ('s \<Rightarrow> bool) \<Rightarrow> ('s \<Rightarrow> error_code list) \<Rightarrow>
    ('s \<Rightarrow> (channel_obj \<times> mdt) list) \<Rightarrow> 's sio_sys \<Rightarrow> bool" where
  "sio_inv good ready hasp errs chans x \<longleftrightarrow> (let a = adapter x; s = core x in
     good s \<and>
     map snd (m_channel_calls a) @ m_target_channel_open_q a = chans s \<and>
     m_ready_chan a + (if w_todo x = Some Chan_pipe then 1 else 0) =
       length (m_target_channel_open_q a) + (if u_todo x then 1 else 0) \<and>
     (if errs s = [] then m_target_err_code_err a = None else m_target_err_code_err a = Some (last (errs s))) \<and>
     m_ready_err a + length (m_err_calls a) + (if w_todo x = Some Err_pipe then 1 else 0) = length (errs s) \<and>
     (\<forall>c \<in> set (m_err_calls a). snd c = m_target_err_code_err a) \<and>
     (m_user_err_func a \<noteq> None \<longleftrightarrow> ready s \<and> m_err_calls a = []) \<and>
     (m_on_channel_func_or_empty a \<noteq> None \<longleftrightarrow> ready s \<and> hasp s) \<and>
     (m_waits_err a \<longleftrightarrow> m_ev_wait_func a \<noteq> None \<and> m_err_calls a = []) \<and>
     (m_waits_chan a \<longleftrightarrow> m_ev_wait_func a \<noteq> None \<and> \<not> u_todo x) \<and>
     (m_ev_wait_func a = None \<longrightarrow> m_err_calls a = [] \<and> \<not> u_todo x) \<and>
     (u_todo x \<longrightarrow> m_ready_chan a > 0) \<and> (chans s \<noteq> [] \<longrightarrow> hasp s) \<and>
     (\<forall>c \<in> set (m_channel_calls a). m_on_channel_func_or_empty a = Some (fst c)))"

context session_core
begin

lemma sio_inv_init: "sio_ini ini ready hasp x \<Longrightarrow> sio_inv good ready hasp errs chans x"
proof -
  assume x: "sio_ini ini ready hasp x"
  then obtain h f e c where "Session_adapter h f (Some e) (Some c) = Inr (adapter x)"
    and hf: "h \<noteq> None \<longleftrightarrow> ready (core x)" "f \<noteq> None \<longleftrightarrow> ready (core x) \<and> hasp (core x)"
    unfolding sio_ini_def by blast
  then have a: "adapter x = \<lparr> m_ready_err = 0, m_ready_chan = 0, m_ev_wait_hndl_err = (0, e), m_ev_wait_hndl_chan = (0, c),
          m_ev_wait_func = None, m_waits_err = False, m_waits_chan = False,
          m_user_err_func = h, m_on_channel_func_or_empty = f,
          m_target_err_code_err = None, m_target_channel_open_q = [], m_err_calls = [], m_channel_calls = [] \<rparr>"
    by (simp add: Session_adapter_def)
  from x have w: "w_todo x = None" "\<not> u_todo x" and i: "ini (core x)" by (simp_all add: sio_ini_def)
  from core_ini [OF i] w hf show ?thesis by (simp add: sio_inv_def Let_def a)
qed

lemma sio_inv_quiet:
  assumes "sio_inv good ready hasp errs chans x" "w_todo x = None" "stp (core x) t"
    "errs t = errs (core x)" "chans t = chans (core x)"
  shows "sio_inv good ready hasp errs chans (x\<lparr> core := t \<rparr>)"
proof -
  from assms(1) have "good (core x)" by (simp add: sio_inv_def Let_def)
  from core_stp [OF this assms(3)] assms show ?thesis by (simp add: sio_inv_def Let_def)
qed

lemma sio_inv_error:
  assumes i: "sio_inv good ready hasp errs chans x" and w: "w_todo x = None" and t: "stp (core x) t"
    and e: "errs t = errs (core x) @ [e]" and a: "on_err_func_sio e (adapter x) = Inr a"
  shows "sio_inv good ready hasp errs chans (x\<lparr> core := t, adapter := a, w_todo := Some Err_pipe \<rparr>)"
proof -
  from i have g: "good (core x)" by (simp add: sio_inv_def Let_def)
  note c = core_stp [OF g t]
  from c e have ch: "chans t = chans (core x)" by (auto elim: core_event.cases)
  from one_err [of t] c e have none: "errs (core x) = []" by simp
  from a have a': "m_target_err_code_err (adapter x) = None" "a = (adapter x)\<lparr> m_target_err_code_err := Some e \<rparr>"
    by (simp_all add: on_err_func_sio_def)
  from i none have "m_err_calls (adapter x) = []" by (simp add: sio_inv_def Let_def)
  with i c ch none w e show ?thesis by (simp add: sio_inv_def Let_def a'(2))
qed

lemma sio_inv_channel:
  assumes i: "sio_inv good ready hasp errs chans x" and w: "w_todo x = None" and t: "stp (core x) t"
    and ch: "chans t = chans (core x) @ [c]"
  shows "sio_inv good ready hasp errs chans
    (x\<lparr> core := t, adapter := on_channel_func_sio c (adapter x), w_todo := Some Chan_pipe \<rparr>)"
proof -
  from i have g: "good (core x)" by (simp add: sio_inv_def Let_def)
  note c = core_stp [OF g t]
  from c ch have "errs t = errs (core x)" "hasp (core x)" by (auto elim: core_event.cases)
  with i c ch w show ?thesis by (simp add: sio_inv_def Let_def on_channel_func_sio_def flip: append_assoc)
qed

lemma sio_inv_produce:
  assumes "sio_inv good ready hasp errs chans x" "w_todo x = Some w"
  shows "sio_inv good ready hasp errs chans (x\<lparr> adapter := pipe_produce w (adapter x), w_todo := None \<rparr>)"
  using assms by (cases w) (simp_all add: sio_inv_def Let_def pipe_produce_def)

lemma sio_inv_init_handlers:
  assumes i: "sio_inv good ready hasp errs chans x" and t: "initp p (core x) t"
    and h: "h \<noteq> None" "f \<noteq> None \<longleftrightarrow> p" and a: "a = (adapter x)\<lparr> m_user_err_func := h, m_on_channel_func_or_empty := f \<rparr>"
  shows "sio_inv good ready hasp errs chans (x\<lparr> core := t, adapter := a \<rparr>)"
proof -
  from i have g: "good (core x)" by (simp add: sio_inv_def Let_def)
  note c = core_init [OF g t]
  with not_ready [OF g] have n: "errs (core x) = []" "chans (core x) = []" by simp_all
  with i have "m_err_calls (adapter x) = []" by (simp add: sio_inv_def Let_def)
  with i c h n show ?thesis by (simp add: sio_inv_def Let_def a)
qed

lemma sio_inv_start_ops:
  "sio_inv good ready hasp errs chans x \<Longrightarrow>
   sio_inv good ready hasp errs chans (x\<lparr> adapter := snd (adapter_start_ops f (adapter x)) \<rparr>)"
  by (cases "m_ev_wait_func (adapter x)") (auto simp: sio_inv_def Let_def adapter_start_ops_def split: if_splits)

lemma sio_inv_replace:
  "sio_inv good ready hasp errs chans x \<Longrightarrow>
   sio_inv good ready hasp errs chans (x\<lparr> adapter := snd (adapter_replace_event_wait_handles n1 n2 (adapter x)) \<rparr>)"
  by (cases "m_ev_wait_func (adapter x)") (auto simp: sio_inv_def Let_def adapter_replace_event_wait_handles_def split: if_splits)

lemma sio_inv_ev_err:
  assumes i: "sio_inv good ready hasp errs chans x" and p: "m_waits_err (adapter x)" "m_ready_err (adapter x) > 0"
    and a: "on_ev_err (adapter x) = Inr a"
  shows "sio_inv good ready hasp errs chans (x\<lparr> adapter := a \<rparr>)"
proof -
  from a obtain h where h: "m_user_err_func (adapter x) = Some h"
    "a = (adapter x)\<lparr> m_waits_err := False, m_ready_err := m_ready_err (adapter x) - 1, m_user_err_func := None,
       m_err_calls := m_err_calls (adapter x) @ [(h, m_target_err_code_err (adapter x))] \<rparr>"
    by (auto simp: on_ev_err_def split: option.splits)
  from i p have "m_err_calls (adapter x) = []" by (simp add: sio_inv_def Let_def)
  with i p h(1) show ?thesis by (simp add: sio_inv_def Let_def h(2))
qed

lemma sio_inv_ev_chan:
  assumes i: "sio_inv good ready hasp errs chans x" and u: "\<not> u_todo x"
    and a: "on_ev_channel_open (adapter x) = Inr a" and w: "m_waits_chan (adapter x)" "m_ready_chan (adapter x) > 0"
  shows "sio_inv good ready hasp errs chans (x\<lparr> adapter := a, u_todo := True \<rparr>)"
proof -
  from a obtain c q f where q: "m_target_channel_open_q (adapter x) = c # q"
    "m_on_channel_func_or_empty (adapter x) = Some f"
    "a = (adapter x)\<lparr> m_waits_chan := False, m_target_channel_open_q := q,
       m_channel_calls := m_channel_calls (adapter x) @ [(f, c)] \<rparr>"
    by (auto simp: on_ev_channel_open_def split: list.splits option.splits)
  from i u w q(1,2) show ?thesis by (simp add: sio_inv_def Let_def q(3))
qed

lemma sio_inv_rearm:
  assumes i: "sio_inv good ready hasp errs chans x" and u: "u_todo x"
  shows "sio_inv good ready hasp errs chans (x\<lparr> adapter := on_ev_channel_open_rearm (adapter x), u_todo := False \<rparr>)"
proof -
  from i u have "m_ev_wait_func (adapter x) \<noteq> None" "m_ready_chan (adapter x) > 0" by (auto simp: sio_inv_def Let_def)
  with i u show ?thesis by (auto simp: sio_inv_def Let_def on_ev_channel_open_rearm_def split: if_splits)
qed

end

sublocale session_core \<subseteq> sio: invariant_system "sio_ini ini ready hasp" "sio_step stp initp errs chans"
  "sio_inv good ready hasp errs chans"
proof (unfold_locales, goal_cases)
  case (1 x)
  then show ?case by (rule sio_inv_init)
next
  case (2 x y)
  from 2(2) show ?case
  proof cases
    case (core_quiet t)
    show ?thesis unfolding core_quiet(1) by (rule sio_inv_quiet [OF 2(1) core_quiet(2-5)])
  next
    case (core_error t e a)
    show ?thesis unfolding core_error(1) by (rule sio_inv_error [OF 2(1) core_error(2-5)])
  next
    case (core_channel t c)
    show ?thesis unfolding core_channel(1) by (rule sio_inv_channel [OF 2(1) core_channel(2-4)])
  next
    case (produce w)
    show ?thesis unfolding produce(1) by (rule sio_inv_produce [OF 2(1) produce(2)])
  next
    case (init_handlers t h f a)
    from init_handlers(4) have "a = (adapter x)\<lparr> m_user_err_func := Some h, m_on_channel_func_or_empty := Some f \<rparr>"
      by (auto simp: adapter_init_handlers_def split: if_splits)
    from sio_inv_init_handlers [OF 2(1) init_handlers(3) _ _ this] show ?thesis unfolding init_handlers(1) by simp
  next
    case (init_handlers_no_passive t h a)
    from 2(1) have g: "good (core x)" and f: "m_on_channel_func_or_empty (adapter x) \<noteq> None \<longleftrightarrow> ready (core x) \<and> hasp (core x)"
      by (auto simp: sio_inv_def Let_def)
    with core_init [OF g init_handlers_no_passive(3)] have "m_on_channel_func_or_empty (adapter x) = None" by simp
    with init_handlers_no_passive(4) have "a = (adapter x)\<lparr> m_user_err_func := Some h, m_on_channel_func_or_empty := None \<rparr>"
      by (cases "adapter x") (auto simp: adapter_init_handlers_no_passive_def split: if_splits)
    from sio_inv_init_handlers [OF 2(1) init_handlers_no_passive(3) _ _ this] show ?thesis
      unfolding init_handlers_no_passive(1) by simp
  next
    case (start_ops f)
    show ?thesis unfolding start_ops by (rule sio_inv_start_ops [OF 2(1)])
  next
    case (replace n1 n2)
    show ?thesis unfolding replace by (rule sio_inv_replace [OF 2(1)])
  next
    case (ev_err a)
    show ?thesis unfolding ev_err(1) by (rule sio_inv_ev_err [OF 2(1) ev_err(3-5)])
  next
    case (ev_chan a)
    show ?thesis unfolding ev_chan(1) by (rule sio_inv_ev_chan [OF 2(1) ev_chan(2,5,3,4)])
  next
    case ev_chan_rearm
    show ?thesis unfolding ev_chan_rearm(1) by (rule sio_inv_rearm [OF 2(1) ev_chan_rearm(2)])
  qed
qed

context session_core
begin

abbreviation sio_reach :: "'s sio_sys \<Rightarrow> bool" where
  "sio_reach \<equiv> reach (sio_ini ini ready hasp) (sio_step stp initp errs chans)"

lemma adapter_reports:
  assumes "sio_reach x"
  shows "(m_err_calls (adapter x) = [] \<or> (\<exists>h e. m_err_calls (adapter x) = [(h, Some e)] \<and> errs (core x) = [e])) \<and>
    prefix (map snd (m_channel_calls (adapter x))) (chans (core x)) \<and>
    (\<forall>c \<in> set (m_channel_calls (adapter x)). m_on_channel_func_or_empty (adapter x) = Some (fst c))"
proof (intro conjI)
  from assms have i: "sio_inv good ready hasp errs chans x" by (rule sio.reach_inv)
  have "length (errs (core x)) \<le> 1" using i one_err by (simp add: sio_inv_def Let_def)
  show "m_err_calls (adapter x) = [] \<or> (\<exists>h e. m_err_calls (adapter x) = [(h, Some e)] \<and> errs (core x) = [e])"
  proof (cases "m_err_calls (adapter x)")
    case (Cons c cs)
    then have "length (errs (core x)) > 0" "length cs + 1 \<le> length (errs (core x))"
      using i by (auto simp: sio_inv_def Let_def split: if_splits)
    with \<open>length (errs (core x)) \<le> 1\<close> obtain e where e: "errs (core x) = [e]" "cs = []"
      by (cases "errs (core x)") auto
    with i Cons have "snd c = Some e" by (simp add: sio_inv_def Let_def)
    with e Cons show ?thesis by (cases c) simp
  qed simp
  from i have "map snd (m_channel_calls (adapter x)) @ m_target_channel_open_q (adapter x) = chans (core x)"
    by (simp add: sio_inv_def Let_def)
  then show "prefix (map snd (m_channel_calls (adapter x))) (chans (core x))" by (metis prefixI)
  from i show "\<forall>c \<in> set (m_channel_calls (adapter x)). m_on_channel_func_or_empty (adapter x) = Some (fst c)"
    by (simp add: sio_inv_def Let_def)
qed

lemma adapter_never_trips:
  assumes "sio_reach x"
  shows "(stp (core x) t \<and> errs t = errs (core x) @ [e] \<longrightarrow> returns (on_err_func_sio e (adapter x))) \<and>
    (m_waits_err (adapter x) \<and> m_ready_err (adapter x) > 0 \<longrightarrow> returns (on_ev_err (adapter x))) \<and>
    (\<not> u_todo x \<and> m_ready_chan (adapter x) > 0 \<longrightarrow> returns (on_ev_channel_open (adapter x))) \<and>
    (u_todo x \<longrightarrow> m_ready_chan (adapter x) > 0)"
proof (intro conjI impI)
  from assms have i: "sio_inv good ready hasp errs chans x" by (rule sio.reach_inv)
  then have g: "good (core x)" by (simp add: sio_inv_def Let_def)
  show "returns (on_err_func_sio e (adapter x))" if "stp (core x) t \<and> errs t = errs (core x) @ [e]"
  proof -
    from core_stp [OF g] that have "good t" by blast
    from one_err [OF this] that have "errs (core x) = []" by simp
    with i show ?thesis by (simp add: on_err_func_sio_def sio_inv_def Let_def)
  qed
  show "returns (on_ev_err (adapter x))" if "m_waits_err (adapter x) \<and> m_ready_err (adapter x) > 0"
  proof -
    from i that have "errs (core x) \<noteq> []" "m_err_calls (adapter x) = []" by (auto simp: sio_inv_def Let_def)
    moreover from this(1) not_ready [OF g] have "ready (core x)" by blast
    ultimately obtain h where "m_user_err_func (adapter x) = Some h" using i by (auto simp: sio_inv_def Let_def)
    then show ?thesis by (simp add: on_ev_err_def)
  qed
  show "returns (on_ev_channel_open (adapter x))" if "\<not> u_todo x \<and> m_ready_chan (adapter x) > 0"
  proof -
    have "m_ready_chan (adapter x) \<le> length (m_target_channel_open_q (adapter x)) + (if u_todo x then 1 else 0)"
      "map snd (m_channel_calls (adapter x)) @ m_target_channel_open_q (adapter x) = chans (core x)"
      using i unfolding sio_inv_def Let_def by linarith+
    with that have q: "m_target_channel_open_q (adapter x) \<noteq> []" and c: "chans (core x) \<noteq> []" by auto
    from i c have "hasp (core x)" "m_on_channel_func_or_empty (adapter x) \<noteq> None \<longleftrightarrow> ready (core x) \<and> hasp (core x)"
      unfolding sio_inv_def Let_def by blast+
    with c not_ready [OF g] obtain f where "m_on_channel_func_or_empty (adapter x) = Some f" by blast
    with q show ?thesis by (auto simp: on_ev_channel_open_def split: list.splits)
  qed
  show "m_ready_chan (adapter x) > 0" if "u_todo x" using i that by (simp add: sio_inv_def Let_def)
qed

text \<open>What the adapter remembers of \<^verbatim>\<open>init_handlers()\<close>, until it has delivered an error.\<close>

lemma adapter_handlers:
  assumes "sio_reach x"
  shows "(m_err_calls (adapter x) = [] \<longrightarrow> (m_user_err_func (adapter x) \<noteq> None \<longleftrightarrow> ready (core x))) \<and>
    (\<not> ready (core x) \<longrightarrow> m_on_channel_func_or_empty (adapter x) = None) \<and>
    (m_err_calls (adapter x) \<noteq> [] \<longrightarrow> m_user_err_func (adapter x) = None \<and> ready (core x))"
proof -
  from assms have i: "sio_inv good ready hasp errs chans x" by (rule sio.reach_inv)
  then have g: "good (core x)" and e: "m_err_calls (adapter x) \<noteq> [] \<longrightarrow> errs (core x) \<noteq> []"
    by (auto simp: sio_inv_def Let_def)
  from e not_ready [OF g] have "m_err_calls (adapter x) \<noteq> [] \<longrightarrow> ready (core x)" by blast
  with i show ?thesis unfolding sio_inv_def Let_def by blast
qed

text \<open>The events of the user's loop alone hand over all that was reported.\<close>

lemma loop_drains_channels:
  assumes "sio_reach x" "w_todo x = None" "\<not> u_todo x" "m_ev_wait_func (adapter x) \<noteq> None"
  shows "\<exists>y. (sio_step stp initp errs chans)\<^sup>*\<^sup>* x y \<and> core y = core x \<and> w_todo y = None \<and> \<not> u_todo y \<and>
    m_ev_wait_func (adapter y) \<noteq> None \<and> m_ready_err (adapter y) = m_ready_err (adapter x) \<and>
    m_err_calls (adapter y) = m_err_calls (adapter x) \<and> m_target_channel_open_q (adapter y) = []"
  using assms
proof (induction "length (m_target_channel_open_q (adapter x))" arbitrary: x)
  case 0
  then show ?case by (intro exI [of _ x]) simp
next
  case (Suc n)
  then have i: "sio_inv good ready hasp errs chans x" by (intro sio.reach_inv)
  have "m_target_channel_open_q (adapter x) \<noteq> []" using Suc.hyps(2) by auto
  with i have r: "m_ready_chan (adapter x) > 0" "m_waits_chan (adapter x)"
    using Suc.prems by (simp_all add: sio_inv_def Let_def)
  with adapter_never_trips [OF Suc.prems(1)] Suc.prems(3) obtain a where a: "on_ev_channel_open (adapter x) = Inr a"
    by (auto simp: returns_iff)
  let ?y = "x\<lparr> adapter := a, u_todo := True \<rparr>"
  let ?z = "?y\<lparr> adapter := on_ev_channel_open_rearm a, u_todo := False \<rparr>"
  have xy: "sio_step stp initp errs chans x ?y" by (rule sio_step.ev_chan [OF Suc.prems(3) r(2,1) a])
  have yz: "sio_step stp initp errs chans ?y ?z" using sio_step.ev_chan_rearm [of ?y] by simp
  from a have f: "m_target_channel_open_q a = tl (m_target_channel_open_q (adapter x))"
    "m_ev_wait_func a = m_ev_wait_func (adapter x)" "m_ready_err a = m_ready_err (adapter x)"
    "m_err_calls a = m_err_calls (adapter x)"
    by (auto simp: on_ev_channel_open_def split: list.splits option.splits)
  have "n = length (m_target_channel_open_q (adapter ?z))"
    using Suc.hyps(2) f by (simp add: on_ev_channel_open_rearm_def)
  from Suc.hyps(1) [OF this reach_step [OF reach_step [OF Suc.prems(1) xy] yz]] Suc.prems(2,4) f obtain w where
    w: "(sio_step stp initp errs chans)\<^sup>*\<^sup>* ?z w" "core w = core x" "w_todo w = None" "\<not> u_todo w"
      "m_ev_wait_func (adapter w) \<noteq> None" "m_ready_err (adapter w) = m_ready_err (adapter x)"
      "m_err_calls (adapter w) = m_err_calls (adapter x)" "m_target_channel_open_q (adapter w) = []"
    by (auto simp: on_ev_channel_open_rearm_def)
  have "(sio_step stp initp errs chans)\<^sup>*\<^sup>* ?y w" by (rule converse_rtranclp_into_rtranclp [OF yz w(1)])
  from converse_rtranclp_into_rtranclp [of "sio_step stp initp errs chans", OF xy this]
  have "(sio_step stp initp errs chans)\<^sup>*\<^sup>* x w" .
  with w(2-8) show ?case by blast
qed

end

context session_core
begin

lemma loop_delivers:
  assumes "sio_reach x" "w_todo x = None" "\<not> u_todo x" "m_ev_wait_func (adapter x) \<noteq> None"
  shows "\<exists>y. (sio_step stp initp errs chans)\<^sup>*\<^sup>* x y \<and> core y = core x \<and>
    map snd (m_channel_calls (adapter y)) = chans (core x) \<and> map snd (m_err_calls (adapter y)) = map Some (errs (core x))"
proof -
  from loop_drains_channels [OF assms] obtain y where y: "(sio_step stp initp errs chans)\<^sup>*\<^sup>* x y" "core y = core x"
    "w_todo y = None" "\<not> u_todo y" "m_ev_wait_func (adapter y) \<noteq> None" "m_target_channel_open_q (adapter y) = []"
    by blast
  from sio.steps_inv [OF y(1)] sio.reach_inv [OF assms(1)] have i: "sio_inv good ready hasp errs chans y" by blast
  then have c: "map snd (m_channel_calls (adapter y)) = chans (core x)" using y(2,6) by (simp add: sio_inv_def Let_def)
  have "length (errs (core y)) \<le> 1" using i one_err by (simp add: sio_inv_def Let_def)
  then consider "errs (core y) = []" | e where "errs (core y) = [e]" by (cases "errs (core y)") auto
  then show ?thesis
  proof cases
    case 1
    with i have "m_err_calls (adapter y) = []" by (simp add: sio_inv_def Let_def)
    with 1 y c show ?thesis by auto
  next
    case (2 e)
    show ?thesis
    proof (cases "m_err_calls (adapter y)")
      case (Cons d ds)
      with i 2 y(3) have "ds = []" "snd d = Some e" by (simp_all add: sio_inv_def Let_def)
      with Cons 2 y c show ?thesis by (intro exI [of _ y]) simp
    next
      case Nil
      with i 2 y(3,5) have r: "m_ready_err (adapter y) > 0" "m_waits_err (adapter y)"
        "m_target_err_code_err (adapter y) = Some e" by (simp_all add: sio_inv_def Let_def)
      have ry: "sio_reach y" using y(1) assms(1) by (induction rule: rtranclp_induct) (auto intro: reach_step)
      from adapter_never_trips [OF ry] r obtain a where a: "on_ev_err (adapter y) = Inr a" by (auto simp: returns_iff)
      then have f: "map snd (m_err_calls a) = [Some e]" "m_channel_calls a = m_channel_calls (adapter y)"
        using Nil r(3) by (auto simp: on_ev_err_def split: option.splits)
      have "sio_step stp initp errs chans y (y\<lparr> adapter := a \<rparr>)" by (rule sio_step.ev_err [OF y(4) r(2,1) a])
      with y(1) have "(sio_step stp initp errs chans)\<^sup>*\<^sup>* x (y\<lparr> adapter := a \<rparr>)" by simp
      with f c 2 y(2) show ?thesis by (intro exI [of _ "y\<lparr> adapter := a \<rparr>"]) simp
    qed
  qed
qed

end

end
