(* ===== verification/Sync_Io_Cores.thy ===== *)
theory Sync_Io_Cores
  imports Sync_Io_System
begin

text \<open>
  The client session and the server session provide what an adapter relies on: each of their steps reports
  an error, or a channel, or nothing (\<open>client_reports\<close>, \<open>server_reports\<close>). On these two interpretations rest the
  properties of the adapters.
\<close>

section \<open>The client session\<close>

text \<open>What one step of a session reports to its handlers; \<open>calls\<close> logs the channels.\<close>

definition reports :: "('a session_base_scheme \<Rightarrow> (handler \<times> channel_obj \<times> mdt) list) \<Rightarrow>
    'a session_base_scheme \<Rightarrow> 'a session_base_scheme \<Rightarrow> bool" where
  "reports calls s t \<longleftrightarrow> m_on_err_func t = m_on_err_func s \<and>
     session_base.m_on_passive_open_channel_func_or_empty t = session_base.m_on_passive_open_channel_func_or_empty s \<and>
     ((fired t = fired s \<and> calls t = calls s) \<or> (\<exists>c. fired t = fired s @ [c] \<and> calls t = calls s) \<or>
      (fired t = fired s \<and> session_base.m_on_passive_open_channel_func_or_empty s \<noteq> None \<and> (\<exists>c. calls t = calls s @ [c])))"

lemma reports_quiet:
  "m_on_err_func t = m_on_err_func s \<Longrightarrow>
   session_base.m_on_passive_open_channel_func_or_empty t = session_base.m_on_passive_open_channel_func_or_empty s \<Longrightarrow>
   fired t = fired s \<Longrightarrow> calls t = calls s \<Longrightarrow> reports calls s t"
  by (simp add: reports_def)

lemma reports_refl [simp]: "reports calls s s"
  by (simp add: reports_quiet)

lemma reports_trans:
  "m_on_err_func t = m_on_err_func s \<Longrightarrow>
   session_base.m_on_passive_open_channel_func_or_empty t = session_base.m_on_passive_open_channel_func_or_empty s \<Longrightarrow>
   fired t = fired s \<Longrightarrow> calls t = calls s \<Longrightarrow> reports calls t u \<Longrightarrow> reports calls s u"
  by (simp add: reports_def)

lemma reports_event:
  assumes "reports calls (f s) (f t)"
  shows "m_on_err_func (f t) = m_on_err_func (f s) \<and> core_event (\<lambda>x. map snd (fired (f x))) (\<lambda>x. map snd (calls (f x)))
      (\<lambda>x. session_base.m_on_passive_open_channel_func_or_empty (f x) \<noteq> None) s t \<and>
    (session_base.m_on_passive_open_channel_func_or_empty (f t) \<noteq> None) =
      (session_base.m_on_passive_open_channel_func_or_empty (f s) \<noteq> None)"
  using assms unfolding reports_def
proof (elim conjE disjE exE, goal_cases)
  case 1
  then show ?case by (auto intro: core_event.quiet)
next
  case (2 c)
  then show ?case by (auto intro!: core_event.error [where e = "snd c"])
next
  case (3 c)
  then show ?case by (auto intro!: core_event.channel [where c = "snd c"])
qed

lemma hose_reports:
  assumes "hose e s = Inr t" "\<And>u p f. calls (s\<lparr> m_peer_state_err_code_or_ok := p, fired := f \<rparr>) = calls s"
  shows "reports calls s t"
proof -
  from assms(1) obtain h where "t = s\<lparr> m_peer_state_err_code_or_ok := Some e, fired := fired s @ [(h, e)] \<rparr>"
    by (auto simp: hose_Inr)
  then show ?thesis by (simp add: reports_def assms(2))
qed

lemma client_master_error_reports:
  assumes "Client_Session.on_master_channel_error cfg user_hook ob e s = Inr s'"
  shows "reports passive_calls s s'"
proof -
  consider "s' = s" | "m_state s = S_CONNECTING"
      "invoke_conn_on_done_func user_hook (Some e)
         (s\<lparr> Client_Session.m_master_channel := None, c_expect := Expect_nothing, m_state := S_NULL \<rparr>) = Inr s'"
    | h t g where "hosed s = Inr h" "(if \<not> h then hose e s else Inr s) = Inr t"
        "s' = t \<or> s' = t\<lparr> Client_Session.m_graceful_finisher := g \<rparr>"
    using assms unfolding Client_Session.on_master_channel_error_def
    by (auto simp: res_bind_eq_Inr simp del: invoke_user split: if_splits option.splits)
  then show ?thesis
  proof cases
    case 2
    then obtain f where "s' = s\<lparr> Client_Session.m_master_channel := None, c_expect := Expect_nothing, m_state := S_NULL,
        m_conn_on_done_func_or_empty := None, done_calls := done_calls s @ [(f, Some e)] \<rparr>" by auto
    then show ?thesis by (simp add: reports_quiet)
  next
    case (3 h t g)
    from 3(2) have "reports passive_calls s t"
      by (cases h) (simp_all add: hose_reports)
    with 3(3) show ?thesis by (auto simp: reports_def)
  qed simp
qed

lemma client_connect_reports:
  assumes "async_connect L cfg env user_hook mdt outs h s = Inr (b, s')"
  shows "reports passive_calls s s'"
  using async_connect_cases [OF assms] by (elim disjE conjE exE) (simp_all add: reports_quiet)

lemma client_log_in_rsp_reports:
  assumes "on_master_channel_log_in_rsp L cfg user_hook expect_ok m s = Inr s'"
  shows "reports passive_calls s s'"
  using log_in_rsp_cases [OF assms] by (elim disjE conjE exE) (simp_all add: reports_quiet)

lemma client_init_channel_reports:
  assumes "on_master_channel_init_open_channel cfg user_hook env m n chans md s = Inr s'"
  shows "reports passive_calls s s'"
proof -
  from init_open_channel_cases [OF assms] obtain a p ch t where
    t: "t = s\<lparr> Client_Session.m_last_actively_opened_channel_id := a, Client_Session.m_last_passively_opened_channel_id := p,
          c_expect := Expect_init_channels n (chans @ [ch]) md \<rparr>" and
    s': "s' = t \<or> complete_init_channels cfg user_hook env n (chans @ [ch]) md t = Inr s'"
    by (auto simp: Let_def)
  from s' have "reports passive_calls t s'"
  proof
    assume "complete_init_channels cfg user_hook env n (chans @ [ch]) md t = Inr s'"
    from complete_init_channels_cases [OF this] show ?thesis by (elim conjE disjE exE) (simp_all add: reports_quiet)
  qed simp
  then show ?thesis by (rule reports_trans [rotated 4]) (simp_all add: t)
qed

lemma client_respond_reports:
  assumes "Client_Session.respond_passive_open rsp f ch md s = Inr s'"
    "f \<noteq> None \<longrightarrow> session_base.m_on_passive_open_channel_func_or_empty s \<noteq> None"
  shows "reports passive_calls s s'"
proof (cases rsp)
  case (Sent_err e)
  with assms(1) have "hose e s = Inr s'" by (auto simp: Client_Session.respond_passive_open_def)
  then show ?thesis by (rule hose_reports) simp
next
  case Sent_ok
  with assms show ?thesis
    by (cases f; cases ch) (auto simp: Client_Session.respond_passive_open_def Let_def reports_def)
next
  case Refused
  with assms show ?thesis by (auto simp: Client_Session.respond_passive_open_def)
qed

lemma client_open_channel_reports:
  assumes "Client_Session.open_channel cfg env mdt err s = Inr (r, s')"
  shows "reports passive_calls s s'"
  using open_channel_cases [OF assms]
  by (elim disjE conjE exE) (simp_all add: hose_reports reports_quiet)

lemma client_open_channel_req_reports:
  assumes "Client_Session.on_master_channel_open_channel_req cfg env m s = Inr s'"
  shows "reports passive_calls s s'"
proof -
  from assms obtain h where h: "hosed s = Inr h"
    by (auto simp: Client_Session.on_master_channel_open_channel_req_def res_bind_eq_Inr)
  consider "h" | "\<not> h" "on_passive_open_channel_func_or_empty s = None"
    | f where "\<not> h" "on_passive_open_channel_func_or_empty s = Some f" by blast
  then show ?thesis
  proof cases
    case 1
    with assms h show ?thesis by (simp add: Client_Session.on_master_channel_open_channel_req_def)
  next
    case 2
    with assms h have "Client_Session.respond_passive_open (pe_rsp env) None None [] s = Inr s'"
      by (simp add: Client_Session.on_master_channel_open_channel_req_def)
    then show ?thesis by (rule client_respond_reports) simp
  next
    case (3 f)
    with assms h obtain root :: open_channel_to_client_req and t ch where
      c: "create_channel_obj cfg (pe_channel env) (oc_mq_c2s_or_empty root)
          (oc_mq_s2c_or_empty root) (native_handle_or_null m) False s = Inr (t, ch, None)" and
      r: "Client_Session.respond_passive_open (pe_rsp env) (Some f) (Some ch) (oc_mdt root) t = Inr s'"
      by (auto simp: Client_Session.on_master_channel_open_channel_req_def res_bind_eq_Inr)
    from create_channel_obj_Inr [OF c] obtain a p where
      t: "t = s\<lparr> Client_Session.m_last_actively_opened_channel_id := a, Client_Session.m_last_passively_opened_channel_id := p \<rparr>"
      by auto
    from 3(2) have "session_base.m_on_passive_open_channel_func_or_empty s \<noteq> None"
      by (simp add: on_passive_open_channel_func_or_empty_def)
    with client_respond_reports [OF r] have "reports passive_calls t s'" by (simp add: t)
    then show ?thesis by (rule reports_trans [rotated 4]) (simp_all add: t)
  qed
qed

lemma client_reports:
  assumes "client_step L cfg x y"
  shows "reports passive_calls (cs x) (cs y)"
  using assms
  by cases (simp_all add: client_connect_reports client_master_error_reports client_log_in_rsp_reports
      client_init_channel_reports client_open_channel_req_reports client_open_channel_reports)

interpretation client_core: session_core client_ini "client_step L cfg" "\<lambda>p s t. False" client_inv "\<lambda>_. True"
    "\<lambda>x. session_base.m_on_passive_open_channel_func_or_empty (cs x) \<noteq> None"
    "\<lambda>x. map snd (fired (cs x))" "\<lambda>x. map snd (passive_calls (cs x))" for L cfg
proof (unfold_locales, goal_cases)
  case (1 s)
  then show ?case
    by (auto simp: client.ini_inv) (auto simp: client_ini_def Client_session_impl_def Session_base_cli_def session_base.defs)
next
  case (2 s t)
  from client.stp_inv [OF 2] reports_event [where f = cs, OF client_reports [OF 2(2)]] show ?case by simp
next
  case (4 s)
  then show ?case by (cases "m_peer_state_err_code_or_ok (cs s)") (simp_all add: client_inv_def Let_def)
qed simp_all

section \<open>The server session\<close>

lemma server_frame_reports: "res_frame s t \<Longrightarrow> reports s_passive_calls s t"
  by (erule res_frameE) (simp add: reports_quiet)

lemma server_frame_reports_trans: "res_frame s t \<Longrightarrow> reports s_passive_calls t u \<Longrightarrow> reports s_passive_calls s u"
  by (erule res_frameE) (rule reports_trans, simp_all)

lemma server_finish_reports: "finish_log_in e s = Inr t \<Longrightarrow> reports s_passive_calls s t"
  by (auto simp: finish_log_in_Inr reports_quiet)

lemma server_start_reports:
  assumes "accept_log_in_start env s = Inr s'"
  shows "reports s_passive_calls s s'"
proof -
  from assms consider e where "finish_log_in e (s\<lparr> m_master_sock_stm := False \<rparr>) = Inr s'"
    | m q where "s' = s\<lparr> m_master_sock_stm := False, Server_Session.m_master_channel := m, s_expect_log_in := q \<rparr>"
    by (auto simp: accept_log_in_start_def Let_def split: option.splits sum.splits)
  then show ?thesis
  proof cases
    case (1 e)
    from server_finish_reports [OF this] show ?thesis by (rule reports_trans [rotated 4]) simp_all
  qed (simp add: reports_quiet)
qed

lemma server_master_error_reports:
  assumes a: "Server_Session.on_master_channel_error cfg e s = Inr s'"
  shows "reports s_passive_calls s s'"
proof -
  consider "Server_Session.m_master_channel s = None"
    | "Server_Session.m_master_channel s \<noteq> None" "m_log_in_on_done_func s \<noteq> None"
    | "Server_Session.m_master_channel s \<noteq> None" "m_log_in_on_done_func s = None" "\<not> handlers_are_set s"
    | "Server_Session.m_master_channel s \<noteq> None" "m_log_in_on_done_func s = None" "handlers_are_set s" by blast
  then show ?thesis
  proof cases
    case 2
    with a have "finish_log_in (Some e) (s\<lparr> Server_Session.m_master_channel := None, s_expect_log_in := False \<rparr>) = Inr s'"
      by (simp add: Server_Session.on_master_channel_error_def)
    from server_finish_reports [OF this] show ?thesis by (rule reports_trans [rotated 4]) simp_all
  next
    case 4
    with a obtain h t where t: "hosed s = Inr h" "(if \<not> h then hose e s else Inr s) = Inr t"
        "(if S_GRACEFUL_FINISH_REQUIRED cfg then (case Server_Session.m_graceful_finisher t of
            None \<Rightarrow> Inl (Uncaught ''empty optional dereferenced'')
          | Some f \<Rightarrow> Inr (t\<lparr> Server_Session.m_graceful_finisher := Some (on_master_channel_hosed f) \<rparr>))
        else Inr t) = Inr s'"
      by (simp only: Server_Session.on_master_channel_error_def res_bind_eq_Inr simp_thms if_True if_False) blast
    from t(2) have "reports s_passive_calls s t" by (cases h) (simp_all add: hose_reports)
    moreover from t(3) have "s' = t \<or> (\<exists>g. s' = t\<lparr> Server_Session.m_graceful_finisher := g \<rparr>)"
      by (cases "Server_Session.m_graceful_finisher t") (auto split: if_splits)
    ultimately show ?thesis by (auto simp: reports_def)
  next
    case 3
    then obtain c where "Server_Session.m_master_channel s = Some c" by blast
    with a 3 show ?thesis by (auto simp: Server_Session.on_master_channel_error_def reports_quiet)
  qed (use a in \<open>simp add: Server_Session.on_master_channel_error_def\<close>)
qed

lemma server_log_in_req_reports:
  assumes "on_log_in_req L cfg cb creds name rsp env m s = Inr s'"
  shows "reports s_passive_calls s s'"
proof -
  from log_in_req_cases [OF assms] obtain a ns out u where
    u: "res_frame (s\<lparr> s_expect_log_in := False, m_cli_app_ptr := a, m_cli_namespace := ns \<rparr>) u" and
    s': "(\<exists>e h. m_log_in_on_done_func s = Some h \<and> s' = u\<lparr> Server_Session.m_master_channel := None,
        s_done_calls := s_done_calls s @ [(h, Some e)], m_log_in_on_done_func := None \<rparr>) \<or> s' = u \<or>
     (a \<noteq> None \<and> ns \<noteq> [] \<and> (\<exists>h. m_log_in_on_done_func s = Some h \<and> s' = u\<lparr> s_out := out,
        s_done_calls := s_done_calls s @ [(h, None)], m_log_in_on_done_func := None \<rparr>))" by blast
  from s' have "reports s_passive_calls u s'" by (elim disjE conjE exE) (simp_all add: reports_quiet)
  from server_frame_reports_trans [OF u this] show ?thesis by (rule reports_trans [rotated 4]) simp_all
qed

lemma server_cached_error_reports:
  assumes "emit_cached_error s = Inr s'"
  shows "reports s_passive_calls s s'"
proof -
  let ?t = "s\<lparr> s_hose_posted := False \<rparr>"
  from assms obtain h where h: "hosed ?t = Inr h"
    by (cases "hosed ?t") (simp_all add: emit_cached_error_def)
  have "reports s_passive_calls ?t s'"
  proof (cases h)
    case True
    with assms h show ?thesis by (simp add: emit_cached_error_def)
  next
    case False
    with assms h obtain e where "hose e ?t = Inr s'"
      by (cases "m_pre_init_err_code s") (simp_all add: emit_cached_error_def)
    then show ?thesis by (rule hose_reports) simp
  qed
  then show ?thesis by (rule reports_trans [rotated 4]) simp_all
qed

lemma server_respond_reports:
  assumes "Server_Session.respond_passive_open rsp result r f md s = Inr s'"
    "result = ACCEPTED \<longrightarrow> session_base.m_on_passive_open_channel_func_or_empty s \<noteq> None"
  shows "reports s_passive_calls s s'"
proof (cases rsp)
  case (Sent_err e)
  with assms(1) have "hose e s = Inr s'" by (simp add: Server_Session.respond_passive_open_def)
  then show ?thesis by (rule hose_reports) simp
next
  case Sent_ok
  show ?thesis
  proof (cases "result = ACCEPTED")
    case True
    with Sent_ok assms show ?thesis
      by (cases f) (auto simp: Server_Session.respond_passive_open_def Let_def reports_def)
  next
    case False
    with Sent_ok assms(1) show ?thesis
      by (auto simp: Server_Session.respond_passive_open_def Let_def reports_quiet)
  qed
next
  case Refused
  with assms show ?thesis by (simp add: Server_Session.respond_passive_open_def)
qed

lemma server_open_channel_req_reports:
  assumes "Server_Session.on_master_channel_open_channel_req L cfg env m s = Inr s'"
  shows "reports s_passive_calls s s'"
proof -
  show ?thesis
  proof (cases "m_peer_state_err_code_or_ok s = None")
    case True
    obtain f where f: "on_passive_open_channel_func_or_empty s = f" by blast
    from True assms obtain t r res md where 2: "decide_passive_open L cfg (sp_resources env) f s = Inr (t, r, res)"
      "Server_Session.respond_passive_open (sp_rsp env) res r f md t = Inr s'"
      by (auto simp: Server_Session.on_master_channel_open_channel_req_def f res_bind_eq_Inr Let_def split: if_splits)
    note fr = decide_passive_open_frame [OF 2(1)]
    then have h: "session_base.m_on_passive_open_channel_func_or_empty t = session_base.m_on_passive_open_channel_func_or_empty s"
      by (auto elim: res_frameE)
    have "res = ACCEPTED \<longrightarrow> session_base.m_on_passive_open_channel_func_or_empty t \<noteq> None"
    proof (cases f)
      case None
      with 2(1) show ?thesis by (simp add: decide_passive_open_def)
    next
      case (Some g)
      with f show ?thesis by (simp add: h on_passive_open_channel_func_or_empty_def)
    qed
    from server_frame_reports_trans [OF fr server_respond_reports [OF 2(2) this]] show ?thesis .
  next
    case False
    with assms show ?thesis by (auto simp: Server_Session.on_master_channel_open_channel_req_def res_bind_eq_Inr)
  qed
qed

lemma server_open_channel_reports:
  assumes "Server_Session.open_channel env mdt err s = Inr (r, s')"
  shows "reports s_passive_calls s s'"
  using srv_open_channel_cases [OF assms] by (elim disjE conjE exE) (simp_all add: hose_reports reports_quiet)

lemma server_init_handlers_cases:
  assumes "init_handlers_impl cfg ok (Some h) p s = Inr (b, s')"
  shows "(handlers_are_set s \<and> s' = s) \<or> (\<not> handlers_are_set s \<and> handlers_are_set s' \<and> fired s' = fired s \<and>
    s_passive_calls s' = s_passive_calls s)"
  using assms
  by (cases "handlers_are_set s") (auto simp: init_handlers_impl_def set_on_err_func_def set_on_passive_open_channel_func_def
      res_bind_eq_Inr Let_def handlers_are_set_def on_err_func_set_def split: if_splits)

lemma server_reports:
  assumes "server_step L cfg x y"
  shows "reports s_passive_calls (ss x) (ss y) \<or> (\<not> handlers_are_set (ss x) \<and> handlers_are_set (ss y) \<and>
    fired (ss y) = fired (ss x) \<and> s_passive_calls (ss y) = s_passive_calls (ss x))"
  using assms
proof cases
  case (init_handlers st' expect_ok h p b s')
  from server_init_handlers_cases [OF init_handlers(4)] show ?thesis by (auto simp: init_handlers(1))
next
  case (mdt_builder renv mdt s')
  from server_frame_reports [OF mdt_builder_frame [OF mdt_builder(3)]] show ?thesis by (simp add: mdt_builder(1))
qed (simp_all add: server_start_reports server_master_error_reports server_log_in_req_reports server_cached_error_reports
      server_open_channel_req_reports server_open_channel_reports)

text \<open>All steps of a server session but a successful \<^verbatim>\<open>init_handlers()\<close>, and that one.\<close>

definition server_stp :: "session_lib \<Rightarrow> session_cfg \<Rightarrow> server_sys \<Rightarrow> server_sys \<Rightarrow> bool" where
  "server_stp L cfg x y \<longleftrightarrow> server_step L cfg x y \<and> handlers_are_set (ss y) = handlers_are_set (ss x)"

definition server_initp :: "session_lib \<Rightarrow> session_cfg \<Rightarrow> bool \<Rightarrow> server_sys \<Rightarrow> server_sys \<Rightarrow> bool" where
  "server_initp L cfg p x y \<longleftrightarrow> server_step L cfg x y \<and> \<not> handlers_are_set (ss x) \<and> handlers_are_set (ss y) \<and>
     p = (session_base.m_on_passive_open_channel_func_or_empty (ss y) \<noteq> None)"

interpretation server_core: session_core server_ini "server_stp L cfg" "server_initp L cfg" server_inv
    "\<lambda>x. handlers_are_set (ss x)"
    "\<lambda>x. session_base.m_on_passive_open_channel_func_or_empty (ss x) \<noteq> None"
    "\<lambda>x. map snd (fired (ss x))" "\<lambda>x. map snd (s_passive_calls (ss x))" for L cfg
proof (unfold_locales, goal_cases)
  case (1 s)
  then show ?case
    by (auto simp: server.ini_inv) (auto simp: server_ini_def async_accept_log_in_def Server_session_impl_def
        Session_base_srv_def session_base.defs)
next
  case (2 s t)
  then have st: "server_step L cfg s t" and h: "handlers_are_set (ss t) = handlers_are_set (ss s)" by (simp_all add: server_stp_def)
  from server_reports [OF st] h have r: "reports s_passive_calls (ss s) (ss t)" by blast
  from server.stp_inv [OF 2(1) st] reports_event [where f = ss, OF r] h show ?case by simp
next
  case (3 s p t)
  then have st: "server_step L cfg s t" by (simp add: server_initp_def)
  from 3 server_reports [OF st] have "fired (ss t) = fired (ss s) \<and> s_passive_calls (ss t) = s_passive_calls (ss s)"
    by (auto simp: server_initp_def reports_def handlers_are_set_def on_err_func_set_def)
  with server.stp_inv [OF 3(1) st] 3(2) show ?case by (auto simp: server_initp_def)
next
  case (4 s)
  then show ?case by (cases "m_peer_state_err_code_or_ok (ss s)") (simp_all add: server_inv_def Let_def)
next
  case (5 s)
  then have "m_peer_state_err_code_or_ok (ss s) = None" "s_passive_calls (ss s) = []" by (simp_all add: server_inv_def Let_def)
  with 5(1) show ?case by (simp add: server_inv_def Let_def)
qed

end
