(* ===== verification/Sync_Io_Properties.thy ===== *)
theory Sync_Io_Properties
  imports Sync_Io_Cores
begin

text \<open>
  The properties of the adapters of client and server sessions, from the contract \<open>session_core\<close> and its two
  interpretations, with runs of the adapters around the demonstration sessions as witnesses.
\<close>

context session_core
begin

text \<open>What the adapter and its loop guarantee, in one statement.\<close>

lemma adapter_delivers:
  assumes "sio_reach x"
  shows "(m_err_calls (adapter x) = [] \<or> (\<exists>h e. m_err_calls (adapter x) = [(h, Some e)] \<and> errs (core x) = [e])) \<and>
    prefix (map snd (m_channel_calls (adapter x))) (chans (core x)) \<and>
    (\<forall>c \<in> set (m_channel_calls (adapter x)). m_on_channel_func_or_empty (adapter x) = Some (fst c)) \<and>
    (w_todo x = None \<and> \<not> u_todo x \<and> m_ev_wait_func (adapter x) \<noteq> None \<longrightarrow>
      (\<exists>y. (sio_step stp initp errs chans)\<^sup>*\<^sup>* x y \<and> core y = core x \<and>
        map snd (m_channel_calls (adapter y)) = chans (core x) \<and> map snd (m_err_calls (adapter y)) = map Some (errs (core x))))"
  using adapter_reports [OF assms] loop_delivers [OF assms] by blast

text \<open>A run of the session alone, in which it reports nothing, is one inside an adapter.\<close>

lemma run_in_adapter:
  assumes "reach ini (\<lambda>s t. stp s t \<or> (\<exists>p. initp p s t)) s"
  shows "good s \<and> (errs s = [] \<and> chans s = [] \<longrightarrow>
    (\<exists>x. sio_reach x \<and> core x = s \<and> w_todo x = None \<and> \<not> u_todo x))"
  using assms
proof induction
  case (reach_init s)
  obtain h f where hf: "(h :: handler option) \<noteq> None \<longleftrightarrow> ready s" "(f :: handler option) \<noteq> None \<longleftrightarrow> ready s \<and> hasp s"
    by (metis option.distinct(1))
  obtain a where a: "Session_adapter h f (Some 0) (Some 1) = Inr a" by (simp add: Session_adapter_def)
  have "sio_ini ini ready hasp \<lparr> core = s, adapter = a, w_todo = None, u_todo = False \<rparr>"
    unfolding sio_ini_def sio_sys.select_convs
    by (intro conjI exI [of _ h] exI [of _ f] exI [of _ 0] exI [of _ 1]) (use a hf reach_init in simp_all)
  then have "sio_reach \<lparr> core = s, adapter = a, w_todo = None, u_todo = False \<rparr>" by (rule reach.reach_init)
  moreover from core_ini [OF reach_init] have "good s" by simp
  ultimately show ?case by (metis sio_sys.select_convs)
next
  case (reach_step s t)
  then have g: "good s" by simp
  from reach_step(2) show ?case
  proof (elim disjE exE)
    assume st: "stp s t"
    note c = core_stp [OF g st]
    have "\<exists>x. sio_reach x \<and> core x = t \<and> w_todo x = None \<and> \<not> u_todo x" if n: "errs t = []" "chans t = []"
    proof -
      from c n have e: "errs s = []" "chans s = []" by (auto elim: core_event.cases)
      with reach_step.IH obtain x where x: "sio_reach x" "core x = s" "w_todo x = None" "\<not> u_todo x" by blast
      from sio_step.core_quiet [OF x(3), of stp t errs chans initp] x(2) st e n
      have "sio_step stp initp errs chans x (x\<lparr> core := t \<rparr>)" by simp
      from reach.reach_step [OF x(1) this] x(3,4) show ?thesis by (intro exI [of _ "x\<lparr> core := t \<rparr>"]) simp
    qed
    with c show ?case by blast
  next
    fix p assume st: "initp p s t"
    note c = core_init [OF g st]
    have "\<exists>x. sio_reach x \<and> core x = t \<and> w_todo x = None \<and> \<not> u_todo x" if n: "errs t = []" "chans t = []"
    proof -
      from c n have e: "errs s = []" "chans s = []" by auto
      with reach_step.IH obtain x where x: "sio_reach x" "core x = s" "w_todo x = None" "\<not> u_todo x" by blast
      from sio.reach_inv [OF x(1)] x(2) c have u: "m_user_err_func (adapter x) = None"
        "m_on_channel_func_or_empty (adapter x) = None" by (auto simp: sio_inv_def Let_def)
      let ?a = "(adapter x)\<lparr> m_user_err_func := Some 0, m_on_channel_func_or_empty := if p then Some 0 else None \<rparr>"
      have "sio_step stp initp errs chans x (x\<lparr> core := t, adapter := ?a \<rparr>)"
      proof (cases p)
        case True
        with u st x(2) show ?thesis
          by (auto intro!: sio_step.init_handlers [OF x(3)] simp: adapter_init_handlers_def)
      next
        case False
        have "(adapter x)\<lparr> m_user_err_func := Some 0, m_on_channel_func_or_empty := None \<rparr> = (adapter x)\<lparr> m_user_err_func := Some 0 \<rparr>"
          using u(2) by (cases "adapter x") simp
        then have "adapter_init_handlers_no_passive True 0 (adapter x) = Inr (True, ?a)"
          using False u by (simp add: adapter_init_handlers_no_passive_def)
        with False st x(2) show ?thesis
          by (intro sio_step.init_handlers_no_passive [OF x(3)]) simp_all
      qed
      from reach.reach_step [OF x(1) this] x(3,4) show ?thesis by (intro exI [of _ "x\<lparr> core := t, adapter := ?a \<rparr>"]) simp
    qed
    with c show ?case by blast
  qed
qed

text \<open>Such a run, then the loop is started and an error is reported: the user's handler gets it.\<close>

lemma error_run:
  assumes "reach ini (\<lambda>s t. stp s t \<or> (\<exists>p. initp p s t)) s" "errs s = []" "chans s = []"
    and t: "stp s t" "errs t = [e]"
  shows "\<exists>x. sio_reach x \<and> core x = t \<and> w_todo x = None \<and> \<not> u_todo x \<and> m_ev_wait_func (adapter x) \<noteq> None \<and>
    m_waits_err (adapter x) \<and> m_ready_err (adapter x) > 0"
proof -
  from run_in_adapter [OF assms(1)] assms(2,3) obtain x where
    x: "sio_reach x" "core x = s" "w_todo x = None" "\<not> u_todo x" by blast
  let ?x = "x\<lparr> adapter := snd (adapter_start_ops 0 (adapter x)) \<rparr>"
  have s: "sio_reach ?x" by (rule reach_step [OF x(1) sio_step.start_ops])
  have ev: "m_ev_wait_func (adapter ?x) \<noteq> None" by (simp add: adapter_start_ops_def)
  have st: "stp (core ?x) t" "errs t = errs (core ?x) @ [e]" using x(2) t assms(2) by simp_all
  from adapter_never_trips [OF s, of t e] st obtain a where a: "on_err_func_sio e (adapter ?x) = Inr a"
    unfolding returns_iff by blast
  let ?y = "?x\<lparr> core := t, adapter := a, w_todo := Some Err_pipe \<rparr>"
  have w: "w_todo ?x = None" by (simp add: x(3))
  have "sio_step stp initp errs chans ?x ?y" by (rule sio_step.core_error) (fact w, fact st(1), fact st(2), fact a)
  from reach_step [OF s this] have y: "sio_reach ?y" .
  have "sio_reach (?y\<lparr> adapter := pipe_produce Err_pipe (adapter ?y), w_todo := None \<rparr>)"
    by (rule reach_step [OF y sio_step.produce]) simp
  moreover from a have "m_ev_wait_func a = m_ev_wait_func (adapter ?x)" "m_waits_err a = m_waits_err (adapter ?x)"
    by (auto simp: on_err_func_sio_def)
  moreover have "m_waits_err (adapter ?x)"
    using sio.reach_inv [OF s] x(2) assms(2) ev by (simp add: sio_inv_def Let_def)
  ultimately show ?thesis using x(4) ev
    by (intro exI [of _ "?y\<lparr> adapter := pipe_produce Err_pipe (adapter ?y), w_todo := None \<rparr>"]) (simp add: pipe_produce_def)
qed

end

section \<open>The adapters of both kinds of session\<close>

abbreviation client_errs :: "client_sys \<Rightarrow> error_code list" where
  "client_errs \<equiv> \<lambda>x. map snd (fired (cs x))"

abbreviation client_chans :: "client_sys \<Rightarrow> (channel_obj \<times> mdt) list" where
  "client_chans \<equiv> \<lambda>x. map snd (passive_calls (cs x))"

abbreviation client_sio_step :: "session_lib \<Rightarrow> session_cfg \<Rightarrow> client_sys sio_sys \<Rightarrow> client_sys sio_sys \<Rightarrow> bool" where
  "client_sio_step L cfg \<equiv> sio_step (client_step L cfg) (\<lambda>p s t. False) client_errs client_chans"

abbreviation client_sio_reach :: "session_lib \<Rightarrow> session_cfg \<Rightarrow> client_sys sio_sys \<Rightarrow> bool" where
  "client_sio_reach L cfg \<equiv> reach (sio_ini client_ini (\<lambda>_. True)
     (\<lambda>x. session_base.m_on_passive_open_channel_func_or_empty (cs x) \<noteq> None)) (client_sio_step L cfg)"

text \<open>
  C13. The adapter of a client session loses, invents and reorders nothing. At any time
  the user's on-error handler has run only if the session emitted an error, then
  once and with that error; and the passively opened channels given to the user's handler are
  the first of those the session opened, in order. Once the loop has been
  started, and between two handlers, the events of the loop alone lead to a state in which all the channels and the
  error the session emitted so far have been handed over.
\<close>

theorem client_adapter_delivers:
  assumes "client_sio_reach L cfg x"
  shows "(m_err_calls (adapter x) = [] \<or> (\<exists>h e. m_err_calls (adapter x) = [(h, Some e)] \<and> client_errs (core x) = [e])) \<and>
    prefix (map snd (m_channel_calls (adapter x))) (client_chans (core x)) \<and>
    (\<forall>c \<in> set (m_channel_calls (adapter x)). m_on_channel_func_or_empty (adapter x) = Some (fst c)) \<and>
    (w_todo x = None \<and> \<not> u_todo x \<and> m_ev_wait_func (adapter x) \<noteq> None \<longrightarrow>
      (\<exists>y. (client_sio_step L cfg)\<^sup>*\<^sup>* x y \<and> core y = core x \<and> map snd (m_channel_calls (adapter y)) = client_chans (core x) \<and>
        map snd (m_err_calls (adapter y)) = map Some (client_errs (core x))))"
  using assms by (rule client_core.adapter_delivers)

abbreviation server_errs :: "server_sys \<Rightarrow> error_code list" where
  "server_errs \<equiv> \<lambda>x. map snd (fired (ss x))"

abbreviation server_chans :: "server_sys \<Rightarrow> (channel_obj \<times> mdt) list" where
  "server_chans \<equiv> \<lambda>x. map snd (s_passive_calls (ss x))"

abbreviation server_sio_step :: "session_lib \<Rightarrow> session_cfg \<Rightarrow> server_sys sio_sys \<Rightarrow> server_sys sio_sys \<Rightarrow> bool" where
  "server_sio_step L cfg \<equiv> sio_step (server_stp L cfg) (server_initp L cfg) server_errs server_chans"

abbreviation server_sio_reach :: "session_lib \<Rightarrow> session_cfg \<Rightarrow> server_sys sio_sys \<Rightarrow> bool" where
  "server_sio_reach L cfg \<equiv> reach (sio_ini server_ini (\<lambda>x. handlers_are_set (ss x))
     (\<lambda>x. session_base.m_on_passive_open_channel_func_or_empty (ss x) \<noteq> None)) (server_sio_step L cfg)"

text \<open>The adapter's \<^verbatim>\<open>init_handlers()\<close>, given what the one of the session inside it answers.\<close>

lemma server_init_answer:
  assumes "Server_Session.init_handlers cfg ok h f s = Inr (b, s') \<or>
    Server_Session.init_handlers_no_passive cfg ok h s = Inr (b, s')"
  shows "b \<longleftrightarrow> \<not> handlers_are_set s"
  using assms
  by (auto simp: Server_Session.init_handlers_def Server_Session.init_handlers_no_passive_def init_handlers_impl_def
      set_on_err_func_def set_on_passive_open_channel_func_def Let_def
      res_bind_eq_Inr split: if_splits)


text \<open>
  What the adapter of a client session guarantees holds for the one of a server session, too.\<close>

theorem server_adapter_delivers:
  assumes "server_sio_reach L cfg x"
  shows "(m_err_calls (adapter x) = [] \<or> (\<exists>h e. m_err_calls (adapter x) = [(h, Some e)] \<and> server_errs (core x) = [e])) \<and>
    prefix (map snd (m_channel_calls (adapter x))) (server_chans (core x)) \<and>
    (\<forall>c \<in> set (m_channel_calls (adapter x)). m_on_channel_func_or_empty (adapter x) = Some (fst c)) \<and>
    (w_todo x = None \<and> \<not> u_todo x \<and> m_ev_wait_func (adapter x) \<noteq> None \<longrightarrow>
      (\<exists>y. (server_sio_step L cfg)\<^sup>*\<^sup>* x y \<and> core y = core x \<and> map snd (m_channel_calls (adapter y)) = server_chans (core x) \<and>
        map snd (m_err_calls (adapter y)) = map Some (server_errs (core x))))"
  using assms by (rule server_core.adapter_delivers)

section \<open>Calls out of turn\<close>

text \<open>
  Once the error was delivered the adapter has forgotten that handlers were set: a second
  \<^verbatim>\<open>init_handlers()\<close>, which should return false, passes the guard, and trips the assertion on
  the handler for channels, or, without such a handler, the one on the result of the session's own \<^verbatim>\<open>init_handlers()\<close>.
\<close>

theorem adapter_init_after_error_trips:
  assumes "on_ev_err a = Inr b"
  shows "(m_on_channel_func_or_empty a \<noteq> None \<longrightarrow>
      adapter_init_handlers False h f b = Inl (Assert ''m_on_channel_func_or_empty.empty()'')) \<and>
    (m_on_channel_func_or_empty a = None \<longrightarrow>
      adapter_init_handlers False h f b = Inl (Assert ''We should have caught this with the above guard.'')) \<and>
    adapter_init_handlers_no_passive False h b = Inl (Assert ''We should have caught this with the above guard.'') \<and>
    adapter_init_handlers False h f a = Inr (False, a)"
  using assms by (auto simp: on_ev_err_def adapter_init_handlers_def adapter_init_handlers_no_passive_def split: option.splits)

section \<open>Witnesses\<close>

lemma demo_client_error_run:
  "\<exists>x. client_sio_reach demo_session_lib demo_cfg x \<and> client_errs (core x) = [System_err 5] \<and> client_chans (core x) = [] \<and>
     w_todo x = None \<and> \<not> u_todo x \<and> m_ev_wait_func (adapter x) \<noteq> None"
proof -
  let ?x = "demo_x demo_c2 (Ch_err_pending (System_err 5)) 1"
  let ?s = "demo_c2\<lparr> m_peer_state_err_code_or_ok := Some (System_err 5), fired := [(7, System_err 5)] \<rparr>"
  have "Client_Session.on_master_channel_error demo_cfg user_hook (Client_Session.m_master_channel demo_c2) (System_err 5) demo_c2 = Inr ?s"
    by (simp add: Client_Session.on_master_channel_error_def hose_set)
  then have t: "client_step demo_session_lib demo_cfg ?x (demo_x ?s Ch_err_emitted 1)"
    using client_step.error [of ?x "System_err 5" demo_cfg ?s demo_session_lib] by (simp add: demo_x_def)
  have "reach client_ini (\<lambda>s t. client_step demo_session_lib demo_cfg s t \<or> (\<exists>p. False)) ?x"
    using demo_reach_c2_failing by simp
  from client_core.error_run [OF this _ _ t, of "System_err 5"] obtain x where
    x: "client_sio_reach demo_session_lib demo_cfg x" "core x = demo_x ?s Ch_err_emitted 1"
    "w_todo x = None" "\<not> u_todo x" "m_ev_wait_func (adapter x) \<noteq> None" by auto
  show ?thesis by (rule exI [of _ x]) (use x in \<open>simp del: not_None_eq\<close>)
qed

theorem client_adapter_delivers_witness:
  "\<exists>x y. client_errs (core x) = [System_err 5] \<and> (client_sio_step demo_session_lib demo_cfg)\<^sup>*\<^sup>* x y \<and>
     map snd (m_err_calls (adapter y)) = [Some (System_err 5)]"
proof -
  obtain x where x: "client_sio_reach demo_session_lib demo_cfg x"
    "client_errs (core x) = [System_err 5]" "w_todo x = None" "\<not> u_todo x" "m_ev_wait_func (adapter x) \<noteq> None"
    using demo_client_error_run by (elim exE conjE)
  obtain y where y: "(client_sio_step demo_session_lib demo_cfg)\<^sup>*\<^sup>* x y"
    "map snd (m_err_calls (adapter y)) = map Some (client_errs (core x))"
    using client_adapter_delivers [OF x(1), THEN conjunct2, THEN conjunct2, THEN conjunct2, rule_format,
        OF conjI [OF x(3) conjI [OF x(4,5)]]] by (elim exE conjE)
  from y(2) have "map snd (m_err_calls (adapter y)) = [Some (System_err 5)]" by (simp only: x(2) list.map)
  with x(2) y(1) show ?thesis by (intro exI conjI)
qed

text \<open>A server session whose channel failed before \<^verbatim>\<open>init_handlers()\<close>, up to the task that emits the cached error.\<close>

lemma demo_server_error_run:
  "\<exists>x. server_sio_reach demo_session_lib demo_srv_cfg x \<and> server_errs (core x) = [Transport_err (T_OTHER 1)] \<and>
     server_chans (core x) = [] \<and> w_todo x = None \<and> \<not> u_todo x \<and> m_ev_wait_func (adapter x) \<noteq> None \<and>
     m_waits_err (adapter x) \<and> m_ready_err (adapter x) > 0"
proof -
  let ?e = "Transport_err (T_OTHER 1)"
  let ?x = "demo_sx demo_s4 Ch_err_emitted True"
  let ?s = "demo_s4\<lparr> s_hose_posted := False, m_peer_state_err_code_or_ok := Some ?e, fired := [(7, ?e)] \<rparr>"
  have c4: "fired demo_s4 = []" "s_passive_calls demo_s4 = []" "m_on_passive_open_channel_func_or_empty demo_s4 = Some 8"
    by (simp_all add: demo_s4_def demo_s2_def checked_def demo_s1_def demo_s0_def async_accept_log_in_def
        Server_session_impl_def session_base.defs Session_base_srv_def)
  have "emit_cached_error demo_s4 = Inr ?s"
    by (simp add: emit_cached_error_def demo_s4_def hose_set)
  then have t: "server_stp demo_session_lib demo_srv_cfg ?x (demo_sx ?s Ch_err_emitted True)"
    using server_step.cached_error [of ?x ?s demo_session_lib demo_srv_cfg]
    by (simp add: server_stp_def demo_s4_def handlers_are_set_def on_err_func_set_def)
  have "reach server_ini (\<lambda>s t. server_stp demo_session_lib demo_srv_cfg s t \<or>
      (\<exists>p. server_initp demo_session_lib demo_srv_cfg p s t)) x" if "demo_srv_reach x" for x
    using that
  proof induction
    case (reach_step s t)
    have "\<not> (handlers_are_set (ss s) \<and> \<not> handlers_are_set (ss t))"
      using server_reports [OF reach_step(2)] by (auto simp: reports_def handlers_are_set_def on_err_func_set_def)
    with reach_step(2) have "server_stp demo_session_lib demo_srv_cfg s t \<or> (\<exists>p. server_initp demo_session_lib demo_srv_cfg p s t)"
      by (auto simp: server_stp_def server_initp_def)
    with reach_step.IH show ?case by (rule reach.reach_step)
  qed (rule reach.reach_init)
  from server_core.error_run [OF this [OF demo_srv_reach4] _ _ t, of ?e] obtain x where
    x: "server_sio_reach demo_session_lib demo_srv_cfg x" "core x = demo_sx ?s Ch_err_emitted True"
    "w_todo x = None" "\<not> u_todo x" "m_ev_wait_func (adapter x) \<noteq> None"
    "m_waits_err (adapter x)" "m_ready_err (adapter x) > 0" by (auto simp: c4)
  show ?thesis by (rule exI [of _ x]) (use x in \<open>simp add: c4 del: not_None_eq\<close>)
qed

theorem server_adapter_delivers_witness:
  "\<exists>x y. server_errs (core x) = [Transport_err (T_OTHER 1)] \<and> (server_sio_step demo_session_lib demo_srv_cfg)\<^sup>*\<^sup>* x y \<and>
     map snd (m_err_calls (adapter y)) = [Some (Transport_err (T_OTHER 1))]"
proof -
  obtain x where x: "server_sio_reach demo_session_lib demo_srv_cfg x"
    "server_errs (core x) = [Transport_err (T_OTHER 1)]" "w_todo x = None" "\<not> u_todo x" "m_ev_wait_func (adapter x) \<noteq> None"
    using demo_server_error_run by (elim exE conjE)
  obtain y where y: "(server_sio_step demo_session_lib demo_srv_cfg)\<^sup>*\<^sup>* x y"
    "map snd (m_err_calls (adapter y)) = map Some (server_errs (core x))"
    using server_adapter_delivers [OF x(1), THEN conjunct2, THEN conjunct2, THEN conjunct2, rule_format,
        OF conjI [OF x(3) conjI [OF x(4,5)]]] by (elim exE conjE)
  from y(2) have "map snd (m_err_calls (adapter y)) = [Some (Transport_err (T_OTHER 1))]" by (simp only: x(2) list.map)
  with x(2) y(1) show ?thesis by (intro exI conjI)
qed


theorem adapter_init_after_error_trips_witness:
  "\<exists>a b. res_bind (Session_adapter (Some 7) (Some 8) (Some 0) (Some 1)) (on_err_func_sio (System_err 5)) = Inr a \<and>
     on_ev_err a = Inr b \<and> adapter_init_handlers False 1 2 b = Inl (Assert ''m_on_channel_func_or_empty.empty()'')"
proof -
  obtain a where a: "res_bind (Session_adapter (Some 7) (Some 8) (Some 0) (Some 1)) (on_err_func_sio (System_err 5)) = Inr a"
    "m_user_err_func a = Some 7" "m_on_channel_func_or_empty a = Some 8"
    by (simp add: Session_adapter_def on_err_func_sio_def)
  from a(2) obtain b where b: "on_ev_err a = Inr b" by (simp add: on_ev_err_def)
  from adapter_init_after_error_trips [OF b] a b show ?thesis by auto
qed

end
