(* ===== verification/Sync_Io_Accept.thy ===== *)
theory Sync_Io_Accept
  imports Sync_Io
begin

text \<open>
  The adapter of a session server (\<^verbatim>\<open>sync_io/session_server_adapter.hpp\<close>) as a machine: the user's calls, the
  session server that completes the accepts it was given in its own thread, and the user's event loop. \<open>completed\<close>
  counts the completed accepts, \<open>shut\<close> says that one was completed because the session server is destroyed, and \<open>reported\<close>
  lists the results of the others. \<open>given\<close> lists the handlers of the calls of \<^verbatim>\<open>async_accept()\<close> that did not return false, and
  \<open>threw\<close> says that one of these did not return (see the last theorem).
\<close>

record accept_sys =
  ad :: session_server_adapter
  completed :: nat
  shut :: bool
  reported :: "error_code option list"
  given :: "handler list"
  threw :: bool

abbreviation aborted :: "error_code option" where
  "aborted \<equiv> Some (make_error_code S_OBJECT_SHUTDOWN_ABORTED_COMPLETION_HANDLER)"

inductive accept_step :: "accept_sys \<Rightarrow> accept_sys \<Rightarrow> bool" where
  start_ops: "accept_step x (x\<lparr> ad := snd (server_adapter_start_ops f (ad x)) \<rparr>)"
| replace: "accept_step x (x\<lparr> ad := snd (server_adapter_replace_event_wait_handles n (ad x)) \<rparr>)"
| accept:
    "server_adapter_async_accept h (ad x) = (r, a) \<Longrightarrow>
     accept_step x (x\<lparr> ad := a, given := (if r = Inr False then given x else given x @ [h]),
       threw := threw x \<or> \<not> returns r \<rparr>)"
| complete:
    "completed x < sv_accepts (ad x) \<Longrightarrow> e \<noteq> aborted \<Longrightarrow>
     accept_step x (x\<lparr> ad := accept_write e (ad x), completed := completed x + 1, reported := reported x @ [e] \<rparr>)"
| abort:
    "completed x < sv_accepts (ad x) \<Longrightarrow>
     accept_step x (x\<lparr> ad := accept_write aborted (ad x), completed := completed x + 1, shut := True \<rparr>)"
| ev:
    "sv_waits (ad x) \<Longrightarrow> sv_ready (ad x) > 0 \<Longrightarrow> accept_read (ad x) = Inr a \<Longrightarrow> accept_step x (x\<lparr> ad := a \<rparr>)"

definition accept_ini :: "accept_sys \<Rightarrow> bool" where
  "accept_ini x \<longleftrightarrow> (\<exists>p. Session_server_adapter (Some p) = Inr (ad x)) \<and> completed x = 0 \<and> \<not> shut x \<and> reported x = [] \<and>
     given x = [] \<and> \<not> threw x"

definition accept_inv :: "accept_sys \<Rightarrow> bool" where
  "accept_inv x \<longleftrightarrow> (let a = ad x in
     map snd (sv_done_calls a) @ (if sv_ready a = 0 then [] else [m_target_err_code a]) = reported x \<and>
     map fst (sv_done_calls a) @ (case m_on_done_func_or_empty a of None \<Rightarrow> [] | Some h \<Rightarrow> [h]) = given x \<and>
     (\<not> threw x \<and> m_on_done_func_or_empty a \<noteq> None \<longrightarrow> sv_waits a) \<and>
     sv_ready a \<le> 1 \<and>
     length (sv_done_calls a) + (if m_on_done_func_or_empty a = None then 0 else 1) = sv_accepts a \<and>
     length (reported x) + (if shut x then 1 else 0) = completed x \<and> completed x \<le> sv_accepts a \<and>
     (sv_waits a \<longrightarrow> m_on_done_func_or_empty a \<noteq> None \<and> sv_ev_wait_func a \<noteq> None))"

lemma accept_inv_pending:
  assumes "accept_inv x" "completed x < sv_accepts (ad x)"
  shows "sv_ready (ad x) = 0 \<and> \<not> shut x \<and> m_on_done_func_or_empty (ad x) \<noteq> None \<and>
    map snd (sv_done_calls (ad x)) = reported x \<and> sv_accepts (ad x) = completed x + 1"
proof -
  have "length (reported x) = length (sv_done_calls (ad x)) + sv_ready (ad x)"
    using assms(1) unfolding accept_inv_def Let_def by (elim conjE) (drule arg_cong [where f = length], simp split: if_splits)
  then show ?thesis using assms by (auto simp: accept_inv_def Let_def split: if_splits)
qed

lemma accept_inv_ready:
  assumes "accept_inv x" "sv_ready (ad x) > 0"
  shows "\<exists>h. m_on_done_func_or_empty (ad x) = Some h"
proof -
  have "length (reported x) = length (sv_done_calls (ad x)) + 1"
    using assms unfolding accept_inv_def Let_def by (elim conjE) (drule arg_cong [where f = length], simp split: if_splits)
  with assms show ?thesis by (auto simp: accept_inv_def Let_def split: if_splits)
qed

interpretation accept: invariant_system accept_ini accept_step accept_inv
proof (unfold_locales, goal_cases)
  case (1 x)
  then obtain p where "Session_server_adapter (Some p) = Inr (ad x)" and x: "completed x = 0" "\<not> shut x" "reported x = []" "given x = []"
    by (auto simp: accept_ini_def)
  then have "ad x = \<lparr> sv_ready = 0, sv_ev_wait_hndl = (0, p), sv_ev_wait_func = None, sv_waits = False,
       m_on_done_func_or_empty = None, m_target_err_code = None, sv_accepts = 0, sv_done_calls = [] \<rparr>"
    by (simp add: Session_server_adapter_def)
  with x show ?case by (simp add: accept_inv_def)
next
  case (2 x y)
  from 2(2) show ?case
  proof cases
    case (start_ops f)
    with 2(1) show ?thesis by (auto simp: accept_inv_def Let_def server_adapter_start_ops_def)
  next
    case (replace n)
    with 2(1) show ?thesis by (auto simp: accept_inv_def Let_def server_adapter_replace_event_wait_handles_def)
  next
    case (accept h r a)
    with 2(1) show ?thesis
      by (cases "m_on_done_func_or_empty (ad x)"; cases "sv_ev_wait_func (ad x)")
        (auto simp: accept_inv_def Let_def server_adapter_async_accept_def returns_def split: if_splits)
  next
    case (complete e)
    from accept_inv_pending [OF 2(1) complete(2)] 2(1) complete show ?thesis
      by (simp add: accept_inv_def Let_def accept_write_def)
  next
    case abort
    from accept_inv_pending [OF 2(1) abort(2)] 2(1) abort show ?thesis
      by (simp add: accept_inv_def Let_def accept_write_def)
  next
    case (ev a)
    from accept_inv_ready [OF 2(1) ev(3)] obtain h where h: "m_on_done_func_or_empty (ad x) = Some h" by blast
    with ev(4) have "a = (ad x)\<lparr> sv_waits := False, sv_ready := sv_ready (ad x) - 1, m_on_done_func_or_empty := None,
        sv_done_calls := sv_done_calls (ad x) @ [(h, m_target_err_code (ad x))] \<rparr>" by (simp add: accept_read_def)
    with 2(1) h ev(1,3) show ?thesis by (auto simp: accept_inv_def Let_def)
  qed
qed

lemma handlers_ran:
  assumes "accept_inv x"
  shows "sv_done_calls (ad x) = zip (take (length (sv_done_calls (ad x))) (given x)) (take (length (sv_done_calls (ad x))) (reported x))"
proof -
  let ?d = "sv_done_calls (ad x)"
  from assms have "take (length ?d) (map fst ?d @ (case m_on_done_func_or_empty (ad x) of None \<Rightarrow> [] | Some h \<Rightarrow> [h])) = take (length ?d) (given x)"
    "take (length ?d) (map snd ?d @ (if sv_ready (ad x) = 0 then [] else [m_target_err_code (ad x)])) = take (length ?d) (reported x)"
    by (simp_all only: accept_inv_def Let_def)
  then have "take (length ?d) (given x) = map fst ?d" "take (length ?d) (reported x) = map snd ?d" by simp_all
  then show ?thesis by (simp add: zip_map_fst_snd)
qed

text \<open>What the next report of the loop brings, if there is one.\<close>

lemma handler_runs:
  assumes i: "accept_inv x" and n: "length (sv_done_calls (ad x)) < length (reported x)" and t: "\<not> threw x"
  shows "sv_waits (ad x) \<and> sv_ready (ad x) > 0 \<and> (\<exists>a. accept_read (ad x) = Inr a \<and> m_on_done_func_or_empty a = None \<and>
    sv_done_calls a = sv_done_calls (ad x) @ [(given x ! length (sv_done_calls (ad x)), reported x ! length (sv_done_calls (ad x)))])"
proof -
  let ?d = "sv_done_calls (ad x)"
  have eq: "map snd ?d @ (if sv_ready (ad x) = 0 then [] else [m_target_err_code (ad x)]) = reported x"
    "map fst ?d @ (case m_on_done_func_or_empty (ad x) of None \<Rightarrow> [] | Some h \<Rightarrow> [h]) = given x"
    and w: "m_on_done_func_or_empty (ad x) \<noteq> None \<longrightarrow> sv_waits (ad x)" using i t by (simp_all add: accept_inv_def Let_def)
  have r: "sv_ready (ad x) > 0" using n unfolding eq(1) [symmetric] by (cases "sv_ready (ad x)") simp_all
  from accept_inv_ready [OF i r] obtain h where h: "m_on_done_func_or_empty (ad x) = Some h" by blast
  have "given x ! length ?d = h" "reported x ! length ?d = m_target_err_code (ad x)"
    using r h unfolding eq [symmetric] by (simp_all add: nth_append)
  with h r w show ?thesis by (simp add: accept_read_def)
qed

text \<open>
  C15. Accepting through the adapter of a session server, whatever the user calls and however the threads
  interleave. The calls of \<^verbatim>\<open>async_accept()\<close> that are not refused are exactly the accepts issued to the session server. The handler of
  the \<open>k\<close>th of them, and no other, is run with the \<open>k\<close>th result that the session server reports, once, in order; the pending one is the last.
  The session server never holds two accepts at a time, and while it holds one, \<^verbatim>\<open>async_accept()\<close> returns false and does nothing.
  Delivery, unless an \<^verbatim>\<open>async_accept()\<close> was called before \<^verbatim>\<open>start_ops()\<close>: as long as a reported
  result was not handed over the user's loop waits for the pipe and the pipe is readable, and the loop's report runs that handler with it; so
  when neither the session server nor the loop has anything left to do, and the session server is not being destroyed,
  all the handlers have run, each with its result.
\<close>

theorem server_adapter_accepts_in_turn:
  assumes "reach accept_ini accept_step x"
  shows "let a = ad x; n = length (sv_done_calls a) in
    length (given x) = sv_accepts a \<and> n \<le> length (reported x) \<and> length (reported x) \<le> length (given x) \<and> length (given x) \<le> n + 1 \<and>
    sv_done_calls a = zip (take n (given x)) (take n (reported x)) \<and>
    drop n (given x) = (case m_on_done_func_or_empty a of None \<Rightarrow> [] | Some h \<Rightarrow> [h]) \<and>
    (completed x < sv_accepts a \<longrightarrow> sv_accepts a = completed x + 1 \<and> server_adapter_async_accept h a = (Inr False, a)) \<and>
    (\<not> threw x \<and> n < length (reported x) \<longrightarrow> sv_waits a \<and> sv_ready a > 0 \<and>
      (\<exists>b. accept_read a = Inr b \<and> m_on_done_func_or_empty b = None \<and>
         sv_done_calls b = sv_done_calls a @ [(given x ! n, reported x ! n)])) \<and>
    (\<not> threw x \<and> \<not> shut x \<and> completed x = sv_accepts a \<and> \<not> (sv_waits a \<and> sv_ready a > 0) \<longrightarrow>
      length (given x) = length (reported x) \<and> sv_done_calls a = zip (given x) (reported x))"
proof -
  let ?a = "ad x" let ?n = "length (sv_done_calls ?a)"
  from assms have i: "accept_inv x" by (rule accept.reach_inv)
  have g: "map fst (sv_done_calls ?a) @ (case m_on_done_func_or_empty ?a of None \<Rightarrow> [] | Some h \<Rightarrow> [h]) = given x"
    and rp: "map snd (sv_done_calls ?a) @ (if sv_ready ?a = 0 then [] else [m_target_err_code ?a]) = reported x"
    and l: "?n + (if m_on_done_func_or_empty ?a = None then 0 else 1) = sv_accepts ?a"
    "length (reported x) + (if shut x then 1 else 0) = completed x" "completed x \<le> sv_accepts ?a"
    using i by (simp_all add: accept_inv_def Let_def)
  have given: "length (given x) = sv_accepts ?a" "length (given x) \<le> ?n + 1"
    "drop ?n (given x) = (case m_on_done_func_or_empty ?a of None \<Rightarrow> [] | Some h \<Rightarrow> [h])"
    using l(1) unfolding g [symmetric] by (cases "m_on_done_func_or_empty ?a"; simp)+
  have "?n \<le> length (reported x)" unfolding rp [symmetric] by simp
  moreover have "length (reported x) \<le> length (given x)" using l(2,3) given(1) by simp
  moreover note handlers_ran [OF i] handler_runs [OF i] given
  moreover have "sv_accepts ?a = completed x + 1 \<and> server_adapter_async_accept h ?a = (Inr False, ?a)"
    if "completed x < sv_accepts ?a"
    using accept_inv_pending [OF i that] by (simp add: server_adapter_async_accept_def)
  moreover have "length (given x) = length (reported x) \<and> sv_done_calls ?a = zip (given x) (reported x)"
    if q: "\<not> threw x" "\<not> shut x" "completed x = sv_accepts ?a" "\<not> (sv_waits ?a \<and> sv_ready ?a > 0)"
  proof -
    have len: "length (given x) = length (reported x)" using l(2) q(2,3) given(1) by simp
    moreover have "?n = length (reported x)"
      using handler_runs [OF i _ q(1)] q(4) \<open>?n \<le> length (reported x)\<close> by (cases "?n < length (reported x)") auto
    ultimately show ?thesis using handlers_ran [OF i] by simp
  qed
  ultimately show ?thesis unfolding Let_def by blast
qed

text \<open>A pending handler for whose result no wait was started stays for ever.\<close>

lemma accept_stuck:
  assumes "accept_step\<^sup>*\<^sup>* x y" "m_on_done_func_or_empty (ad x) \<noteq> None" "\<not> sv_waits (ad x)"
  shows "m_on_done_func_or_empty (ad y) \<noteq> None \<and> \<not> sv_waits (ad y) \<and> sv_done_calls (ad y) = sv_done_calls (ad x)"
  using assms
proof (induction rule: rtranclp_induct)
  case (step y z)
  then have y: "m_on_done_func_or_empty (ad y) \<noteq> None" "\<not> sv_waits (ad y)" "sv_done_calls (ad y) = sv_done_calls (ad x)" by auto
  from step(2) show ?case
    by cases (use y in \<open>auto simp: server_adapter_start_ops_def server_adapter_replace_event_wait_handles_def
        server_adapter_async_accept_def accept_write_def\<close>)
qed simp

text \<open>
  An accept before \<^verbatim>\<open>start_ops()\<close> does not return false, as documented: it throws, after it has issued the accept
  to the session server. From then on the adapter can accept nothing: its handler stays set and no wait is ever started, so
  that in every state to come, also after \<^verbatim>\<open>start_ops()\<close>, \<^verbatim>\<open>async_accept()\<close> returns false, and no handler runs.
\<close>

theorem accept_before_start_ops_blocks_adapter:
  assumes "m_on_done_func_or_empty (ad x) = None" "sv_ev_wait_func (ad x) = None" "\<not> sv_waits (ad x)"
  shows "\<exists>b. server_adapter_async_accept h (ad x) = (Inl (Uncaught ''bad_function_call''), b) \<and>
    sv_accepts b = sv_accepts (ad x) + 1 \<and>
    (\<forall>y g. accept_step\<^sup>*\<^sup>* (x\<lparr> ad := b \<rparr>) y \<longrightarrow>
       server_adapter_async_accept g (ad y) = (Inr False, ad y) \<and> sv_done_calls (ad y) = sv_done_calls (ad x))"
proof -
  let ?b = "(ad x)\<lparr> m_on_done_func_or_empty := Some h, sv_accepts := sv_accepts (ad x) + 1 \<rparr>"
  have "server_adapter_async_accept h (ad x) = (Inl (Uncaught ''bad_function_call''), ?b)"
    using assms by (simp add: server_adapter_async_accept_def)
  moreover have "server_adapter_async_accept g (ad y) = (Inr False, ad y) \<and> sv_done_calls (ad y) = sv_done_calls (ad x)"
    if "accept_step\<^sup>*\<^sup>* (x\<lparr> ad := ?b \<rparr>) y" for y g
    using accept_stuck [OF that] assms(3) by (simp add: server_adapter_async_accept_def)
  ultimately show ?thesis by (intro exI [of _ ?b]) simp
qed

section \<open>Witnesses\<close>

definition demo_ad :: session_server_adapter where
  "demo_ad = \<lparr> sv_ready = 1, sv_ev_wait_hndl = (0, 5), sv_ev_wait_func = Some 1, sv_waits = True,
     m_on_done_func_or_empty = Some 2, m_target_err_code = None, sv_accepts = 1, sv_done_calls = [] \<rparr>"

lemma demo_accept_run: "reach accept_ini accept_step
    \<lparr> ad = demo_ad, completed = 1, shut = False, reported = [None], given = [2], threw = False \<rparr>"
proof -
  obtain a where a: "Session_server_adapter (Some 5) = Inr a" by (simp add: Session_server_adapter_def)
  let ?x = "\<lparr> ad = a, completed = 0, shut = False, reported = [], given = [], threw = False \<rparr>"
  let ?b = "snd (server_adapter_async_accept 2 (snd (server_adapter_start_ops 1 a)))"
  from a have "reach accept_ini accept_step ?x" by (intro reach_init) (auto simp: accept_ini_def)
  note s = reach_step [OF this accept_step.start_ops [where f = 1]]
  have r: "server_adapter_async_accept 2 (snd (server_adapter_start_ops 1 a)) = (Inr True, ?b)"
    using a by (auto simp: Session_server_adapter_def server_adapter_start_ops_def server_adapter_async_accept_def Let_def)
  from reach_step [OF s accept_step.accept [where h = 2 and r = "Inr True" and a = ?b]] r
  have b: "reach accept_ini accept_step \<lparr> ad = ?b, completed = 0, shut = False, reported = [], given = [2], threw = False \<rparr>"
    by (simp add: returns_def)
  have d: "accept_write None ?b = demo_ad" "sv_accepts ?b = 1"
    using a by (auto simp: Session_server_adapter_def server_adapter_start_ops_def server_adapter_async_accept_def Let_def
        accept_write_def demo_ad_def)
  from reach_step [OF b accept_step.complete [where e = None]] d show ?thesis by simp
qed

theorem server_adapter_accepts_in_turn_witness:
  "\<exists>a. accept_read demo_ad = Inr a \<and> sv_done_calls a = [(2, None)]"
  using server_adapter_accepts_in_turn [OF demo_accept_run] by (auto simp: demo_ad_def Let_def)

theorem accept_before_start_ops_blocks_adapter_witness:
  "\<exists>a b. Session_server_adapter (Some 5) = Inr a \<and> server_adapter_async_accept 2 a = (Inl (Uncaught ''bad_function_call''), b) \<and>
     server_adapter_async_accept 3 (snd (server_adapter_start_ops 1 b)) = (Inr False, snd (server_adapter_start_ops 1 b))"
proof -
  obtain a where a: "Session_server_adapter (Some 5) = Inr a" "m_on_done_func_or_empty a = None"
    "sv_ev_wait_func a = None" "\<not> sv_waits a" by (simp add: Session_server_adapter_def)
  let ?x = "\<lparr> ad = a, completed = 0, shut = False, reported = [], given = [], threw = False \<rparr>"
  from accept_before_start_ops_blocks_adapter [of ?x 2] a(2-4) obtain b where
    b: "server_adapter_async_accept 2 a = (Inl (Uncaught ''bad_function_call''), b)" and
    s: "\<And>y g. accept_step\<^sup>*\<^sup>* (?x\<lparr> ad := b \<rparr>) y \<Longrightarrow> server_adapter_async_accept g (ad y) = (Inr False, ad y)"
    by auto
  have "accept_step (?x\<lparr> ad := b \<rparr>) (?x\<lparr> ad := snd (server_adapter_start_ops 1 b) \<rparr>)"
    using accept_step.start_ops [of "?x\<lparr> ad := b \<rparr>" 1] by simp
  from s [OF r_into_rtranclp [of accept_step, OF this], of 3] a(1) b show ?thesis by auto
qed

end
