(* ===== verification/Graceful_Finish.thy ===== *)
theory Graceful_Finish
  imports Session_Protocol
begin

text \<open>
  The graceful finish of a session (\<^verbatim>\<open>Session_base::Graceful_finisher\<close>) with both its sides: a destructor tells the
  opposing session that it has started and waits until it is told the same, or learns that the
  channel was hosed. The sides are indexed by a boolean, true for the client.
\<close>

section \<open>The error of the master channel\<close>

text \<open>What both kinds of session do in PEER state when the master channel reports an error.\<close>

definition peer_error ::
    "error_code \<Rightarrow> graceful_finisher \<Rightarrow> 'a session_base_scheme \<Rightarrow> (graceful_finisher \<times> 'a session_base_scheme) res" where
  "peer_error e f s = res_bind (hosed s) (\<lambda>h. res_bind (if \<not> h then hose e s else Inr s)
     (\<lambda>s. Inr (on_master_channel_hosed f, s)))"

lemma client_peer_error:
  assumes "S_GRACEFUL_FINISH_REQUIRED cfg" "m_state s = S_PEER" "Client_Session.m_master_channel s = Some c"
    "Client_Session.m_graceful_finisher s = Some f"
  shows "Client_Session.on_master_channel_error cfg hook (Some c) e s =
    res_bind (peer_error e f s) (\<lambda>(f, s). Inr (s\<lparr> Client_Session.m_graceful_finisher := Some f \<rparr>))"
  using assms
  by (cases "hosed s"; cases "hose e s")
    (auto simp: Client_Session.on_master_channel_error_def peer_error_def hose_set hose_Inr)

lemma server_peer_error:
  assumes "S_GRACEFUL_FINISH_REQUIRED cfg" "handlers_are_set s" "m_log_in_on_done_func s = None"
    "Server_Session.m_master_channel s = Some c" "Server_Session.m_graceful_finisher s = Some f"
  shows "Server_Session.on_master_channel_error cfg e s =
    res_bind (peer_error e f s) (\<lambda>(f, s). Inr (s\<lparr> Server_Session.m_graceful_finisher := Some f \<rparr>))"
  using assms
  by (cases "hosed s"; cases "hose e s")
    (auto simp: Server_Session.on_master_channel_error_def peer_error_def hose_set hose_Inr)

section \<open>The two sides\<close>

text \<open>
  \<open>end_sent\<close>: this side's \<^verbatim>\<open>GracefulSessionEnd\<close> is on its way; \<open>end_posted\<close>: the other side's has arrived and
  its handler waits on thread W. \<open>sync_failed\<close>: an operation on the channel itself reported the channel's error, which therefore
  reports none to the handler of channel errors.
\<close>

datatype dtor_phase = Not_started | Waiting | Finished

record fin_side =
  finisher :: graceful_finisher
  sbase :: session_base
  fch :: chan_status
  end_sent :: bool
  end_posted :: bool
  sync_failed :: bool
  phase :: dtor_phase

type_synonym fin_sys = "bool \<Rightarrow> fin_side"

definition fin_ini :: "fin_sys \<Rightarrow> bool" where
  "fin_ini x \<longleftrightarrow> (\<forall>b. finisher (x b) = Graceful_finisher \<and> fch (x b) = Ch_ok \<and> \<not> end_sent (x b) \<and> \<not> end_posted (x b) \<and>
     \<not> sync_failed (x b) \<and> phase (x b) = Not_started \<and> m_on_err_func (sbase (x b)) \<noteq> None \<and>
     m_peer_state_err_code_or_ok (sbase (x b)) = None \<and> fired (sbase (x b)) = [])"

text \<open>What happens by itself: messages and errors arrive, their handlers run, a wait that is over returns.\<close>

inductive fin_forced :: "fin_sys \<Rightarrow> fin_sys \<Rightarrow> bool" where
  deliver:
    "phase (x b) \<noteq> Finished \<Longrightarrow> fch (x b) = Ch_ok \<Longrightarrow> end_sent (x (\<not> b)) \<Longrightarrow>
     fin_forced x (x(\<not> b := (x (\<not> b))\<lparr> end_sent := False \<rparr>, b := (x b)\<lparr> end_posted := True \<rparr>))"
| handle_end:
    "phase (x b) \<noteq> Finished \<Longrightarrow> end_posted (x b) \<Longrightarrow>
     on_graceful_session_end (finisher (x b)) (sbase (x b)) = Inr (f, s) \<Longrightarrow>
     fin_forced x (x(b := (x b)\<lparr> finisher := f, sbase := s, end_posted := False \<rparr>))"
| handle_error:
    "phase (x b) \<noteq> Finished \<Longrightarrow> fch (x b) = Ch_err_pending e \<Longrightarrow> \<not> end_posted (x b) \<Longrightarrow>
     peer_error e (finisher (x b)) (sbase (x b)) = Inr (f, s) \<Longrightarrow>
     fin_forced x (x(b := (x b)\<lparr> finisher := f, sbase := s, fch := Ch_err_emitted \<rparr>))"
| peer_gone:
    "phase (x b) \<noteq> Finished \<Longrightarrow> fch (x b) = Ch_ok \<Longrightarrow> phase (x (\<not> b)) = Finished \<Longrightarrow> \<not> end_sent (x (\<not> b)) \<Longrightarrow>
     fin_forced x (x(b := (x b)\<lparr> fch := Ch_err_pending e \<rparr>))"
| dtor_returns:
    "phase (x b) = Waiting \<Longrightarrow> on_dtor_start_returns (finisher (x b)) \<Longrightarrow> fin_forced x (x(b := (x b)\<lparr> phase := Finished \<rparr>))"

text \<open>What may happen besides: a destructor starts, the channel fails, an operation fails.\<close>

inductive fin_env :: "fin_sys \<Rightarrow> fin_sys \<Rightarrow> bool" where
  dtor_starts:
    "phase (x b) = Not_started \<Longrightarrow> sending (fch (x b)) a st \<Longrightarrow>
     fin_env x (x(b := (x b)\<lparr> phase := Waiting, fch := st, end_sent := (a = Sent_ok),
       sync_failed := sync_failed (x b) \<or> a \<noteq> Sent_ok \<and> a \<noteq> Refused \<rparr>))"
| channel_fails:
    "phase (x b) \<noteq> Finished \<Longrightarrow> fch (x b) = Ch_ok \<Longrightarrow> fin_env x (x(b := (x b)\<lparr> fch := Ch_err_pending e \<rparr>))"
| operation_fails:
    "phase (x b) \<noteq> Finished \<Longrightarrow> fch (x b) = Ch_ok \<Longrightarrow> hose e (sbase (x b)) = Inr s \<Longrightarrow>
     fin_env x (x(b := (x b)\<lparr> fch := Ch_err_emitted, sbase := s, sync_failed := True \<rparr>))"

definition fin_step :: "fin_sys \<Rightarrow> fin_sys \<Rightarrow> bool" where
  "fin_step x y \<longleftrightarrow> fin_forced x y \<or> fin_env x y"

abbreviation is_done :: "fin_side \<Rightarrow> bool" where
  "is_done s \<equiv> m_opposing_session_done (finisher s)"

text \<open>The invariant of one side: how it stands to the other one, and what it has emitted.\<close>

definition ctl_inv :: "fin_side \<Rightarrow> fin_side \<Rightarrow> bool" where
  "ctl_inv s p \<longleftrightarrow>
     (end_sent s \<longrightarrow> phase s \<noteq> Not_started) \<and>
     (end_posted s \<longrightarrow> \<not> is_done s \<and> phase p \<noteq> Not_started \<and> \<not> end_sent p) \<and>
     (end_sent p \<and> is_done s \<longrightarrow> fch s = Ch_err_emitted) \<and>
     (is_done s \<longrightarrow> phase p \<noteq> Not_started \<or> fch s = Ch_err_emitted) \<and>
     (fch s = Ch_err_emitted \<and> \<not> sync_failed s \<longrightarrow> is_done s) \<and>
     (sync_failed s \<longrightarrow> fch s = Ch_err_emitted) \<and>
     (phase s = Finished \<longrightarrow> is_done s) \<and>
     (phase p \<noteq> Not_started \<longrightarrow> end_sent p \<or> end_posted s \<or> is_done s \<or> fch p \<noteq> Ch_ok)"

definition emit_inv :: "bool \<Rightarrow> session_base \<Rightarrow> bool" where
  "emit_inv d s \<longleftrightarrow> m_on_err_func s \<noteq> None \<and> (m_peer_state_err_code_or_ok s = None \<longrightarrow> fired s = []) \<and>
     (\<forall>e. m_peer_state_err_code_or_ok s = Some e \<longrightarrow> fired s = [(the (m_on_err_func s), e)]) \<and>
     (d \<longrightarrow> m_peer_state_err_code_or_ok s \<noteq> None)"

definition fin_inv :: "fin_sys \<Rightarrow> bool" where
  "fin_inv x \<longleftrightarrow> (\<forall>b. ctl_inv (x b) (x (\<not> b)) \<and> emit_inv (is_done (x b)) (sbase (x b)))"

lemma fin_inv_both: "fin_inv x \<longleftrightarrow> ctl_inv (x b) (x (\<not> b)) \<and> ctl_inv (x (\<not> b)) (x b) \<and>
    emit_inv (is_done (x b)) (sbase (x b)) \<and> emit_inv (is_done (x (\<not> b))) (sbase (x (\<not> b)))"
  by (cases b) (auto simp: fin_inv_def all_bool_eq)

text \<open>The steps, each on the two sides it concerns.\<close>

lemma deliver_inv:
  "ctl_inv s p \<Longrightarrow> ctl_inv p s \<Longrightarrow> fch s = Ch_ok \<Longrightarrow> fch s \<noteq> Ch_err_emitted \<Longrightarrow> end_sent p \<Longrightarrow>
   ctl_inv (s\<lparr> end_posted := True \<rparr>) (p\<lparr> end_sent := False \<rparr>) \<and> ctl_inv (p\<lparr> end_sent := False \<rparr>) (s\<lparr> end_posted := True \<rparr>)"
  unfolding ctl_inv_def by (simp (no_asm), argo)

lemma done_inv:
  "ctl_inv s p \<Longrightarrow> ctl_inv p s \<Longrightarrow> end_posted s \<Longrightarrow>
   ctl_inv (s\<lparr> finisher := \<lparr> m_opposing_session_done = True \<rparr>, sbase := t, end_posted := False \<rparr>) p \<and>
   ctl_inv p (s\<lparr> finisher := \<lparr> m_opposing_session_done = True \<rparr>, sbase := t, end_posted := False \<rparr>)"
  unfolding ctl_inv_def by (simp (no_asm), argo)

lemma error_inv:
  "ctl_inv s p \<Longrightarrow> ctl_inv p s \<Longrightarrow> fch s \<noteq> Ch_ok \<Longrightarrow> fch s \<noteq> Ch_err_emitted \<Longrightarrow> \<not> end_posted s \<Longrightarrow>
   ctl_inv (s\<lparr> finisher := \<lparr> m_opposing_session_done = True \<rparr>, sbase := t, fch := Ch_err_emitted \<rparr>) p \<and>
   ctl_inv p (s\<lparr> finisher := \<lparr> m_opposing_session_done = True \<rparr>, sbase := t, fch := Ch_err_emitted \<rparr>)"
  unfolding ctl_inv_def by (simp (no_asm), argo)

lemma fails_inv:
  "ctl_inv s p \<Longrightarrow> ctl_inv p s \<Longrightarrow> fch s = Ch_ok \<Longrightarrow> fch s \<noteq> Ch_err_emitted \<Longrightarrow>
   ctl_inv (s\<lparr> fch := Ch_err_pending e \<rparr>) p \<and> ctl_inv p (s\<lparr> fch := Ch_err_pending e \<rparr>)"
  unfolding ctl_inv_def by (simp (no_asm), argo)

lemma returns_inv:
  "ctl_inv s p \<Longrightarrow> ctl_inv p s \<Longrightarrow> phase s \<noteq> Not_started \<Longrightarrow> is_done s \<Longrightarrow>
   ctl_inv (s\<lparr> phase := Finished \<rparr>) p \<and> ctl_inv p (s\<lparr> phase := Finished \<rparr>)"
  unfolding ctl_inv_def by (simp (no_asm), argo)

lemma operation_inv:
  "ctl_inv s p \<Longrightarrow> ctl_inv p s \<Longrightarrow> fch s = Ch_ok \<Longrightarrow> fch s \<noteq> Ch_err_emitted \<Longrightarrow>
   ctl_inv (s\<lparr> fch := Ch_err_emitted, sbase := t, sync_failed := True \<rparr>) p \<and>
   ctl_inv p (s\<lparr> fch := Ch_err_emitted, sbase := t, sync_failed := True \<rparr>)"
  unfolding ctl_inv_def by (simp (no_asm), argo)

text \<open>The start of a destructor: the message is sent, or sending reports an error, or the channel had failed.\<close>

lemma starts_sent_inv:
  "ctl_inv s p \<Longrightarrow> ctl_inv p s \<Longrightarrow> phase s = Not_started \<Longrightarrow> phase s \<noteq> Finished \<Longrightarrow> fch s = Ch_ok \<Longrightarrow> fch s \<noteq> Ch_err_emitted \<Longrightarrow>
   ctl_inv (s\<lparr> phase := Waiting, fch := Ch_ok, end_sent := True \<rparr>) p \<and>
   ctl_inv p (s\<lparr> phase := Waiting, fch := Ch_ok, end_sent := True \<rparr>)"
  unfolding ctl_inv_def by (simp (no_asm), argo)

lemma starts_unsent_inv:
  "ctl_inv s p \<Longrightarrow> ctl_inv p s \<Longrightarrow> phase s = Not_started \<Longrightarrow> phase s \<noteq> Finished \<Longrightarrow> fch s \<noteq> Ch_ok \<Longrightarrow>
   ctl_inv (s\<lparr> phase := Waiting, end_sent := False \<rparr>) p \<and> ctl_inv p (s\<lparr> phase := Waiting, end_sent := False \<rparr>)"
  unfolding ctl_inv_def by (simp (no_asm), argo)

lemma starts_inv:
  assumes i: "ctl_inv s p" "ctl_inv p s" and n: "phase s = Not_started" and a: "sending (fch s) a st"
  shows "ctl_inv (s\<lparr> phase := Waiting, fch := st, end_sent := (a = Sent_ok),
       sync_failed := sync_failed s \<or> a \<noteq> Sent_ok \<and> a \<noteq> Refused \<rparr>) p \<and>
    ctl_inv p (s\<lparr> phase := Waiting, fch := st, end_sent := (a = Sent_ok),
       sync_failed := sync_failed s \<or> a \<noteq> Sent_ok \<and> a \<noteq> Refused \<rparr>)"
proof -
  have n': "phase s \<noteq> Finished" using n by simp
  consider "fch s = Ch_ok" "a = Sent_ok" "st = Ch_ok" | e where "fch s = Ch_ok" "a = Sent_err e" "st = Ch_err_emitted"
    | e where "fch s = Ch_ok" "a = Refused" "st = Ch_err_pending e" | "fch s \<noteq> Ch_ok" "a = Refused" "st = fch s"
    using a by (cases a) auto
  then show ?thesis
  proof cases
    case 1
    from starts_sent_inv [OF i n n' 1(1)] 1 show ?thesis by (cases s) simp
  next
    case (2 e)
    let ?s = "s\<lparr> fch := Ch_err_emitted, sbase := sbase s, sync_failed := True \<rparr>"
    from operation_inv [OF i 2(1), of "sbase s"] 2(1) have "ctl_inv ?s p" "ctl_inv p ?s" by simp_all
    from starts_unsent_inv [OF this] n 2 show ?thesis by (cases s) simp
  next
    case (3 e)
    let ?s = "s\<lparr> fch := Ch_err_pending e \<rparr>"
    from fails_inv [OF i 3(1), of e] 3(1) have "ctl_inv ?s p" "ctl_inv p ?s" by simp_all
    from starts_unsent_inv [OF this] n 3 show ?thesis by (cases s) simp
  next
    case 4
    from starts_unsent_inv [OF i n n' 4(1)] 4 show ?thesis by (cases s) simp
  qed
qed

lemma peer_error_Inr:
  "peer_error e f s = Inr (f', s') \<longleftrightarrow> f' = \<lparr> m_opposing_session_done = True \<rparr> \<and>
     (\<exists>h. m_on_err_func s = Some h \<and>
       s' = (if m_peer_state_err_code_or_ok s = None
             then s\<lparr> m_peer_state_err_code_or_ok := Some e, fired := fired s @ [(h, e)] \<rparr> else s))"
  by (cases "m_on_err_func s"; cases "m_peer_state_err_code_or_ok s"; cases f)
    (auto simp: peer_error_def res_bind_eq_Inr hose_set on_master_channel_hosed_def)

lemma emit_hose: "emit_inv d s \<Longrightarrow> hose e s = Inr t \<Longrightarrow> emit_inv d' t"
  by (auto simp: emit_inv_def hose_Inr)

lemma emit_end: "emit_inv d s \<Longrightarrow> on_graceful_session_end f s = Inr (f', t) \<Longrightarrow>
    f' = \<lparr> m_opposing_session_done = True \<rparr> \<and> emit_inv True t"
  by (auto simp: emit_inv_def on_graceful_session_end_Inr)

lemma emit_error: "emit_inv d s \<Longrightarrow> peer_error e f s = Inr (f', t) \<Longrightarrow>
    f' = \<lparr> m_opposing_session_done = True \<rparr> \<and> emit_inv True t"
  by (auto simp: emit_inv_def peer_error_Inr)

interpretation fin: invariant_system fin_ini fin_step fin_inv
proof (unfold_locales, goal_cases)
  case (1 x)
  then show ?case by (auto simp: fin_ini_def fin_inv_def ctl_inv_def emit_inv_def Graceful_finisher_def)
next
  case (2 x y)
  from 2(2) have "fin_forced x y \<or> fin_env x y" by (simp add: fin_step_def)
  then show ?case
  proof
    assume "fin_forced x y"
    then show ?thesis
    proof cases
      case (deliver b)
      with 2(1) deliver_inv [of "x b" "x (\<not> b)"] show ?thesis unfolding fin_inv_both [of _ b] by simp
    next
      case (handle_end b f s)
      from 2(1) have i: "ctl_inv (x b) (x (\<not> b))" "ctl_inv (x (\<not> b)) (x b)" "emit_inv (is_done (x b)) (sbase (x b))"
        "emit_inv (is_done (x (\<not> b))) (sbase (x (\<not> b)))" by (simp_all add: fin_inv_both [of _ b])
      from done_inv [OF i(1,2) handle_end(3)] emit_end [OF i(3) handle_end(4)] i(4) handle_end(1) show ?thesis
        unfolding fin_inv_both [of _ b] by simp
    next
      case (handle_error b e f s)
      have ch: "fch (x b) \<noteq> Ch_ok" "fch (x b) \<noteq> Ch_err_emitted" using handle_error(3) by simp_all
      from 2(1) have i: "ctl_inv (x b) (x (\<not> b))" "ctl_inv (x (\<not> b)) (x b)" "emit_inv (is_done (x b)) (sbase (x b))"
        "emit_inv (is_done (x (\<not> b))) (sbase (x (\<not> b)))" by (simp_all add: fin_inv_both [of _ b])
      from error_inv [OF i(1,2) ch handle_error(4)] emit_error [OF i(3) handle_error(5)] i(4) handle_error(1) show ?thesis
        unfolding fin_inv_both [of _ b] by simp
    next
      case (peer_gone b e)
      with 2(1) fails_inv [of "x b" "x (\<not> b)" e] show ?thesis unfolding fin_inv_both [of _ b] by simp
    next
      case (dtor_returns b)
      with 2(1) returns_inv [of "x b" "x (\<not> b)"] show ?thesis
        unfolding fin_inv_both [of _ b] by (simp add: on_dtor_start_returns_def)
    qed
  next
    assume "fin_env x y"
    then show ?thesis
    proof cases
      case (dtor_starts b a st)
      with 2(1) starts_inv [of "x b" "x (\<not> b)" a st] show ?thesis unfolding fin_inv_both [of _ b] by simp
    next
      case (channel_fails b e)
      with 2(1) fails_inv [of "x b" "x (\<not> b)" e] show ?thesis unfolding fin_inv_both [of _ b] by simp
    next
      case (operation_fails b e s)
      from 2(1) have i: "ctl_inv (x b) (x (\<not> b))" "ctl_inv (x (\<not> b)) (x b)" "emit_inv (is_done (x b)) (sbase (x b))"
        "emit_inv (is_done (x (\<not> b))) (sbase (x (\<not> b)))" by (simp_all add: fin_inv_both [of _ b])
      from operation_inv [OF i(1,2) operation_fails(3)] operation_fails(3) emit_hose [OF i(3) operation_fails(4)] i(4) operation_fails(1)
      show ?thesis unfolding fin_inv_both [of _ b] by simp
    qed
  qed
qed

section \<open>What the protocol guarantees\<close>

text \<open>How much is left to happen by itself.\<close>

definition side_work :: "fin_side \<Rightarrow> nat" where
  "side_work s = (if end_sent s then 2 else 0) + (if end_posted s then 1 else 0) +
     (case fch s of Ch_ok \<Rightarrow> 2 | Ch_err_pending e \<Rightarrow> 1 | Ch_err_emitted \<Rightarrow> 0) + (if phase s = Finished then 0 else 1)"

definition fin_work :: "fin_sys \<Rightarrow> nat" where
  "fin_work x = side_work (x True) + side_work (x False)"

lemma fin_work_both: "fin_work x = side_work (x b) + side_work (x (\<not> b))"
  by (cases b) (simp_all add: fin_work_def)

lemma forced_decreases:
  assumes "fin_inv x" "fin_forced x y"
  shows "fin_work y < fin_work x"
  using assms(2)
proof cases
  case (deliver b)
  have "\<not> end_posted (x b)"
    using assms(1) deliver(4) unfolding fin_inv_both [of _ b] ctl_inv_def by blast
  with deliver show ?thesis unfolding fin_work_both [of _ b] by (simp add: side_work_def)
next
  case (handle_end b f s)
  then show ?thesis unfolding fin_work_both [of _ b] by (simp add: side_work_def)
next
  case (handle_error b e f s)
  then show ?thesis unfolding fin_work_both [of _ b] by (simp add: side_work_def)
next
  case (peer_gone b e)
  then show ?thesis unfolding fin_work_both [of _ b] by (simp add: side_work_def)
next
  case (dtor_returns b)
  then show ?thesis unfolding fin_work_both [of _ b] by (simp add: side_work_def)
qed

interpretation fin_drain: draining_system fin_ini fin_step fin_inv fin_forced fin_work
  by unfold_locales (auto simp: fin_step_def intro: forced_decreases)

text \<open>Handlers whose turn it is always return.\<close>

lemma end_handler_returns:
  assumes "fin_inv x" "end_posted (x b)"
  shows "\<exists>f s. on_graceful_session_end (finisher (x b)) (sbase (x b)) = Inr (f, s)"
  using assms unfolding fin_inv_both [of _ b] on_graceful_session_end_Inr by (auto simp: ctl_inv_def emit_inv_def)

lemma error_handler_returns:
  assumes "fin_inv x"
  shows "\<exists>f s. peer_error e (finisher (x b)) (sbase (x b)) = Inr (f, s)"
  using assms unfolding fin_inv_both [of _ b] peer_error_Inr by (auto simp: emit_inv_def)

text \<open>Once both destructors have started, with nothing left to happen, a side that waits is one that has failed.\<close>

lemma waiting_has_work:
  assumes i: "fin_inv x" and p: "phase (x b) = Waiting" and q: "phase (x (\<not> b)) \<noteq> Not_started"
    and s: "\<not> sync_failed (x b)" "\<not> sync_failed (x (\<not> b))"
  shows "\<exists>y. fin_forced x y"
proof (rule ccontr)
  assume n: "\<nexists>y. fin_forced x y"
  have p': "phase (x b) \<noteq> Finished" using p by simp
  from i have c: "ctl_inv (x b) (x (\<not> b))" "ctl_inv (x (\<not> b)) (x b)" by (simp_all add: fin_inv_both [of _ b])
  have np: "\<not> end_posted (x c)" if "phase (x c) \<noteq> Finished" for c
    using fin_forced.handle_end [of x c] end_handler_returns [OF i, of c] that n by blast
  have ok: "fch (x c) = Ch_ok \<or> fch (x c) = Ch_err_emitted" if "phase (x c) \<noteq> Finished" for c
  proof (cases "fch (x c)")
    case (Ch_err_pending e)
    with error_handler_returns [OF i, of e c] fin_forced.handle_error [of x c e] np [OF that] that n show ?thesis by blast
  qed simp_all
  have nd: "\<not> is_done (x b)" using fin_forced.dtor_returns [of x b, OF p] n by (auto simp: on_dtor_start_returns_def)
  with c(1) s(1) have e: "fch (x b) \<noteq> Ch_err_emitted" by (simp add: ctl_inv_def)
  with ok [OF p'] have b: "fch (x b) = Ch_ok" by simp
  then have ns: "\<not> end_sent (x (\<not> b))" using fin_forced.deliver [of x b, OF p'] n by blast
  with b p' n have g: "phase (x (\<not> b)) \<noteq> Finished" using fin_forced.peer_gone [of x b] by blast
  with q have w: "phase (x (\<not> b)) = Waiting" by (cases "phase (x (\<not> b))") simp_all
  then have "\<not> is_done (x (\<not> b))" using fin_forced.dtor_returns [of x "\<not> b", OF w] n by (auto simp: on_dtor_start_returns_def)
  with c(2) s(2) ok [OF g] have "fch (x (\<not> b)) = Ch_ok" by (auto simp: ctl_inv_def)
  with c(1) q ns np [OF p'] nd show False by (simp add: ctl_inv_def)
qed

lemma forced_keeps:
  assumes "fin_forced\<^sup>*\<^sup>* x y"
  shows "sync_failed (y b) = sync_failed (x b) \<and> (phase (x b) \<noteq> Not_started \<longrightarrow> phase (y b) \<noteq> Not_started)"
  using assms
proof (induction rule: rtranclp_induct)
  case (step y z)
  from step(2) have "sync_failed (z b) = sync_failed (y b) \<and> (phase (y b) \<noteq> Not_started \<longrightarrow> phase (z b) \<noteq> Not_started)"
    by cases (auto simp: fun_upd_def)
  with step.IH show ?case by auto
qed simp

lemma stuck_is_finished:
  assumes "reach fin_ini fin_step x" "\<forall>b. phase (x b) \<noteq> Not_started \<and> \<not> sync_failed (x b)"
    "fin_forced\<^sup>*\<^sup>* x y" "\<nexists>z. fin_forced y z"
  shows "phase (y b) = Finished"
proof (cases "phase (y b)")
  case Waiting
  have "\<not> sync_failed (y c)" "phase (y c) \<noteq> Not_started" for c using forced_keeps [OF assms(3), of c] assms(2) by auto
  with waiting_has_work [OF fin.reach_inv [OF fin_drain.forced_reach [OF assms(1,3)]] Waiting] assms(4) show ?thesis by blast
qed (use forced_keeps [OF assms(3), of b] assms(2) in auto)

text \<open>
  C16. The graceful finish ends. Once the destructors of both sides have started, and no operation on
  the channel has itself reported the channel's error, then whatever order messages, errors and handlers
  come in, at most as many steps remain as \<open>fin_work\<close> says; when nothing is left to happen both destructors have
  returned; and such a state is reached.
\<close>

theorem graceful_finish_completes:
  assumes "reach fin_ini fin_step x" "\<forall>b. phase (x b) \<noteq> Not_started \<and> \<not> sync_failed (x b)"
  shows "(\<forall>n y. (fin_forced ^^ n) x y \<longrightarrow> n \<le> fin_work x) \<and>
    (\<forall>y. fin_forced\<^sup>*\<^sup>* x y \<and> (\<nexists>z. fin_forced y z) \<longrightarrow> (\<forall>b. phase (y b) = Finished)) \<and>
    (\<exists>y. fin_forced\<^sup>*\<^sup>* x y \<and> (\<forall>b. phase (y b) = Finished))"
proof (intro conjI allI impI)
  fix n y assume "(fin_forced ^^ n) x y"
  from fin_drain.forced_bound [OF assms(1) this] show "n \<le> fin_work x" by simp
next
  fix y b assume "fin_forced\<^sup>*\<^sup>* x y \<and> (\<nexists>z. fin_forced y z)"
  with stuck_is_finished [OF assms] show "phase (y b) = Finished" by blast
next
  from fin_drain.forced_normal_form [OF assms(1)] stuck_is_finished [OF assms]
  show "\<exists>y. fin_forced\<^sup>*\<^sup>* x y \<and> (\<forall>b. phase (y b) = Finished)" by blast
qed

text \<open>
  C17. What the graceful finish guarantees in every reachable state. The handlers never fail: the promise is never set
  twice without the exception being caught, and no assertion about the session's error trips. A
  destructor has returned only if the other side's has started, or the channel was reported hosed.
  The user is told of the end of the session at most once, and was told when the wait is over.
\<close>

theorem graceful_finish_safe:
  assumes "reach fin_ini fin_step x"
  shows "(end_posted (x b) \<longrightarrow> returns (on_graceful_session_end (finisher (x b)) (sbase (x b)))) \<and>
    returns (peer_error e (finisher (x b)) (sbase (x b))) \<and>
    (phase (x b) = Finished \<longrightarrow> phase (x (\<not> b)) \<noteq> Not_started \<or> fch (x b) = Ch_err_emitted) \<and>
    length (fired (sbase (x b))) \<le> 1 \<and> (on_dtor_start_returns (finisher (x b)) \<longrightarrow> fired (sbase (x b)) \<noteq> [])"
proof -
  from assms have i: "fin_inv x" by (rule fin.reach_inv)
  then have c: "ctl_inv (x b) (x (\<not> b))" and s: "emit_inv (is_done (x b)) (sbase (x b))" by (simp_all add: fin_inv_both [of _ b])
  from c have "phase (x b) = Finished \<longrightarrow> phase (x (\<not> b)) \<noteq> Not_started \<or> fch (x b) = Ch_err_emitted"
    unfolding ctl_inv_def by blast
  moreover from s have "length (fired (sbase (x b))) \<le> 1 \<and> (on_dtor_start_returns (finisher (x b)) \<longrightarrow> fired (sbase (x b)) \<noteq> [])"
    by (cases "m_peer_state_err_code_or_ok (sbase (x b))") (simp_all add: emit_inv_def on_dtor_start_returns_def)
  ultimately show ?thesis
    using end_handler_returns [OF i, of b] error_handler_returns [OF i, of e b] by (simp add: returns_iff)
qed

text \<open>A step concerns either the side itself, or the other one, and then changes at most what is on its way.\<close>

lemma other_side_step:
  assumes "fin_step x y" "fch (x b) = Ch_err_emitted" "\<not> is_done (x b)" "\<not> end_posted (x b)"
  shows "phase (y b) = phase (x b) \<and> fch (y b) = fch (x b) \<and> finisher (y b) = finisher (x b) \<and> end_posted (y b) = end_posted (x b) \<or>
    (\<exists>a st. phase (x b) = Not_started \<and> sending (fch (x b)) a st \<and> phase (y b) = Waiting \<and> fch (y b) = st \<and>
      finisher (y b) = finisher (x b) \<and> end_posted (y b) = end_posted (x b))"
proof -
  have upd: "(x(c := s)) b = (if b = c then s else x b)" for c s by simp
  from assms(1) have "fin_forced x y \<or> fin_env x y" by (simp add: fin_step_def)
  then show ?thesis
  proof
    assume "fin_forced x y"
    then show ?thesis
    proof cases
      case (deliver c)
      from assms(2) deliver(3) have "b \<noteq> c" by (cases b; cases c) simp_all
      then have "c = (\<not> b)" by blast
      with deliver(1) show ?thesis by simp
    next
      case (peer_gone c e)
      from assms(2) peer_gone(3) have "b \<noteq> c" by (cases b; cases c) simp_all
      then have "c = (\<not> b)" by blast
      with peer_gone(1) show ?thesis by simp
    next
      case (dtor_returns c)
      from assms(3) dtor_returns(3) have "b \<noteq> c" by (cases b; cases c) (simp_all add: on_dtor_start_returns_def)
      then have "c = (\<not> b)" by blast
      with dtor_returns(1) show ?thesis by simp
    qed (use assms(2-4) in \<open>auto simp: upd on_dtor_start_returns_def\<close>)
  next
    assume "fin_env x y"
    then show ?thesis
    proof cases
      case (channel_fails c e)
      from assms(2) channel_fails(3) have "b \<noteq> c" by (cases b; cases c) simp_all
      then have "c = (\<not> b)" by blast
      with channel_fails(1) show ?thesis by simp
    qed (use assms(2-4) in \<open>auto simp: upd\<close>)
  qed
qed

lemma blocked_stays:
  assumes "fin_step x y" "phase (x b) \<noteq> Finished" "fch (x b) = Ch_err_emitted" "\<not> is_done (x b)" "\<not> end_posted (x b)"
  shows "phase (y b) \<noteq> Finished \<and> fch (y b) = Ch_err_emitted \<and> \<not> is_done (y b) \<and> \<not> end_posted (y b)"
  using other_side_step [OF assms(1,3-5)] assms(2-5) by auto

text \<open>
  C18. The gap. Let sessions be configured for graceful finishing (\<^verbatim>\<open>S_GRACEFUL_FINISH_REQUIRED\<close>), and let an operation of a
  side itself have reported the channel's error, as the destructor's own sending of its message may, before the
  other side's end message was handled or even posted to this side's thread W, and before this side's wait was over for another
  reason. Then nobody sets the promise: whatever happens from then on, the wait is never over, so that the destructor of the client
  or of the server session does not return. (If the end message is posted already, its handler still sets the promise.)
\<close>

theorem graceful_finish_blocks_after_sync_error:
  assumes "fin_step\<^sup>*\<^sup>* x y" "phase (x b) \<noteq> Finished" "fch (x b) = Ch_err_emitted" "\<not> is_done (x b)" "\<not> end_posted (x b)"
    and cfg: "S_GRACEFUL_FINISH_REQUIRED cfg"
  shows "phase (y b) \<noteq> Finished \<and>
    (\<forall>c. Client_Session.m_graceful_finisher c = Some (finisher (y b)) \<longrightarrow> dtor_Client_session_impl cfg c = None) \<and>
    (\<forall>s. Server_Session.m_graceful_finisher s = Some (finisher (y b)) \<longrightarrow> dtor_Server_session_impl cfg s = None)"
proof -
  from assms(1) have "phase (y b) \<noteq> Finished \<and> fch (y b) = Ch_err_emitted \<and> \<not> is_done (y b) \<and> \<not> end_posted (y b)"
    by (induction rule: rtranclp_induct) (use assms(2-5) blocked_stays in blast)+
  with cfg show ?thesis
    by (simp add: dtor_Client_session_impl_def Client_Session.dtor_async_worker_stop_def
        dtor_Server_session_impl_def Server_Session.dtor_async_worker_stop_def on_dtor_start_returns_def)
qed

section \<open>Witnesses\<close>

definition demo_fin :: fin_side where
  "demo_fin = \<lparr> finisher = Graceful_finisher, sbase = Session_base_cli demo_cli_app demo_srv_app (Some 7) None, fch = Ch_ok,
     end_sent = False, end_posted = False, sync_failed = False, phase = Not_started \<rparr>"

lemma demo_fin_ini: "fin_ini (\<lambda>_. demo_fin)"
  by (simp add: fin_ini_def demo_fin_def Session_base_cli_def)

definition demo_started :: fin_side where
  "demo_started = demo_fin\<lparr> phase := Waiting, end_sent := True \<rparr>"

lemma demo_fin_reach: "reach fin_ini fin_step (\<lambda>_. demo_started)"
proof -
  let ?x = "(\<lambda>_. demo_fin)(True := demo_started)"
  have "fin_step (\<lambda>_. demo_fin) ?x"
    using fin_env.dtor_starts [of "\<lambda>_. demo_fin" True Sent_ok Ch_ok]
    by (simp add: fin_step_def demo_started_def demo_fin_def)
  moreover have "fin_step ?x (?x(False := demo_started))"
    using fin_env.dtor_starts [of ?x False Sent_ok Ch_ok]
    by (simp add: fin_step_def demo_started_def demo_fin_def)
  moreover have "?x(False := demo_started) = (\<lambda>_. demo_started)" by auto
  moreover have "reach fin_ini fin_step (\<lambda>_. demo_fin)" by (rule reach_init) (rule demo_fin_ini)
  ultimately show ?thesis by (metis reach_step)
qed

theorem graceful_finish_completes_witness: "\<exists>y. fin_forced\<^sup>*\<^sup>* (\<lambda>_. demo_started) y \<and> (\<forall>b. phase (y b) = Finished)"
  using graceful_finish_completes [OF demo_fin_reach] by (simp add: demo_started_def demo_fin_def)

theorem graceful_finish_safe_witness: "returns (peer_error (System_err 5) (finisher demo_started) (sbase demo_started))"
  using graceful_finish_safe [OF demo_fin_reach] by blast

theorem graceful_finish_blocks_after_sync_error_witness:
  "\<exists>x. fin_step (\<lambda>_. demo_fin) x \<and> phase (x True) = Waiting \<and> (\<forall>y. fin_step\<^sup>*\<^sup>* x y \<longrightarrow> phase (y True) \<noteq> Finished)"
proof -
  let ?s = "demo_fin\<lparr> phase := Waiting, fch := Ch_err_emitted, sync_failed := True \<rparr>"
  let ?x = "(\<lambda>_. demo_fin)(True := ?s)"
  have "fin_step (\<lambda>_. demo_fin) ?x"
    using fin_env.dtor_starts [of "\<lambda>_. demo_fin" True "Sent_err (System_err 32)" Ch_err_emitted]
    by (simp add: fin_step_def demo_fin_def)
  moreover have "phase (y True) \<noteq> Finished" if "fin_step\<^sup>*\<^sup>* ?x y" for y
    using graceful_finish_blocks_after_sync_error [OF that, of True "demo_cfg\<lparr> S_GRACEFUL_FINISH_REQUIRED := True \<rparr>"]
    by (simp add: demo_fin_def Graceful_finisher_def)
  ultimately show ?thesis by (intro exI [of _ ?x]) (simp add: demo_fin_def)
qed

end
