(* ===== verification/Session_Handles.thy ===== *)
theory Session_Handles
  imports Session_Protocol
begin

text \<open>
  The public, movable session objects (\<^verbatim>\<open>session.hpp\<close>, \<^verbatim>\<open>client_session.hpp\<close>, \<^verbatim>\<open>server_session.hpp\<close>) and the public session
  server (\<^verbatim>\<open>session_server.hpp\<close>). A \<^verbatim>\<open>Session_mv\<close> holds the session proper through a \<^verbatim>\<open>unique_ptr\<close>, which is null in an object
  that is default-constructed or moved from. Objects are numbered, and so are the sessions they hold.
\<close>

section \<open>Objects and the sessions they own\<close>

record 's objs =
  m_impl :: "nat \<Rightarrow> nat option" \<comment> \<open>by object: the session it owns\<close>
  live :: "nat set" \<comment> \<open>the objects that exist\<close>
  sessions :: "nat \<Rightarrow> 's"
  made :: nat \<comment> \<open>sessions \<open>0, \<dots>\<close> up to this one were made\<close>
  gone :: "nat list" \<comment> \<open>the sessions destroyed so far\<close>

definition no_objs :: "(nat \<Rightarrow> 's) \<Rightarrow> 's objs" where
  "no_objs f = \<lparr> m_impl = (\<lambda>_. None), live = {}, sessions = f, made = 0, gone = [] \<rparr>"

definition Session_mv_default :: "nat \<Rightarrow> 's objs \<Rightarrow> 's objs" where
  "Session_mv_default x h = h\<lparr> live := insert x (live h), m_impl := (m_impl h)(x := None) \<rparr>"

definition Session_mv_make :: "nat \<Rightarrow> 's \<Rightarrow> 's objs \<Rightarrow> 's objs" where
  "Session_mv_make x s h = h\<lparr> live := insert x (live h), m_impl := (m_impl h)(x := Some (made h)),
     sessions := (sessions h)(made h := s), made := made h + 1 \<rparr>"

definition Session_mv_move :: "nat \<Rightarrow> nat \<Rightarrow> 's objs \<Rightarrow> 's objs" where
  "Session_mv_move x y h = h\<lparr> live := insert x (live h), m_impl := (m_impl h)(x := m_impl h y, y := None) \<rparr>"

text \<open>As \<^verbatim>\<open>unique_ptr\<close> assigns: the source gives up its session, then the target's old one is destroyed.\<close>

definition Session_mv_assign :: "nat \<Rightarrow> nat \<Rightarrow> 's objs \<Rightarrow> 's objs" where
  "Session_mv_assign x y h =
     (let p = m_impl h y; impl = (m_impl h)(y := None) in
      h\<lparr> m_impl := impl(x := p), gone := gone h @ (case impl x of None \<Rightarrow> [] | Some i \<Rightarrow> [i]) \<rparr>)"

definition dtor_Session_mv :: "nat \<Rightarrow> 's objs \<Rightarrow> 's objs" where
  "dtor_Session_mv x h = h\<lparr> live := live h - {x}, m_impl := (m_impl h)(x := None),
     gone := gone h @ (case m_impl h x of None \<Rightarrow> [] | Some i \<Rightarrow> [i]) \<rparr>"

text \<open>A call that is forwarded to the session, or answered with \<open>null\<close> if there is none.\<close>

definition forward :: "'r \<Rightarrow> ('s \<Rightarrow> ('r \<times> 's) res) \<Rightarrow> nat \<Rightarrow> 's objs \<Rightarrow> ('r \<times> 's objs) res" where
  "forward null call x h = (case m_impl h x of
     None \<Rightarrow> Inr (null, h)
   | Some i \<Rightarrow> res_bind (call (sessions h i)) (\<lambda>(r, s). Inr (r, h\<lparr> sessions := (sessions h)(i := s) \<rparr>)))"

text \<open>Calls that do not change the session.\<close>

definition forward_const :: "'r \<Rightarrow> ('s \<Rightarrow> 'r res) \<Rightarrow> nat \<Rightarrow> 's objs \<Rightarrow> 'r res" where
  "forward_const null call x h = (case m_impl h x of None \<Rightarrow> Inr null | Some i \<Rightarrow> call (sessions h i))"

section \<open>Client sessions\<close>

definition Client_session_mv ::
    "nat \<Rightarrow> Client_app \<Rightarrow> Server_app \<Rightarrow> handler \<Rightarrow> handler option \<Rightarrow> client_session objs \<Rightarrow> client_session objs" where
  "Client_session_mv x cli srv on_err on_passive h = Session_mv_make x (Client_session_impl cli srv (Some on_err) on_passive) h"

definition mv_session_token :: "nat \<Rightarrow> client_session objs \<Rightarrow> nat option res" where
  "mv_session_token = forward_const None Client_Session.session_token"

definition mv_mdt_builder :: "nat \<Rightarrow> client_session objs \<Rightarrow> metadata_kind option res" where
  "mv_mdt_builder = forward_const None (\<lambda>s. Inr (Client_Session.mdt_builder s))"

definition mv_open_channel ::
    "session_cfg \<Rightarrow> open_env \<Rightarrow> mdt_builder option \<Rightarrow> error_code option \<Rightarrow> nat \<Rightarrow> client_session objs \<Rightarrow>
     (Client_Session.open_result \<times> client_session objs) res" where
  "mv_open_channel cfg env mdt err_code = forward (False, err_code, None) (Client_Session.open_channel cfg env mdt err_code)"

definition mv_open_channel_no_mdt ::
    "session_cfg \<Rightarrow> open_env \<Rightarrow> error_code option \<Rightarrow> nat \<Rightarrow> client_session objs \<Rightarrow>
     (Client_Session.open_result \<times> client_session objs) res" where
  "mv_open_channel_no_mdt cfg env err_code = forward (False, err_code, None) (Client_Session.open_channel_no_mdt cfg env err_code)"

definition mv_sync_connect ::
    "session_lib \<Rightarrow> session_cfg \<Rightarrow> connect_env \<Rightarrow> mdt_builder option \<Rightarrow> connect_out \<Rightarrow> handler \<Rightarrow> nat \<Rightarrow>
     client_session objs \<Rightarrow> (bool \<times> client_session objs) res" where
  "mv_sync_connect L cfg env mdt outs f = forward False (sync_connect_start L cfg env mdt outs f)"

definition mv_sync_connect_plain ::
    "session_lib \<Rightarrow> session_cfg \<Rightarrow> connect_env \<Rightarrow> handler \<Rightarrow> nat \<Rightarrow> client_session objs \<Rightarrow> (bool \<times> client_session objs) res" where
  "mv_sync_connect_plain L cfg env f = forward False (sync_connect_plain L cfg env f)"

section \<open>Server sessions\<close>

definition Server_session_mv :: "nat \<Rightarrow> process_id_t \<Rightarrow> Server_app \<Rightarrow> server_session objs \<Rightarrow> server_session objs" where
  "Server_session_mv x pid srv h = Session_mv_make x (Server_session_impl pid srv) h"

definition mv_client_app :: "nat \<Rightarrow> server_session objs \<Rightarrow> Client_app option res" where
  "mv_client_app = forward_const None (\<lambda>s. Inr (client_app s))"

definition mv_srv_session_token :: "nat \<Rightarrow> server_session objs \<Rightarrow> nat option res" where
  "mv_srv_session_token = forward_const None Server_Session.session_token"

definition mv_srv_mdt_builder ::
    "session_lib \<Rightarrow> session_cfg \<Rightarrow> resource_env \<Rightarrow> nat \<Rightarrow> server_session objs \<Rightarrow>
     (open_channel_req option \<times> server_session objs) res" where
  "mv_srv_mdt_builder L cfg env = forward None (Server_Session.mdt_builder L cfg env)"

definition mv_srv_open_channel ::
    "srv_open_env \<Rightarrow> open_channel_req option \<Rightarrow> error_code option \<Rightarrow> nat \<Rightarrow> server_session objs \<Rightarrow>
     (Server_Session.open_result \<times> server_session objs) res" where
  "mv_srv_open_channel env mdt err_code = forward (False, err_code, None) (Server_Session.open_channel env mdt err_code)"

definition mv_srv_open_channel_no_mdt ::
    "session_lib \<Rightarrow> session_cfg \<Rightarrow> resource_env \<Rightarrow> srv_open_env \<Rightarrow> error_code option \<Rightarrow> nat \<Rightarrow> server_session objs \<Rightarrow>
     (Server_Session.open_result \<times> server_session objs) res" where
  "mv_srv_open_channel_no_mdt L cfg renv env err_code =
     forward (False, err_code, None) (Server_Session.open_channel_no_mdt L cfg renv env err_code)"

definition mv_init_handlers ::
    "session_cfg \<Rightarrow> bool \<Rightarrow> handler \<Rightarrow> handler \<Rightarrow> nat \<Rightarrow> server_session objs \<Rightarrow> (bool \<times> server_session objs) res" where
  "mv_init_handlers cfg ok on_err on_passive = forward False (init_handlers cfg ok on_err on_passive)"

definition mv_init_handlers_no_passive ::
    "session_cfg \<Rightarrow> bool \<Rightarrow> handler \<Rightarrow> nat \<Rightarrow> server_session objs \<Rightarrow> (bool \<times> server_session objs) res" where
  "mv_init_handlers_no_passive cfg ok on_err = forward False (init_handlers_no_passive cfg ok on_err)"

text \<open>For the session server only, through \<^verbatim>\<open>Server_session_dtl\<close>: an object without a session trips an assertion.\<close>

definition mv_async_accept_log_in :: "accept_out \<Rightarrow> handler \<Rightarrow> nat \<Rightarrow> server_session objs \<Rightarrow> server_session objs res" where
  "mv_async_accept_log_in outs f x h =
     ensure (m_impl h x \<noteq> None) ''Session default ctor is meant only for being moved-to.  Internal bug?'' (
     res_bind (forward () (\<lambda>s. Inr ((), async_accept_log_in outs f s)) x h) (\<lambda>(_, h). Inr h))"

definition mv_base :: "nat \<Rightarrow> 's objs \<Rightarrow> 's res" where
  "mv_base x h =
     ensure (m_impl h x \<noteq> None) ''Session default ctor is meant only for being moved-to.  Internal bug?''
     (Inr (sessions h (the (m_impl h x))))"

section \<open>The session server\<close>

definition plain_out :: accept_out where
  "plain_out = \<lparr> out_by_srv_req = None, out_mdt_from_cli = None, out_by_cli_req = None \<rparr>"

text \<open>The overload of \<^verbatim>\<open>async_accept()\<close> without metadata and init-channels.\<close>

definition async_accept_plain :: "nat option \<Rightarrow> handler \<Rightarrow> session_server \<Rightarrow> session_server res" where
  "async_accept_plain target f s =
     Session_Server.async_accept target
       \<lparr> rq_target = 0, rq_out = plain_out, rq_n_init = (\<lambda>_ _ _. 0), rq_mdt_load = (\<lambda>_ _ _. []), rq_on_done = f \<rparr> s"

section \<open>Ownership\<close>

text \<open>What a program may do with its objects; a call (its result left out) leaves the objects as they are.\<close>

inductive objs_step :: "'s objs \<Rightarrow> 's objs \<Rightarrow> bool" where
  default_ctor: "x \<notin> live h \<Longrightarrow> objs_step h (Session_mv_default x h)"
| make: "x \<notin> live h \<Longrightarrow> objs_step h (Session_mv_make x s h)"
| move: "x \<notin> live h \<Longrightarrow> y \<in> live h \<Longrightarrow> objs_step h (Session_mv_move x y h)"
| assign: "x \<in> live h \<Longrightarrow> y \<in> live h \<Longrightarrow> objs_step h (Session_mv_assign x y h)"
| dtor: "x \<in> live h \<Longrightarrow> objs_step h (dtor_Session_mv x h)"
| call: "x \<in> live h \<Longrightarrow> forward () c x h = Inr ((), h') \<Longrightarrow> objs_step h h'"

text \<open>\<open>owned m G n\<close>: each of the sessions below \<open>n\<close> is in \<open>G\<close>, once, or belongs to one object.\<close>

definition owned :: "(nat \<Rightarrow> nat option) \<Rightarrow> nat list \<Rightarrow> nat \<Rightarrow> bool" where
  "owned m G n \<longleftrightarrow> inj_on m (dom m) \<and> distinct G \<and> set G \<inter> ran m = {} \<and> set G \<union> ran m = {..<n}"

lemma ran_drop: "inj_on m (dom m) \<Longrightarrow> m x = Some i \<Longrightarrow> ran (m(x := None)) = ran m - {i}"
  by (auto simp: ran_def inj_on_def dom_def) (metis option.inject)

lemma owned_drop:
  assumes "owned m G n" "m x = Some i"
  shows "owned (m(x := None)) (i # G) n"
proof -
  from assms have o: "inj_on m (dom m)" "distinct G" "set G \<inter> ran m = {}" "set G \<union> ran m = {..<n}"
    by (simp_all add: owned_def)
  have "i \<in> ran m" using assms(2) by (rule ranI)
  moreover have "inj_on (m(x := None)) (dom (m(x := None)))" using o(1) by (simp add: inj_on_def)
  ultimately show ?thesis using o by (simp add: owned_def ran_drop [OF o(1) assms(2)]) blast
qed

lemma owned_put:
  assumes "owned m (i # G) n" "m x = None"
  shows "owned (m(x \<mapsto> i)) G n"
proof -
  from assms have o: "inj_on m (dom m)" "i \<notin> set G" "distinct G" "set (i # G) \<inter> ran m = {}"
    "set (i # G) \<union> ran m = {..<n}"
    by (simp_all add: owned_def)
  have "m y \<noteq> Some i" for y using o(4) by (auto dest: ranI)
  with o(1) assms(2) have "inj_on (m(x \<mapsto> i)) (dom (m(x \<mapsto> i)))" by (auto simp: inj_on_def)
  moreover have "set G \<inter> ran (m(x \<mapsto> i)) = {}" using o(2,4) assms(2) by simp
  moreover have "set G \<union> ran (m(x \<mapsto> i)) = {..<n}" using o(5) assms(2) by simp
  ultimately show ?thesis using o(3) by (simp add: owned_def)
qed

lemma owned_new: "owned m G n \<Longrightarrow> m x = None \<Longrightarrow> owned (m(x \<mapsto> n)) G (Suc n)"
  using owned_put [of m n G "Suc n" x] by (auto simp: owned_def lessThan_Suc)

lemma owned_swap: "owned m (i # j # G) n \<longleftrightarrow> owned m (j # i # G) n" "owned m (G @ [i]) n \<longleftrightarrow> owned m (i # G) n"
  by (auto simp: owned_def)

definition destroy :: "nat option \<Rightarrow> nat list \<Rightarrow> nat list" where
  "destroy p G = G @ (case p of None \<Rightarrow> [] | Some i \<Rightarrow> [i])"

lemma owned_destroy: "owned m G n \<Longrightarrow> owned (m(x := None)) (destroy (m x) G) n"
  by (cases "m x") (simp_all add: destroy_def fun_upd_idem owned_swap(2) owned_drop)

lemma owned_move:
  assumes "owned m G n" "m x = None"
  shows "owned (m(x := m y, y := None)) G n"
proof (cases "m y")
  case None
  with assms show ?thesis by (simp add: fun_upd_idem)
next
  case (Some i)
  with assms(2) have "x \<noteq> y" by auto
  with owned_put [OF owned_drop [OF assms(1) Some], of x] assms(2) Some show ?thesis by (simp add: fun_upd_twist)
qed

lemma owned_assign:
  assumes "owned m G n"
  shows "owned ((m(y := None))(x := m y)) (destroy ((m(y := None)) x) G) n"
proof (cases "m y")
  case None
  with assms owned_destroy [OF assms, of x] show ?thesis by (simp add: fun_upd_idem)
next
  case (Some i)
  from owned_destroy [OF owned_drop [OF assms Some], of x] have
    "owned (m(y := None, x := None)) (i # destroy ((m(y := None)) x) G) n"
    by (simp add: destroy_def)
  from owned_put [OF this, of x] Some show ?thesis by simp
qed

definition objs_inv :: "'s objs \<Rightarrow> bool" where
  "objs_inv h \<longleftrightarrow> dom (m_impl h) \<subseteq> live h \<and> owned (m_impl h) (gone h) (made h)"

lemma forward_frame:
  assumes "forward null c x h = Inr (r, h')"
  shows "m_impl h' = m_impl h \<and> live h' = live h \<and> made h' = made h \<and> gone h' = gone h"
  using assms by (auto simp: forward_def res_bind_eq_Inr split: option.splits)

interpretation objs: invariant_system "\<lambda>h. \<exists>f. h = no_objs f" objs_step objs_inv
proof (unfold_locales, goal_cases)
  case (1 h)
  then show ?case by (auto simp: no_objs_def objs_inv_def owned_def)
next
  case (2 h h')
  then have d: "dom (m_impl h) \<subseteq> live h" and o: "owned (m_impl h) (gone h) (made h)" by (simp_all add: objs_inv_def)
  from 2(2) show ?case
  proof cases
    case (default_ctor x)
    with d have "m_impl h x = None" by blast
    with d o default_ctor(1) show ?thesis by (auto simp: objs_inv_def Session_mv_default_def fun_upd_idem)
  next
    case (make x s)
    with d have "m_impl h x = None" by blast
    with d owned_new [OF o this] make(1) show ?thesis by (auto simp: objs_inv_def Session_mv_make_def)
  next
    case (move x y)
    with d have "m_impl h x = None" by blast
    with d owned_move [OF o this, of y] move show ?thesis by (auto simp: objs_inv_def Session_mv_move_def split: if_splits)
  next
    case (assign x y)
    with d owned_assign [OF o, of y x] show ?thesis
      by (auto simp: objs_inv_def Session_mv_assign_def Let_def destroy_def split: if_splits)
  next
    case (dtor x)
    with d owned_destroy [OF o, of x] show ?thesis
      by (auto simp: objs_inv_def dtor_Session_mv_def destroy_def)
  next
    case (call x c)
    with 2(1) forward_frame [OF call(2)] show ?thesis by (simp add: objs_inv_def)
  qed
qed

text \<open>
  C19. Every session is owned once. Whatever objects are made, moved, assigned, used and destroyed in whatever order,
  no session is owned by two objects or destroyed twice, and none is lost: each one made is held by
  exactly one existing object or was destroyed. So when no object is left all sessions were destroyed, each once.
\<close>

theorem sessions_owned_once:
  assumes "reach (\<lambda>h. \<exists>f. h = no_objs f) objs_step h"
  shows "distinct (gone h) \<and>
    (\<forall>i < made h. i \<in> set (gone h) \<and> (\<forall>x. m_impl h x \<noteq> Some i) \<or>
       i \<notin> set (gone h) \<and> (\<exists>!x. m_impl h x = Some i) \<and> (\<exists>x \<in> live h. m_impl h x = Some i)) \<and>
    (live h = {} \<longrightarrow> set (gone h) = {..<made h})"
proof -
  from objs.reach_inv [OF assms] have d: "dom (m_impl h) \<subseteq> live h" and i: "inj_on (m_impl h) (dom (m_impl h))"
    and g: "distinct (gone h)" "set (gone h) \<inter> ran (m_impl h) = {}" "set (gone h) \<union> ran (m_impl h) = {..<made h}"
    by (simp_all add: objs_inv_def owned_def)
  have "i \<in> set (gone h) \<and> (\<forall>x. m_impl h x \<noteq> Some i) \<or>
       i \<notin> set (gone h) \<and> (\<exists>!x. m_impl h x = Some i) \<and> (\<exists>x \<in> live h. m_impl h x = Some i)" if "i < made h" for i
  proof (cases "i \<in> ran (m_impl h)")
    case True
    then obtain x where x: "m_impl h x = Some i" by (auto simp: ran_def)
    with i have "\<And>y. m_impl h y = Some i \<Longrightarrow> y = x" by (auto simp: inj_on_def dom_def)
    with x d True g(2) show ?thesis by blast
  next
    case False
    with that g(3) have "i \<in> set (gone h)" by blast
    moreover from False have "\<forall>x. m_impl h x \<noteq> Some i" by (auto simp: ran_def)
    ultimately show ?thesis by blast
  qed
  moreover have "set (gone h) = {..<made h}" if "live h = {}"
  proof -
    from that d have "m_impl h = Map.empty" by auto
    with g(3) show ?thesis by simp
  qed
  ultimately show ?thesis using g(1) by blast
qed

text \<open>What the call of an object must come to: that of the session \<open>i\<close> itself, whose new state is stored.\<close>

definition stored :: "nat \<Rightarrow> 's objs \<Rightarrow> ('r \<times> 's) res \<Rightarrow> ('r \<times> 's objs) res" where
  "stored i h m = res_bind m (\<lambda>(r, s). Inr (r, h\<lparr> sessions := (sessions h)(i := s) \<rparr>))"

text \<open>\<open>gets x y h h'\<close>: object \<open>x\<close> is made from, or assigned, what object \<open>y\<close> has.\<close>

definition gets :: "nat \<Rightarrow> nat \<Rightarrow> 's objs \<Rightarrow> 's objs \<Rightarrow> bool" where
  "gets x y h h' \<longleftrightarrow> h' = Session_mv_move x y h \<or> h' = Session_mv_assign x y h"

lemma gets_impl:
  assumes "gets x y h h'" "x \<noteq> y"
  shows "m_impl h' x = m_impl h y" "m_impl h' y = None" "sessions h' = sessions h"
  using assms by (auto simp: gets_def Session_mv_move_def Session_mv_assign_def Let_def)

lemma forward_moved:
  assumes "gets x y h h'" "x \<noteq> y" "m_impl h y = Some i"
  shows "forward n c x h' = stored i h' (c (sessions h i))" "forward n c y h' = Inr (n, h')"
    "forward_const n d x h' = d (sessions h i)" "forward_const n d y h' = Inr n"
  using gets_impl [OF assms(1,2)] assms(3) by (simp_all add: forward_def forward_const_def stored_def)

lemma self_assign: "Session_mv_assign x x h = h"
  by (simp add: Session_mv_assign_def Let_def)


section \<open>Witnesses\<close>

definition demo_objs :: "client_session objs" where
  "demo_objs = Session_mv_assign 1 0 (Session_mv_default 1 (Client_session_mv 0 demo_cli_app demo_srv_app 7 (Some 8)
     (no_objs (\<lambda>_. demo_c0))))"

lemma demo_objs_reach: "reach (\<lambda>h. \<exists>f. h = no_objs f) objs_step (dtor_Session_mv 0 (dtor_Session_mv 1 demo_objs))"
proof -
  let ?r = "reach (\<lambda>h. \<exists>f. h = no_objs f) objs_step"
  let ?a = "Client_session_mv 0 demo_cli_app demo_srv_app 7 (Some 8) (no_objs (\<lambda>_. demo_c0))"
  have "?r (no_objs (\<lambda>_. demo_c0))" by (rule reach_init) blast
  then have a: "?r ?a" unfolding Client_session_mv_def by (rule reach_step) (rule objs_step.make, simp add: no_objs_def)
  have live: "live ?a = {0}" by (simp add: Client_session_mv_def Session_mv_make_def no_objs_def)
  have b: "?r (Session_mv_default 1 ?a)" by (rule reach_step, rule a, rule objs_step.default_ctor) (simp add: live)
  have c: "?r demo_objs" unfolding demo_objs_def
    by (rule reach_step, rule b, rule objs_step.assign) (simp_all add: Session_mv_default_def live)
  have l: "live demo_objs = {0, 1}"
    by (auto simp: demo_objs_def Session_mv_assign_def Session_mv_default_def Let_def live)
  have d: "?r (dtor_Session_mv 1 demo_objs)" by (rule reach_step, rule c, rule objs_step.dtor) (simp add: l)
  show ?thesis by (rule reach_step, rule d, rule objs_step.dtor) (simp add: l dtor_Session_mv_def)
qed

theorem sessions_owned_once_witness: "set (gone (dtor_Session_mv 0 (dtor_Session_mv 1 demo_objs))) = {0}"
proof -
  have "live (dtor_Session_mv 0 (dtor_Session_mv 1 demo_objs)) = {}" "made (dtor_Session_mv 0 (dtor_Session_mv 1 demo_objs)) = 1"
    by (auto simp: demo_objs_def no_objs_def Client_session_mv_def Session_mv_make_def Session_mv_default_def
        Session_mv_assign_def dtor_Session_mv_def Let_def)
  with sessions_owned_once [OF demo_objs_reach] show ?thesis by auto
qed

lemma demo_gets:
  "gets 1 0 (Session_mv_make 0 s (no_objs f)) (Session_mv_move 1 0 (Session_mv_make 0 s (no_objs f)))"
  "m_impl (Session_mv_make 0 s (no_objs f)) 0 = Some 0" "sessions (Session_mv_make 0 s (no_objs f)) 0 = s"
  by (simp_all add: gets_def Session_mv_make_def no_objs_def)


end
