(* ===== verification/Open_Race.thy ===== *)
theory Open_Race
  imports Session_Protocol
begin

text \<open>
  Opening channels from both sides, with the threads. \<^verbatim>\<open>open_channel()\<close> posts its work to thread W of its session, which sends the request
  and waits for the response (\<^verbatim>\<open>sync_request()\<close>, with a timeout); a request that comes in is posted to thread W as well.
  So while a call waits, the side does not handle the other side's request. The machine here interleaves the
  calls, the messages and the handlers of a client and a server session in PEER state, on a
  channel that works; its invariant relates calls, messages and channels.
\<close>

section \<open>The calls and their answers\<close>

text \<open>What a call that waits has asked for: a client's metadata, or the request a server has prepared.\<close>

datatype call = Cli_call mdt | Srv_call open_channel_req

fun call_msg :: "call \<Rightarrow> msg" where
  "call_msg (Cli_call md) = \<lparr> body = OpenChannelToServerReq md, native_handle_or_null = None \<rparr>"
| "call_msg (Srv_call q) = open_channel_req_msg q"

type_synonym peers = "client_session \<times> server_session"

text \<open>
  The handler of a request, on the client (true) or the server: the responses it sends and the channels
  it hands to the user's passive-open handler, read off the logs of the session.
\<close>

definition race_serve ::
    "session_lib \<Rightarrow> session_cfg \<Rightarrow> bool \<Rightarrow> channel_env \<Rightarrow> resource_env \<Rightarrow> msg \<Rightarrow> peers \<Rightarrow>
     (msg list \<times> channel_obj list \<times> peers) res" where
  "race_serve L cfg b cenv renv m p = (case p of (c, s) \<Rightarrow>
     if b then res_bind (Client_Session.on_master_channel_open_channel_req cfg \<lparr> pe_channel = cenv, pe_rsp = Sent_ok \<rparr> m c)
       (\<lambda>c'. Inr (drop (length (sent c)) (sent c'),
          map (fst \<circ> snd) (drop (length (passive_calls c)) (passive_calls c')), c', s))
     else res_bind (Server_Session.on_master_channel_open_channel_req L cfg \<lparr> sp_resources = renv, sp_rsp = Sent_ok \<rparr> m s)
       (\<lambda>s'. Inr (drop (length (s_sent s)) (s_sent s'),
          map (fst \<circ> snd) (drop (length (s_passive_calls s)) (s_passive_calls s')), c, s')))"

text \<open>The call itself, from its start to its return, with the response it gets or none in time.\<close>

definition race_return ::
    "session_cfg \<Rightarrow> channel_env \<Rightarrow> call \<Rightarrow> msg option \<Rightarrow> peers \<Rightarrow> (open_result \<times> peers) res" where
  "race_return cfg cenv k rsp p =
     (let err = (if rsp = None then Some (Transport_err T_TIMEOUT) else None) in case p of (c, s) \<Rightarrow> (case k of
        Cli_call md \<Rightarrow> res_bind (Client_Session.open_channel cfg \<lparr> oe_rsp = rsp, oe_err = err, oe_channel = cenv \<rparr>
          (Some \<lparr> mb_kind = For_open_channel, mb_mdt = md \<rparr>) None c) (\<lambda>(r, c'). Inr (r, c', s))
      | Srv_call q \<Rightarrow> res_bind (Server_Session.open_channel \<lparr> so_rsp = rsp, so_err = err \<rparr> (Some q) None s)
          (\<lambda>(r, s'). Inr (r, c, s'))))"

definition timed_out :: open_result where
  "timed_out = (True, Some (Session_err S_SESSION_OPEN_CHANNEL_ACTIVE_TIMEOUT), None)"

text \<open>
  The two ends of a channel: \<open>a\<close> is what the opposing side's handler got, \<open>b\<close> what the call returns. In this and what
  follows \<open>e\<close> are the answers of the system with which the server made the channel: they say which socket pair it is.
\<close>

definition ends :: "session_cfg \<Rightarrow> resource_env \<Rightarrow> call \<Rightarrow> channel_obj \<Rightarrow> channel_obj \<Rightarrow> bool" where
  "ends cfg e k a b \<longleftrightarrow> (case k of Cli_call _ \<Rightarrow> paired cfg e a b | Srv_call _ \<Rightarrow> paired cfg e b a)"

text \<open>A server's request is one it has prepared, for resources it has.\<close>

definition call_ok :: "session_cfg \<Rightarrow> resource_env \<Rightarrow> call \<Rightarrow> bool" where
  "call_ok cfg e k \<longleftrightarrow> (case k of Cli_call _ \<Rightarrow> True
     | Srv_call q \<Rightarrow> \<exists>r md. fits cfg e r \<and> q = (prepared_req r)\<lparr> or_root := (or_root (prepared_req r))\<lparr> oc_mdt := md \<rparr> \<rparr>)"

text \<open>\<open>m\<close> answers \<open>k\<close>, the channels \<open>chs\<close> having been handed to the handler (one or none).\<close>

definition answers :: "session_cfg \<Rightarrow> resource_env \<Rightarrow> call \<Rightarrow> msg \<Rightarrow> channel_obj list \<Rightarrow> bool" where
  "answers cfg e k m chs \<longleftrightarrow> (case k of
     Cli_call _ \<Rightarrow> (\<exists>r res. m = open_channel_rsp_to_cli res r \<and>
       (res \<in> {REJECTED_PASSIVE_OPEN, REJECTED_RESOURCE_UNAVAILABLE} \<and> chs = [] \<or>
        res = ACCEPTED \<and> chs = [cr_channel r] \<and> fits cfg e r))
   | Srv_call q \<Rightarrow> m = open_channel_rsp_to_srv REJECTED_PASSIVE_OPEN \<and> chs = [] \<or>
       m = open_channel_rsp_to_srv ACCEPTED \<and> (\<exists>a. chs = [a] \<and> ends cfg e k a (or_opened_channel q)))"

text \<open>What a call that got a response returns: an error, or its end of the channel.\<close>

definition returned :: "session_cfg \<Rightarrow> resource_env \<Rightarrow> call \<Rightarrow> open_result \<Rightarrow> channel_obj list \<Rightarrow> bool" where
  "returned cfg e k res chs \<longleftrightarrow> (case chs of
     [] \<Rightarrow> res \<in> {(True, Some (Session_err S_SESSION_OPEN_CHANNEL_REMOTE_PEER_REJECTED_PASSIVE_OPEN), None),
       (True, Some (Session_err S_SESSION_OPEN_CHANNEL_SERVER_CANNOT_PROCEED_RESOURCE_UNAVAILABLE), None)}
   | [a] \<Rightarrow> \<exists>b. res = (True, None, Some b) \<and> ends cfg e k a b
   | _ \<Rightarrow> False)"

definition both_peers :: "session_lib \<Rightarrow> peers \<Rightarrow> bool" where
  "both_peers L p \<longleftrightarrow> client_peer (fst p) \<and> server_peer L (snd p)"

text \<open>The channels that the passive-open handler of the client (true) or the server was called with so far.\<close>

definition passed :: "bool \<Rightarrow> peers \<Rightarrow> channel_obj list" where
  "passed b p = map (fst \<circ> snd) (if b then passive_calls (fst p) else s_passive_calls (snd p))"

subsection \<open>What the sessions do\<close>

lemma client_serves:
  assumes "client_peer c" "call_ok cfg e (Srv_call q)" "channel_env_ok cenv"
  shows "\<exists>m chs c'. race_serve L cfg True cenv renv (call_msg (Srv_call q)) (c, s) = Inr ([m], chs, c', s) \<and>
    client_peer c' \<and> answers cfg e (Srv_call q) m chs \<and> passed True (c', s) = passed True (c, s) @ chs"
proof -
  let ?env = "\<lparr> pe_channel = cenv, pe_rsp = Sent_ok \<rparr>" and ?m = "open_channel_req_msg q"
  from assms(2) obtain r md where fit: "fits cfg e r"
    and q: "q = (prepared_req r)\<lparr> or_root := (or_root (prepared_req r))\<lparr> oc_mdt := md \<rparr> \<rparr>" by (auto simp: call_ok_def)
  note f = fits_fields [OF fit]
  have root: "body ?m = OpenChannelToClientReq (\<lparr> oc_mq_c2s_or_empty = cr_c2s r, oc_mq_s2c_or_empty = cr_s2c r, oc_mdt = md \<rparr>)"
    and hndl: "native_handle_or_null ?m = cr_remote_hndl r" and ch: "or_opened_channel q = cr_channel r"
    using f(1) by (simp_all add: q open_channel_req_msg_def prepared_req_def)
  have good: "good_channel_msg cfg ?m" unfolding good_channel_msg_def root hndl using f(2,3) by simp
  from assms(1) obtain h where c: "m_on_err_func c = Some h" "m_peer_state_err_code_or_ok c = None" "m_state c = S_PEER"
    by (auto simp: client_peer_def)
  have "channel_env_ok (pe_channel ?env)" using assms(3) by simp
  from cli_passive_open [OF c(1) good this] obtain c' where
    c': "Client_Session.on_master_channel_open_channel_req cfg ?env ?m c = Inr c'" and
    eff: "case m_on_passive_open_channel_func_or_empty c of
        None \<Rightarrow> sent c' = sent c @ [open_channel_rsp_to_srv REJECTED_PASSIVE_OPEN] \<and> passive_calls c' = passive_calls c
      | Some f \<Rightarrow> sent c' = sent c @ [open_channel_rsp_to_srv ACCEPTED] \<and>
          (\<exists>r. body ?m = OpenChannelToClientReq r \<and> passive_calls c' = passive_calls c @
             [(f, passive_channel cfg (Client_Session.m_last_passively_opened_channel_id c + 1) ?m, oc_mdt r)])"
    using c(2) by auto
  from open_channel_req_cases [OF c'] c obtain a p f chn mdt where
    "Client_Session.respond_passive_open Sent_ok f chn mdt (c\<lparr> Client_Session.m_last_actively_opened_channel_id := a,
       Client_Session.m_last_passively_opened_channel_id := p \<rparr>) = Inr c'" by auto
  from respond_passive_open_cases [OF this] c have peer: "client_peer c'" by (auto simp: client_peer_def)
  let ?b = "passive_channel cfg (Client_Session.m_last_passively_opened_channel_id c + 1) ?m"
  have pair: "paired cfg e (cr_channel r) ?b"
    unfolding passive_channel_def root hndl msg_body.case open_channel_to_client_req.simps by (rule f(5))
  show ?thesis
  proof (cases "m_on_passive_open_channel_func_or_empty c")
    case None
    with eff c' peer show ?thesis by (auto simp: race_serve_def answers_def passed_def)
  next
    case (Some g)
    with eff c' peer pair ch show ?thesis by (auto simp: race_serve_def answers_def ends_def passed_def)
  qed
qed

lemma server_serves:
  assumes "server_peer L s"
  shows "\<exists>m chs s'. race_serve L cfg False cenv renv (call_msg (Cli_call md)) (c, s) = Inr ([m], chs, c, s') \<and>
    server_peer L s' \<and> answers cfg renv (Cli_call md) m chs \<and> passed False (c, s') = passed False (c, s) @ chs"
proof -
  let ?env = "\<lparr> sp_resources = renv, sp_rsp = Sent_ok \<rparr>" and ?m = "\<lparr> body = OpenChannelToServerReq md, native_handle_or_null = None \<rparr>"
  let ?f = "m_on_passive_open_channel_func_or_empty s"
  from assms obtain h where s: "m_on_err_func s = Some h" "m_peer_state_err_code_or_ok s = None"
    "Server_Session.m_master_channel s \<noteq> None" "session_names_ok L s" by (auto simp: server_peer_def)
  from srv_passive_open [OF s, of ?m md ?env cfg, unfolded srv_passive_env.simps msg.simps, OF refl refl] obtain s' r where s':
    "Server_Session.on_master_channel_open_channel_req L cfg ?env ?m s = Inr s'"
    "s_sent s' = s_sent s @ [open_channel_rsp_to_cli
      (if ?f = None then REJECTED_PASSIVE_OPEN
       else if resources_available cfg renv then ACCEPTED else REJECTED_RESOURCE_UNAVAILABLE) r]"
    "s_passive_calls s' = s_passive_calls s @
      (case ?f of Some f \<Rightarrow> if resources_available cfg renv then [(f, cr_channel r, md)] else [] | None \<Rightarrow> [])"
    "?f \<noteq> None \<and> resources_available cfg renv \<longrightarrow> fits cfg renv r" "hosed s' = Inr False"
    by blast
  from srv_open_channel_req_cases [OF s'(1)] s(2) obtain t ms where
    t: "res_frame s t" "s' = t\<lparr> s_sent := ms \<rparr> \<or> (\<exists>c. s' = t\<lparr> s_sent := ms, s_passive_calls := c \<rparr>)" by auto
  from t(2) res_frame_fields [OF t(1)] session_names_ok_frame [OF t(1), of L] s s'(5) have "server_peer L s'"
    by (auto simp: server_peer_def session_names_ok_def)
  with s' show ?thesis by (cases ?f) (auto simp: race_serve_def answers_def passed_def)
qed

lemma client_returns:
  assumes "client_peer c" "answers cfg e (Cli_call md) m chs" "channel_env_ok cenv"
  shows "\<exists>res c'. race_return cfg cenv (Cli_call md) (Some m) (c, s) = Inr (res, c', s) \<and> client_peer c' \<and>
    passive_calls c' = passive_calls c \<and> returned cfg e (Cli_call md) res chs"
proof -
  from assms(2) obtain r res where m: "m = open_channel_rsp_to_cli res r" and
    v: "res \<in> {REJECTED_PASSIVE_OPEN, REJECTED_RESOURCE_UNAVAILABLE} \<and> chs = [] \<or>
        res = ACCEPTED \<and> chs = [cr_channel r] \<and> fits cfg e r" by (auto simp: answers_def)
  have op: "race_return cfg cenv (Cli_call md) (Some m) (c, s) =
      res_bind (open_channel_with_rsp cfg cenv m c) (\<lambda>(r, c'). Inr (r, c', s))"
    using assms(1) by (auto simp: race_return_def Client_Session.open_channel_def client_peer_def)
  from v show ?thesis
  proof (elim disjE conjE exE)
    assume "res \<in> {REJECTED_PASSIVE_OPEN, REJECTED_RESOURCE_UNAVAILABLE}" "chs = []"
    with op m assms(1) show ?thesis
      by (auto simp: open_channel_with_rsp_def open_channel_rsp_to_cli_def getOpenChannelToServerRsp_def
          rejection_def make_error_code_def returned_def)
  next
    assume v: "res = ACCEPTED" "chs = [cr_channel r]" and fit: "fits cfg e r"
    let ?n = "Client_Session.m_last_actively_opened_channel_id c + 1"
    let ?b = "Channel (''active'' @ to_string (unat ?n)) (Channel_obj cfg)
      (if S_MQS_ENABLED cfg then Some (cr_c2s r, cr_s2c r) else None) (cr_remote_hndl r)"
    have "open_channel_with_rsp cfg cenv m c =
        Inr ((True, None, Some ?b), c\<lparr> Client_Session.m_last_actively_opened_channel_id := ?n \<rparr>)"
      unfolding m v(1) using fits_fields(2,3) [OF fit] assms(3)
      by (auto simp: open_channel_with_rsp_def getOpenChannelToServerRsp_def open_channel_rsp_to_cli_def rejection_def
          create_channel_obj_def Client_Session.channel_nickname_def channel_env_ok_def Let_def)
    moreover have "client_peer (c\<lparr> Client_Session.m_last_actively_opened_channel_id := ?n \<rparr>)"
      using assms(1) by (simp add: client_peer_def)
    moreover have "ends cfg e (Cli_call md) (cr_channel r) ?b"
      unfolding ends_def call.case by (rule fits_fields(5) [OF fit])
    ultimately show ?thesis using op v(2) by (simp add: returned_def)
  qed
qed

lemma server_returns:
  assumes s: "server_peer L s" and k: "call_ok cfg e (Srv_call q)" and a: "answers cfg e (Srv_call q) m chs"
  shows "\<exists>res s'. race_return cfg cenv (Srv_call q) (Some m) (c, s) = Inr (res, c, s') \<and> server_peer L s' \<and>
    s_passive_calls s' = s_passive_calls s \<and> returned cfg e (Srv_call q) res chs"
proof -
  from s obtain g where g: "m_on_err_func s = Some g" "m_peer_state_err_code_or_ok s = None" by (auto simp: server_peer_def)
  have ne: "or_opened_channel q \<noteq> Blank" using k by (auto simp: call_ok_def prepared_req_def fits_def)
  let ?s = "s\<lparr> s_sent := s_sent s @ [open_channel_req_msg q] \<rparr>"
  have p: "server_peer L ?s" using s by (simp add: server_peer_def session_names_ok_def)
  note o = srv_open_channel [OF g ne, of "\<lparr> so_rsp = Some m, so_err = None \<rparr>" None]
  from a show ?thesis
    using o p by (auto simp: answers_def open_channel_rsp_to_srv_def race_return_def returned_def Let_def)
qed

lemma client_times_out:
  "client_peer c \<Longrightarrow> race_return cfg cenv (Cli_call md) None (c, s) = Inr (timed_out, c, s)"
  by (auto simp: race_return_def Client_Session.open_channel_def client_peer_def timed_out_def make_error_code_def)

lemma server_times_out:
  assumes s: "server_peer L s" and k: "call_ok cfg e (Srv_call q)"
  shows "\<exists>s'. race_return cfg cenv (Srv_call q) None (c, s) = Inr (timed_out, c, s') \<and> server_peer L s' \<and>
    s_passive_calls s' = s_passive_calls s"
proof -
  from s obtain g where g: "m_on_err_func s = Some g" "m_peer_state_err_code_or_ok s = None" by (auto simp: server_peer_def)
  have ne: "or_opened_channel q \<noteq> Blank" using k by (auto simp: call_ok_def prepared_req_def fits_def)
  from srv_open_channel [OF g ne, of "\<lparr> so_rsp = None, so_err = Some (Transport_err T_TIMEOUT) \<rparr>" None] s show ?thesis
    by (auto simp: race_return_def timed_out_def server_peer_def session_names_ok_def)
qed

text \<open>The same for either side: the sessions stay in PEER state, answers fit the calls, and calls return.\<close>

fun opener :: "call \<Rightarrow> bool" where
  "opener (Cli_call _) = True"
| "opener (Srv_call _) = False"

lemma serves:
  assumes "both_peers L p" "call_ok cfg e k" "channel_env_ok cenv"
  shows "\<exists>m chs p'. race_serve L cfg (\<not> opener k) cenv renv (call_msg k) p = Inr ([m], chs, p') \<and>
    both_peers L p' \<and> answers cfg (if opener k then renv else e) k m chs \<and> passed (opener k) p' = passed (opener k) p \<and>
    passed (\<not> opener k) p' = passed (\<not> opener k) p @ chs"
proof (cases k; cases p)
  fix md c s assume k: "k = Cli_call md" and p: "p = (c, s)"
  with assms server_serves [of L s cfg cenv renv md c] show ?thesis unfolding both_peers_def passed_def by fastforce
next
  fix q c s assume k: "k = Srv_call q" and p: "p = (c, s)"
  with assms client_serves [of c cfg e q cenv L renv s] show ?thesis unfolding both_peers_def passed_def by fastforce
qed

lemma returns_answered:
  assumes "both_peers L p" "call_ok cfg e k" "answers cfg e k m chs" "channel_env_ok cenv"
  shows "\<exists>res p'. race_return cfg cenv k (Some m) p = Inr (res, p') \<and> both_peers L p' \<and> returned cfg e k res chs \<and> passed b p' = passed b p"
proof (cases k; cases p)
  fix md c s assume k: "k = Cli_call md" and p: "p = (c, s)"
  with assms client_returns [of c cfg e md m chs cenv s] show ?thesis unfolding both_peers_def passed_def by fastforce
next
  fix q c s assume k: "k = Srv_call q" and p: "p = (c, s)"
  with assms server_returns [of L s cfg e q m chs cenv c] show ?thesis unfolding both_peers_def passed_def by fastforce
qed

lemma returns_timed_out:
  assumes "both_peers L p" "call_ok cfg e k"
  shows "\<exists>p'. race_return cfg cenv k None p = Inr (timed_out, p') \<and> both_peers L p' \<and> passed b p' = passed b p"
proof (cases k; cases p)
  fix md c s assume k: "k = Cli_call md" and p: "p = (c, s)"
  with assms client_times_out [of c cfg cenv md s] show ?thesis unfolding both_peers_def passed_def by fastforce
next
  fix q c s assume k: "k = Srv_call q" and p: "p = (c, s)"
  with assms server_times_out [of L s cfg e q cenv c] show ?thesis unfolding both_peers_def passed_def by fastforce
qed

lemma returned_not_timed_out: "returned cfg e k res chs \<Longrightarrow> res \<noteq> timed_out"
  by (cases chs rule: remdups_adj.cases) (auto simp: returned_def timed_out_def)

section \<open>The machine\<close>

text \<open>Messages are numbered by the request they belong to, as the structured channel does.\<close>

datatype net_msg = Req nat msg | Rsp nat msg

fun reqs :: "net_msg list \<Rightarrow> (nat \<times> msg) list" where
  "reqs [] = []"
| "reqs (Req i m # q) = (i, m) # reqs q"
| "reqs (Rsp i m # q) = reqs q"

fun rsps :: "net_msg list \<Rightarrow> (nat \<times> msg) list" where
  "rsps [] = []"
| "rsps (Req i m # q) = rsps q"
| "rsps (Rsp i m # q) = (i, m) # rsps q"

text \<open>
  One side: the call for whose response its thread W waits, the messages on their way to it, the requests
  that wait for thread W, and logs: what its calls asked for and returned, and by request the
  channels handed to its passive-open handler. Of the system, \<open>prepared\<close> are the requests the server has ready, each with the answers its channel was made
  with, and \<open>renv_of\<close> logs, by the caller's side and the request, the answers with which the server made its channel.
\<close>

record race_side =
  waits :: "(nat \<times> call) option"
  inbox :: "net_msg list"
  posted :: "(nat \<times> msg) list"
  asked :: "(nat \<times> call) list"
  results :: "(nat \<times> open_result) list"
  handed :: "(nat \<times> channel_obj) list"

record race_sys =
  two :: peers
  side :: "bool \<Rightarrow> race_side" \<comment> \<open>true for the client\<close>
  prepared :: "(resource_env \<times> open_channel_req) list"
  next_id :: nat
  renv_of :: "bool \<Rightarrow> nat \<Rightarrow> resource_env"

definition race_ini :: "session_lib \<Rightarrow> race_sys \<Rightarrow> bool" where
  "race_ini L x \<longleftrightarrow> both_peers L (two x) \<and> (\<forall>b. passed b (two x) = []) \<and> prepared x = [] \<and> next_id x = 0 \<and>
     side x = (\<lambda>_. \<lparr> waits = None, inbox = [], posted = [], asked = [], results = [], handed = [] \<rparr>)"

text \<open>
  What happens by itself. The channel's own thread takes in a message: a request is posted to thread W;
  a response ends the wait of the call it belongs to, and one that comes too late is ignored. Thread
  W, if no call waits in it, handles the requests in order; when it is the server's, it makes the channel now.
\<close>

inductive race_forced :: "session_lib \<Rightarrow> session_cfg \<Rightarrow> race_sys \<Rightarrow> race_sys \<Rightarrow> bool"
  for L :: session_lib and cfg :: session_cfg where
  receive_req:
    "inbox (side x b) = Req i m # q \<Longrightarrow>
     race_forced L cfg x (x\<lparr> side := (side x)(b := (side x b)\<lparr> inbox := q, posted := posted (side x b) @ [(i, m)] \<rparr>) \<rparr>)"
| receive_rsp:
    "inbox (side x b) = Rsp i m # q \<Longrightarrow> waits (side x b) = Some (i, k) \<Longrightarrow> channel_env_ok cenv \<Longrightarrow>
     race_return cfg cenv k (Some m) (two x) = Inr (res, p) \<Longrightarrow>
     race_forced L cfg x (x\<lparr> two := p, side := (side x)(b := (side x b)\<lparr> inbox := q, waits := None,
       results := results (side x b) @ [(i, res)] \<rparr>) \<rparr>)"
| ignore_rsp:
    "inbox (side x b) = Rsp i m # q \<Longrightarrow> (\<forall>k. waits (side x b) \<noteq> Some (i, k)) \<Longrightarrow>
     race_forced L cfg x (x\<lparr> side := (side x)(b := (side x b)\<lparr> inbox := q \<rparr>) \<rparr>)"
| handle_req:
    "waits (side x b) = None \<Longrightarrow> posted (side x b) = (i, m) # q \<Longrightarrow> channel_env_ok cenv \<Longrightarrow>
     race_serve L cfg b cenv renv m (two x) = Inr (ms, chs, p) \<Longrightarrow>
     race_forced L cfg x (x\<lparr> two := p, side := (side x)(
       b := (side x b)\<lparr> posted := q, handed := handed (side x b) @ map (Pair i) chs \<rparr>,
       \<not> b := (side x (\<not> b))\<lparr> inbox := inbox (side x (\<not> b)) @ map (Rsp i) ms \<rparr>),
       renv_of := (renv_of x)(\<not> b := (renv_of x (\<not> b))(i := (if b then renv_of x (\<not> b) i else renv))) \<rparr>)"

text \<open>What else may happen: the server prepares a request, either user calls \<^verbatim>\<open>open_channel()\<close>, a wait times out.\<close>

definition may_ask :: "race_sys \<Rightarrow> call \<Rightarrow> resource_env \<Rightarrow> (resource_env \<times> open_channel_req) list \<Rightarrow> bool" where
  "may_ask x k e rest \<longleftrightarrow> (case k of Cli_call _ \<Rightarrow> rest = prepared x
     | Srv_call q \<Rightarrow> \<exists>q0 md. (e, q0) \<in> set (prepared x) \<and> rest = remove1 (e, q0) (prepared x) \<and>
         q = q0\<lparr> or_root := (or_root q0)\<lparr> oc_mdt := md \<rparr> \<rparr>)"

inductive race_env :: "session_lib \<Rightarrow> session_cfg \<Rightarrow> race_sys \<Rightarrow> race_sys \<Rightarrow> bool"
  for L :: session_lib and cfg :: session_cfg where
  prepares:
    "waits (side x False) = None \<Longrightarrow> Server_Session.mdt_builder L cfg renv (snd (two x)) = Inr (Some q, s) \<Longrightarrow>
     race_env L cfg x (x\<lparr> two := (fst (two x), s),
       prepared := (if or_opened_channel q = Blank then prepared x else prepared x @ [(renv, q)]) \<rparr>)"
| opens:
    "waits (side x b) = None \<Longrightarrow> opener k = b \<Longrightarrow> may_ask x k e rest \<Longrightarrow>
     race_env L cfg x (x\<lparr> prepared := rest, next_id := next_id x + 1, side := (side x)(
       b := (side x b)\<lparr> waits := Some (next_id x, k), asked := asked (side x b) @ [(next_id x, k)] \<rparr>,
       \<not> b := (side x (\<not> b))\<lparr> inbox := inbox (side x (\<not> b)) @ [Req (next_id x) (call_msg k)] \<rparr>),
       renv_of := (renv_of x)(b := (renv_of x b)(next_id x := e)) \<rparr>)"
| times_out:
    "waits (side x b) = Some (i, k) \<Longrightarrow> race_return cfg cenv k None (two x) = Inr (res, p) \<Longrightarrow>
     race_env L cfg x (x\<lparr> two := p, side := (side x)(b := (side x b)\<lparr> waits := None,
       results := results (side x b) @ [(i, res)] \<rparr>) \<rparr>)"

definition race_step :: "session_lib \<Rightarrow> session_cfg \<Rightarrow> race_sys \<Rightarrow> race_sys \<Rightarrow> bool" where
  "race_step L cfg x y \<longleftrightarrow> race_forced L cfg x y \<or> race_env L cfg x y"

section \<open>The invariant\<close>

text \<open>The channels handed over for request \<open>i\<close>.\<close>

definition chs_for :: "nat \<Rightarrow> (nat \<times> channel_obj) list \<Rightarrow> channel_obj list" where
  "chs_for i H = map snd (filter (\<lambda>(j, _). j = i) H)"

definition at_most_one :: "(nat \<times> channel_obj) list \<Rightarrow> bool" where
  "at_most_one H \<longleftrightarrow> (\<forall>i. length (chs_for i H) \<le> 1)"

lemma chs_for_append [simp]: "chs_for i (H @ map (Pair j) chs) = chs_for i H @ (if i = j then chs else [])"
  by (auto simp: chs_for_def filter_map comp_def)

text \<open>
  The invariant of one direction. \<open>transit\<close>: of the opener's calls \<open>A\<close>, the responses \<open>rs\<close> on their way, and at the other side the
  requests on their way \<open>rq\<close> and posted \<open>po\<close>, and the channels \<open>H\<close> handed over. A request is in flight at most once; until it
  is answered no channel was handed over for it; a response fits the request and the channel handed
  over. \<open>calls\<close>: the wait \<open>W\<close> and the results \<open>R\<close>, where \<open>F\<close> are the requests in flight.
\<close>

definition transit :: "session_cfg \<Rightarrow> nat \<Rightarrow> bool \<Rightarrow> (nat \<Rightarrow> resource_env) \<Rightarrow> (nat \<times> call) list \<Rightarrow> (nat \<times> msg) list \<Rightarrow> (nat \<times> msg) list \<Rightarrow>
    (nat \<times> msg) list \<Rightarrow> (nat \<times> channel_obj) list \<Rightarrow> bool" where
  "transit cfg n b E A rs rq po H \<longleftrightarrow> distinct (map fst A) \<and> distinct (map fst rq @ map fst po @ map fst rs) \<and>
     (\<forall>i k. (i, k) \<in> set A \<longrightarrow> i < n \<and> call_ok cfg (E i) k \<and> opener k = b) \<and>
     (\<forall>i m. (i, m) \<in> set rq \<or> (i, m) \<in> set po \<longrightarrow> (\<exists>k. (i, k) \<in> set A \<and> m = call_msg k) \<and> chs_for i H = []) \<and>
     (\<forall>i m. (i, m) \<in> set rs \<longrightarrow> (\<exists>k. (i, k) \<in> set A \<and> answers cfg (E i) k m (chs_for i H))) \<and>
     fst ` set H \<subseteq> fst ` set A \<and> at_most_one H"

definition calls :: "session_cfg \<Rightarrow> (nat \<Rightarrow> resource_env) \<Rightarrow> (nat \<times> call) list \<Rightarrow> (nat \<times> call) option \<Rightarrow> (nat \<times> open_result) list \<Rightarrow>
    nat set \<Rightarrow> (nat \<times> channel_obj) list \<Rightarrow> bool" where
  "calls cfg E A W R F H \<longleftrightarrow> distinct (map fst R) \<and>
     (\<forall>i k. W = Some (i, k) \<longrightarrow> (i, k) \<in> set A \<and> i \<notin> fst ` set R \<and> i \<in> F) \<and>
     (\<forall>i res. (i, res) \<in> set R \<longrightarrow>
        (\<exists>k. (i, k) \<in> set A \<and> (res = timed_out \<or> i \<notin> F \<and> returned cfg (E i) k res (chs_for i H)))) \<and>
     (\<forall>i k. (i, k) \<in> set A \<longrightarrow> W = Some (i, k) \<or> i \<in> fst ` set R)"

definition dir :: "session_cfg \<Rightarrow> nat \<Rightarrow> bool \<Rightarrow> (nat \<Rightarrow> resource_env) \<Rightarrow> (nat \<times> call) list \<Rightarrow> (nat \<times> call) option \<Rightarrow> (nat \<times> open_result) list \<Rightarrow>
    (nat \<times> msg) list \<Rightarrow> (nat \<times> msg) list \<Rightarrow> (nat \<times> msg) list \<Rightarrow> (nat \<times> channel_obj) list \<Rightarrow> bool" where
  "dir cfg n b E A W R rs rq po H \<longleftrightarrow> transit cfg n b E A rs rq po H \<and>
     calls cfg E A W R (fst ` set rq \<union> fst ` set po \<union> fst ` set rs) H"

lemma asked_once: "distinct (map fst A) \<Longrightarrow> (i, k) \<in> set A \<Longrightarrow> (i, k') \<in> set A \<Longrightarrow> k' = k"
  by (metis eq_key_imp_eq_value)

lemma fst_set: "i \<in> fst ` set M \<longleftrightarrow> (\<exists>m. (i, m) \<in> set M)"
  by force

lemma ids_sub: "fst ` set M \<subseteq> fst ` set A \<longleftrightarrow> (\<forall>i m. (i, m) \<in> set M \<longrightarrow> (\<exists>k. (i, k) \<in> set A))"
  unfolding subset_iff fst_set by blast

lemma transit_req: "transit cfg n b E A rs rq po H \<Longrightarrow> (i, m) \<in> set rq \<or> (i, m) \<in> set po \<Longrightarrow>
    (\<exists>k. (i, k) \<in> set A \<and> m = call_msg k) \<and> chs_for i H = []"
  unfolding transit_def by blast

lemma transit_rsp: "transit cfg n b E A rs rq po H \<Longrightarrow> (i, m) \<in> set rs \<Longrightarrow>
    \<exists>k. (i, k) \<in> set A \<and> answers cfg (E i) k m (chs_for i H)"
  unfolding transit_def by blast

lemma transit_asked: "transit cfg n b E A rs rq po H \<Longrightarrow> (i, k) \<in> set A \<Longrightarrow> i < n \<and> call_ok cfg (E i) k \<and> opener k = b"
  unfolding transit_def by blast

lemma transitI:
  assumes "distinct (map fst A)" "distinct (map fst rq @ map fst po @ map fst rs)"
    "\<And>i k. (i, k) \<in> set A \<Longrightarrow> i < n \<and> call_ok cfg (E i) k \<and> opener k = b"
    "\<And>i m. (i, m) \<in> set rq \<or> (i, m) \<in> set po \<Longrightarrow> (\<exists>k. (i, k) \<in> set A \<and> m = call_msg k) \<and> chs_for i H = []"
    "\<And>i m. (i, m) \<in> set rs \<Longrightarrow> \<exists>k. (i, k) \<in> set A \<and> answers cfg (E i) k m (chs_for i H)"
    "fst ` set H \<subseteq> fst ` set A" "at_most_one H"
  shows "transit cfg n b E A rs rq po H"
  unfolding transit_def by (intro conjI allI impI) (use assms in simp_all)

lemma transit_ids:
  assumes t: "transit cfg n b E A rs rq po H"
  shows "fst ` set rq \<union> fst ` set po \<union> fst ` set rs \<subseteq> fst ` set A"
proof -
  have "fst ` set rq \<subseteq> fst ` set A" "fst ` set po \<subseteq> fst ` set A"
    using transit_req [OF t] unfolding ids_sub by blast+
  moreover have "fst ` set rs \<subseteq> fst ` set A" using transit_rsp [OF t] unfolding ids_sub by blast
  ultimately show ?thesis by simp
qed

lemma calls_ids: "calls cfg E A W R F H \<Longrightarrow> fst ` set R \<subseteq> fst ` set A"
  unfolding calls_def ids_sub by blast

lemma calls_result:
  assumes "calls cfg E A (Some (i, k)) R F H" "res = timed_out \<or> i \<notin> G \<and> returned cfg (E i) k res (chs_for i H)" "G \<subseteq> F"
  shows "calls cfg E A None (R @ [(i, res)]) G H"
proof -
  from assms(1) have k: "(i, k) \<in> set A" and i: "i \<notin> fst ` set R" by (simp_all add: calls_def)
  have "\<exists>l. (j, l) \<in> set A \<and> (r = timed_out \<or> j \<notin> G \<and> returned cfg (E j) l r (chs_for j H))" if r: "(j, r) \<in> set (R @ [(i, res)])" for j r
  proof (cases "(j, r) \<in> set R")
    case True
    with assms(1) have "\<exists>l. (j, l) \<in> set A \<and> (r = timed_out \<or> j \<notin> F \<and> returned cfg (E j) l r (chs_for j H))"
      unfolding calls_def by blast
    with assms(3) show ?thesis by blast
  next
    case False
    with r have "j = i" "r = res" by auto
    with k assms(2) show ?thesis by blast
  qed
  moreover have "j \<in> fst ` set (R @ [(i, res)])" if "(j, l) \<in> set A" for j l
    using that assms(1) unfolding calls_def by auto
  ultimately show ?thesis using assms(1) i unfolding calls_def by simp
qed

lemma calls_less: "calls cfg E A W R F H \<Longrightarrow> G \<subseteq> F \<Longrightarrow> (\<forall>i k. W = Some (i, k) \<longrightarrow> i \<in> G) \<Longrightarrow> calls cfg E A W R G H"
  unfolding calls_def by blast

lemma dir_arrive: "dir cfg n b E A W R rs ((i, m) # rq) po H \<Longrightarrow> dir cfg n b E A W R rs rq (po @ [(i, m)]) H"
  unfolding dir_def transit_def by (auto simp: insert_commute Un_commute Un_left_commute)

lemma transit_drop:
  "transit cfg n b E A ((i, m) # rs) rq po H \<Longrightarrow> transit cfg n b E A rs rq po H \<and> i \<notin> fst ` set rq \<union> fst ` set po \<union> fst ` set rs"
  unfolding transit_def by auto

lemma dir_ignore:
  assumes "dir cfg n b E A W R ((i, m) # rs) rq po H" "\<forall>k. W \<noteq> Some (i, k)"
  shows "dir cfg n b E A W R rs rq po H"
proof -
  let ?G = "fst ` set rq \<union> fst ` set po \<union> fst ` set rs"
  from assms(1) have c: "calls cfg E A W R (insert i ?G) H" by (simp add: dir_def)
  with assms(2) have "\<forall>j k. W = Some (j, k) \<longrightarrow> j \<in> ?G" unfolding calls_def by blast
  with c have "calls cfg E A W R ?G H" by (intro calls_less [OF c]) auto
  with assms(1) transit_drop show ?thesis unfolding dir_def by blast
qed

lemma dir_return:
  assumes "dir cfg n b E A (Some (i, k)) R ((i, m) # rs) rq po H" "returned cfg (E i) k res (chs_for i H)"
  shows "dir cfg n b E A None (R @ [(i, res)]) rs rq po H"
proof -
  from assms(1) have c: "calls cfg E A (Some (i, k)) R (insert i (fst ` set rq \<union> fst ` set po \<union> fst ` set rs)) H"
    and t: "transit cfg n b E A ((i, m) # rs) rq po H" by (simp_all add: dir_def)
  from calls_result [OF c, of res "fst ` set rq \<union> fst ` set po \<union> fst ` set rs"] transit_drop [OF t] assms(2)
  show ?thesis unfolding dir_def by blast
qed

lemma dir_times_out: "dir cfg n b E A (Some (i, k)) R rs rq po H \<Longrightarrow> dir cfg n b E A None (R @ [(i, timed_out)]) rs rq po H"
  unfolding dir_def by (blast intro: calls_result)

lemma dir_serve:
  assumes d: "dir cfg n b E A W R rs rq ((i, m) # po) H" and k: "(i, k) \<in> set A" "answers cfg (E i) k m' chs"
  shows "dir cfg n b E A W R (rs @ [(i, m')]) rq po (H @ map (Pair i) chs)"
proof -
  let ?H = "H @ map (Pair i) chs" and ?F = "fst ` set rq \<union> fst ` set ((i, m) # po) \<union> fst ` set rs"
  from d have t: "transit cfg n b E A rs rq ((i, m) # po) H" and c: "calls cfg E A W R ?F H" by (simp_all add: dir_def)
  from t have i: "chs_for i H = []" "i \<notin> fst ` set rq" "i \<notin> fst ` set po" "i \<notin> fst ` set rs" by (auto simp: transit_def)
  have ne: "(j, l) \<in> set rq \<or> (j, l) \<in> set po \<or> (j, l) \<in> set rs \<Longrightarrow> j \<noteq> i" for j l using i(2-4) by force
  have iA: "i \<in> fst ` set A" unfolding fst_set using k(1) by blast
  have "fst ` set ?H \<subseteq> insert i (fst ` set H)" "fst ` set H \<subseteq> fst ` set A" using t by (auto simp: transit_def)
  with iA have "fst ` set ?H \<subseteq> fst ` set A" by blast
  moreover have "distinct (map fst rq @ map fst po @ map fst (rs @ [(i, m')]))" using t i by (auto simp: transit_def)
  moreover have "(\<exists>k. (j, k) \<in> set A \<and> l = call_msg k) \<and> chs_for j ?H = []" if "(j, l) \<in> set rq \<or> (j, l) \<in> set po" for j l
    using transit_req [OF t, of j l] that ne [of j l] by auto
  moreover have "\<exists>k. (j, k) \<in> set A \<and> answers cfg (E j) k l (chs_for j ?H)" if "(j, l) \<in> set (rs @ [(i, m')])" for j l
  proof (cases "(j, l) \<in> set rs")
    case True
    with ne [of j l] transit_rsp [OF t True] show ?thesis by simp
  next
    case False
    with that k i(1) show ?thesis by auto
  qed
  moreover have "length chs \<le> 1" using k(2) by (auto simp: answers_def split: call.splits)
  with i(1) t have "at_most_one ?H" by (simp add: transit_def at_most_one_def)
  ultimately have "transit cfg n b E A (rs @ [(i, m')]) rq po ?H"
    using t transit_asked [OF t] transit_req [OF t] ne by (intro transitI) (simp_all add: transit_def)
  moreover have "i \<in> ?F" by simp
  then have "j \<notin> ?F \<Longrightarrow> chs_for j ?H = chs_for j H" for j by auto
  with c have "calls cfg E A W R ?F ?H" unfolding calls_def by metis
  then have "calls cfg E A W R (fst ` set rq \<union> fst ` set po \<union> fst ` set (rs @ [(i, m')])) ?H"
    by (simp add: Un_insert_right insert_commute)
  ultimately show ?thesis by (simp add: dir_def)
qed

lemma dir_ask:
  assumes d: "dir cfg n b E A None R rs rq po H" and k: "call_ok cfg (E n) k" "opener k = b"
  shows "dir cfg (n + 1) b E (A @ [(n, k)]) (Some (n, k)) R rs (rq @ [(n, call_msg k)]) po H"
proof -
  let ?F = "fst ` set rq \<union> fst ` set po \<union> fst ` set rs"
  from d have t: "transit cfg n b E A rs rq po H" and c: "calls cfg E A None R ?F H" by (simp_all add: dir_def)
  have A: "j \<in> fst ` set A \<Longrightarrow> j < n" for j using transit_asked [OF t, of j] unfolding fst_set by blast
  note F = transit_ids [OF t] and R = calls_ids [OF c]
  have H: "fst ` set H \<subseteq> fst ` set A" using t by (simp add: transit_def)
  have n0: "n \<notin> fst ` set A" using A by blast
  then have sub: "M \<subseteq> fst ` set A \<Longrightarrow> n \<notin> M" for M by blast
  note n = n0 sub [OF F] sub [OF R] sub [OF H]
  have h: "chs_for n H = []" using n(4) unfolding fst_set by (auto simp: chs_for_def filter_empty_conv)
  let ?A = "A @ [(n, k)]" and ?rq = "rq @ [(n, call_msg k)]"
  have "distinct (map fst ?A)" "distinct (map fst ?rq @ map fst po @ map fst rs)" "fst ` set H \<subseteq> fst ` set ?A"
    using t n by (auto simp: transit_def)
  moreover have "j < n + 1 \<and> call_ok cfg (E j) l \<and> opener l = b" if "(j, l) \<in> set ?A" for j l
    using transit_asked [OF t, of j l] k that by auto
  moreover have "(\<exists>k. (j, k) \<in> set ?A \<and> l = call_msg k) \<and> chs_for j H = []" if "(j, l) \<in> set ?rq \<or> (j, l) \<in> set po" for j l
    using transit_req [OF t, of j l] that h by auto
  moreover have "\<exists>k. (j, k) \<in> set ?A \<and> answers cfg (E j) k l (chs_for j H)" if "(j, l) \<in> set rs" for j l
    using transit_rsp [OF t that] by auto
  moreover have "at_most_one H" using t by (simp add: transit_def)
  ultimately have "transit cfg (n + 1) b E ?A rs ?rq po H" by (intro transitI) simp_all
  moreover have "\<exists>l. (j, l) \<in> set ?A \<and> (r = timed_out \<or> j \<notin> insert n ?F \<and> returned cfg (E j) l r (chs_for j H))"
    if r: "(j, r) \<in> set R" for j r
  proof -
    from c r have "\<exists>l. (j, l) \<in> set A \<and> (r = timed_out \<or> j \<notin> ?F \<and> returned cfg (E j) l r (chs_for j H))"
      unfolding calls_def by blast
    moreover have "j \<noteq> n" using n(3) r unfolding fst_set by blast
    moreover have "set A \<subseteq> set ?A" by auto
    ultimately show ?thesis by blast
  qed
  moreover have "Some (n, k) = Some (j, l) \<or> j \<in> fst ` set R" if "(j, l) \<in> set ?A" for j l
    using that c unfolding calls_def by auto
  ultimately have "calls cfg E ?A (Some (n, k)) R (insert n ?F) H" "transit cfg (n + 1) b E ?A rs ?rq po H"
    using c n(3) unfolding calls_def by simp_all
  then show ?thesis by (simp add: dir_def)
qed

text \<open>The answers for a request matter only once it is answered.\<close>

lemma dir_env:
  assumes d: "dir cfg n b E A W R rs rq po H" and A: "\<And>j k. (j, k) \<in> set A \<Longrightarrow> call_ok cfg (E' j) k"
    and E: "\<And>j. j \<in> fst ` set A \<Longrightarrow> j \<notin> fst ` set rq \<union> fst ` set po \<Longrightarrow> E' j = E j"
  shows "dir cfg n b E' A W R rs rq po H"
proof -
  let ?F = "fst ` set rq \<union> fst ` set po \<union> fst ` set rs"
  from d have t: "transit cfg n b E A rs rq po H" and c: "calls cfg E A W R ?F H" by (simp_all add: dir_def)
  have "\<exists>k. (j, k) \<in> set A \<and> answers cfg (E' j) k m (chs_for j H)" if m: "(j, m) \<in> set rs" for j m
  proof -
    from transit_rsp [OF t m] obtain k where k: "(j, k) \<in> set A" "answers cfg (E j) k m (chs_for j H)" by blast
    have "j \<in> fst ` set rs" unfolding fst_set using m by blast
    moreover have "set (map fst rq @ map fst po) \<inter> set (map fst rs) = {}" using t by (auto simp: transit_def)
    ultimately have "j \<notin> fst ` set rq \<union> fst ` set po" by auto
    moreover have "j \<in> fst ` set A" unfolding fst_set using k(1) by blast
    ultimately have "E' j = E j" by (rule E [rotated])
    with k show ?thesis by auto
  qed
  moreover have "j < n \<and> call_ok cfg (E' j) k \<and> opener k = b" if "(j, k) \<in> set A" for j k
    using transit_asked [OF t that] A [OF that] by simp
  ultimately have t': "transit cfg n b E' A rs rq po H"
    using t transit_req [OF t] by (intro transitI) (simp_all add: transit_def)
  have "\<exists>k. (j, k) \<in> set A \<and> (res = timed_out \<or> j \<notin> ?F \<and> returned cfg (E' j) k res (chs_for j H))"
    if r: "(j, res) \<in> set R" for j res
  proof -
    from c r obtain k where k: "(j, k) \<in> set A" "res = timed_out \<or> j \<notin> ?F \<and> returned cfg (E j) k res (chs_for j H)"
      unfolding calls_def by blast
    moreover have "j \<in> fst ` set A" unfolding fst_set using k(1) by blast
    ultimately show ?thesis using E [of j] by (metis Un_iff)
  qed
  then have "calls cfg E' A W R ?F H" using c unfolding calls_def by blast
  with t' show ?thesis by (simp add: dir_def)
qed

lemma dir_ask_env:
  assumes d: "dir cfg n b E A None R rs rq po H" and k: "call_ok cfg e k" "opener k = b"
  shows "dir cfg (n + 1) b (E(n := e)) (A @ [(n, k)]) (Some (n, k)) R rs (rq @ [(n, call_msg k)]) po H"
proof -
  from d have t: "transit cfg n b E A rs rq po H" by (simp add: dir_def)
  have "j < n \<and> call_ok cfg (E j) l" if "(j, l) \<in> set A" for j l using transit_asked [OF t that] by blast
  then have "dir cfg n b (E(n := e)) A None R rs rq po H" by (intro dir_env [OF d]) (auto simp: fst_set)
  from dir_ask [OF this _ k(2)] k(1) show ?thesis by simp
qed

lemma dir_serve_env:
  assumes d: "dir cfg n b E A W R rs rq ((i, m) # po) H" and k: "(i, k) \<in> set A" "answers cfg e k m' chs" "call_ok cfg e k"
  shows "dir cfg n b (E(i := e)) A W R (rs @ [(i, m')]) rq po (H @ map (Pair i) chs)"
proof -
  from d have t: "transit cfg n b E A rs rq ((i, m) # po) H" by (simp add: dir_def)
  then have once: "distinct (map fst A)" by (simp add: transit_def)
  have "call_ok cfg ((E(i := e)) j) l" if "(j, l) \<in> set A" for j l
    using transit_asked [OF t that] asked_once [OF once k(1), of l] that k(3) by auto
  then have "dir cfg n b (E(i := e)) A W R rs rq ((i, m) # po) H" by (intro dir_env [OF d]) auto
  from dir_serve [OF this k(1)] k(2) show ?thesis by simp
qed

lemma dir_later: "dir cfg n b E A W R rs rq po H \<Longrightarrow> dir cfg (n + 1) b E A W R rs rq po H"
  unfolding dir_def transit_def by (auto simp: less_Suc_eq)

section \<open>The invariant of the machine\<close>

lemma reqs_append [simp]: "reqs (q @ q') = reqs q @ reqs q'"
  by (induction q rule: reqs.induct) simp_all

lemma rsps_append [simp]: "rsps (q @ q') = rsps q @ rsps q'"
  by (induction q rule: rsps.induct) simp_all

lemma reqs_rsps_map [simp]:
  "reqs (map (Rsp i) ms) = []" "rsps (map (Rsp i) ms) = map (Pair i) ms"
  by (induction ms) simp_all

definition side_dir :: "session_cfg \<Rightarrow> nat \<Rightarrow> bool \<Rightarrow> (nat \<Rightarrow> resource_env) \<Rightarrow> race_side \<Rightarrow> race_side \<Rightarrow> bool" where
  "side_dir cfg n b E o' p \<longleftrightarrow> dir cfg n b E (asked o') (waits o') (results o') (rsps (inbox o')) (reqs (inbox p)) (posted p) (handed p)"

definition prepared_ok :: "session_cfg \<Rightarrow> (resource_env \<times> open_channel_req) list \<Rightarrow> bool" where
  "prepared_ok cfg qs \<longleftrightarrow> (\<forall>(e, q) \<in> set qs. \<exists>r. fits cfg e r \<and> q = prepared_req r)"

definition race_inv :: "session_lib \<Rightarrow> session_cfg \<Rightarrow> race_sys \<Rightarrow> bool" where
  "race_inv L cfg x \<longleftrightarrow> both_peers L (two x) \<and> prepared_ok cfg (prepared x) \<and>
     (\<forall>b. side_dir cfg (next_id x) b (renv_of x b) (side x b) (side x (\<not> b))) \<and>
     (\<forall>b. map snd (handed (side x b)) = passed b (two x))"

lemma race_inv_both:
  "race_inv L cfg x \<longleftrightarrow> both_peers L (two x) \<and> prepared_ok cfg (prepared x) \<and>
     side_dir cfg (next_id x) b (renv_of x b) (side x b) (side x (\<not> b)) \<and> side_dir cfg (next_id x) (\<not> b) (renv_of x (\<not> b)) (side x (\<not> b)) (side x b) \<and>
     map snd (handed (side x b)) = passed b (two x) \<and> map snd (handed (side x (\<not> b))) = passed (\<not> b) (two x)"
  by (cases b) (auto simp: race_inv_def all_bool_eq)

lemma fun_upd_other [simp]: "(f(b := v)) (\<not> b) = f (\<not> b)" "(f(b := v, \<not> b := w)) b = v"
  by (cases b; simp)+

lemma race_ini_inv: "race_ini L x \<Longrightarrow> race_inv L cfg x"
  by (simp add: race_ini_def race_inv_def side_dir_def dir_def transit_def calls_def prepared_ok_def at_most_one_def
      chs_for_def)

text \<open>A response that ends a wait, and a request whose turn it is, are handled as they should.\<close>

lemma response_fits:
  assumes "side_dir cfg n b E o' p" "inbox o' = Rsp i m # q" "waits o' = Some (i, k)"
  shows "call_ok cfg (E i) k \<and> answers cfg (E i) k m (chs_for i (handed p))"
proof -
  from assms have t: "transit cfg n b E (asked o') ((i, m) # rsps q) (reqs (inbox p)) (posted p) (handed p)" and
    k: "(i, k) \<in> set (asked o')" by (simp_all add: side_dir_def dir_def calls_def)
  from transit_rsp [OF t, of i m] obtain k' where k': "(i, k') \<in> set (asked o')" "answers cfg (E i) k' m (chs_for i (handed p))" by auto
  moreover from t have "distinct (map fst (asked o'))" by (simp add: transit_def)
  ultimately show ?thesis using asked_once k transit_asked [OF t k] by metis
qed

lemma request_fits:
  assumes "side_dir cfg n b E o' p" "posted p = (i, m) # q"
  shows "\<exists>k. (i, k) \<in> set (asked o') \<and> m = call_msg k \<and> call_ok cfg (E i) k \<and> opener k = b"
proof -
  from assms have t: "transit cfg n b E (asked o') (rsps (inbox o')) (reqs (inbox p)) ((i, m) # q) (handed p)"
    by (simp add: side_dir_def dir_def)
  from transit_req [OF t, of i m] transit_asked [OF t] show ?thesis by fastforce
qed

lemma mdt_builder_peer:
  assumes s: "server_peer L s" and m: "Server_Session.mdt_builder L cfg renv s = Inr (Some q, s')"
  shows "server_peer L s' \<and> s_passive_calls s' = s_passive_calls s \<and>
    (or_opened_channel q \<noteq> Blank \<longrightarrow> (\<exists>r. fits cfg renv r \<and> q = prepared_req r))"
proof -
  from s obtain h where h: "m_on_err_func s = Some h" "m_peer_state_err_code_or_ok s = None"
    "Server_Session.m_master_channel s \<noteq> None" "session_names_ok L s" by (auto simp: server_peer_def)
  note f = res_frame_fields [OF mdt_builder_frame [OF m]] session_names_ok_frame [OF mdt_builder_frame [OF m], of L]
  from create_outcome [OF h(4), of cfg renv True] obtain t r where
    c: "create_channel_and_resources L cfg renv True s = Inr (t, r)" and
    o: "if resources_available cfg renv then cr_ok r \<and> channel_made L cfg renv s t r else \<not> cr_ok r"
    by (auto split: if_splits)
  have "q = prepared_req r"
    using m h c by (auto simp: Server_Session.mdt_builder_def handlers_are_set_def on_err_func_set_def ensure_def split: if_splits)
  moreover have "cr_ok r" if "or_opened_channel (prepared_req r) \<noteq> Blank" using that
    by (simp add: prepared_req_def split: if_splits)
  moreover have "fits cfg renv r" if "cr_ok r" using that o channel_made_fits [OF that] by (auto split: if_splits)
  ultimately have "or_opened_channel q \<noteq> Blank \<longrightarrow> (\<exists>r. fits cfg renv r \<and> q = prepared_req r)" by blast
  moreover have "server_peer L s'" "s_passive_calls s' = s_passive_calls s" using f h by (simp_all add: server_peer_def)
  ultimately show ?thesis by blast
qed

lemma prepared_ok_call:
  assumes "prepared_ok cfg (prepared x)" "may_ask x k e rest"
  shows "call_ok cfg e k \<and> prepared_ok cfg rest"
proof (cases k)
  case (Cli_call md)
  with assms show ?thesis by (simp add: may_ask_def call_ok_def)
next
  case (Srv_call q)
  with assms(2) obtain q0 md where q: "(e, q0) \<in> set (prepared x)" "rest = remove1 (e, q0) (prepared x)"
    "q = q0\<lparr> or_root := (or_root q0)\<lparr> oc_mdt := md \<rparr> \<rparr>" by (auto simp: may_ask_def)
  moreover from assms(1) q(1) obtain r where "fits cfg e r" "q0 = prepared_req r" by (auto simp: prepared_ok_def)
  moreover have "set rest \<subseteq> set (prepared x)" unfolding q(2) by (rule set_remove1_subset)
  ultimately show ?thesis using assms(1) Srv_call unfolding prepared_ok_def call_ok_def
    by (simp only: call.case) blast
qed

lemma race_forced_inv:
  assumes i: "race_inv L cfg x" and s: "race_forced L cfg x y"
  shows "race_inv L cfg y"
  using s
proof cases
  case (receive_req b i m q)
  from i have d: "side_dir cfg (next_id x) b (renv_of x b) (side x b) (side x (\<not> b))" "side_dir cfg (next_id x) (\<not> b) (renv_of x (\<not> b)) (side x (\<not> b)) (side x b)"
    unfolding race_inv_both [of _ _ _ b] by blast+
  from i receive_req d dir_arrive show ?thesis
    unfolding race_inv_both [of _ _ _ b] side_dir_def by simp
next
  case (receive_rsp b i m q k cenv res p)
  from i have d: "side_dir cfg (next_id x) b (renv_of x b) (side x b) (side x (\<not> b))" "side_dir cfg (next_id x) (\<not> b) (renv_of x (\<not> b)) (side x (\<not> b)) (side x b)"
    and p: "both_peers L (two x)" unfolding race_inv_both [of _ _ _ b] by blast+
  from response_fits [OF d(1) receive_rsp(2,3)] have k: "call_ok cfg (renv_of x b i) k"
    "answers cfg (renv_of x b i) k m (chs_for i (handed (side x (\<not> b))))"
    by simp_all
  from returns_answered [OF p k receive_rsp(4)] receive_rsp(5) have
    r: "both_peers L p" "returned cfg (renv_of x b i) k res (chs_for i (handed (side x (\<not> b))))" "passed c p = passed c (two x)" for c by auto
  have "dir cfg (next_id x) b (renv_of x b) (asked (side x b)) (Some (i, k)) (results (side x b)) ((i, m) # rsps q)
      (reqs (inbox (side x (\<not> b)))) (posted (side x (\<not> b))) (handed (side x (\<not> b)))"
    using d(1) receive_rsp(2,3) by (simp add: side_dir_def)
  from i receive_rsp(1-3) r dir_return [OF this r(2)] show ?thesis
    unfolding race_inv_both [of _ _ _ b] side_dir_def by simp
next
  case (ignore_rsp b i m q)
  from i have d: "side_dir cfg (next_id x) b (renv_of x b) (side x b) (side x (\<not> b))" "side_dir cfg (next_id x) (\<not> b) (renv_of x (\<not> b)) (side x (\<not> b)) (side x b)"
    unfolding race_inv_both [of _ _ _ b] by blast+
  have "dir cfg (next_id x) b (renv_of x b) (asked (side x b)) (waits (side x b)) (results (side x b)) ((i, m) # rsps q)
      (reqs (inbox (side x (\<not> b)))) (posted (side x (\<not> b))) (handed (side x (\<not> b)))"
    using d(1) ignore_rsp(2) by (simp add: side_dir_def)
  from i ignore_rsp dir_ignore [OF this ignore_rsp(3)] show ?thesis
    unfolding race_inv_both [of _ _ _ b] side_dir_def by simp
next
  case (handle_req b i m q cenv renv ms chs p)
  from i have d: "side_dir cfg (next_id x) b (renv_of x b) (side x b) (side x (\<not> b))" "side_dir cfg (next_id x) (\<not> b) (renv_of x (\<not> b)) (side x (\<not> b)) (side x b)"
    and p: "both_peers L (two x)" unfolding race_inv_both [of _ _ _ b] by blast+
  let ?e = "if b then renv_of x (\<not> b) i else renv"
  from request_fits [OF d(2) handle_req(3)] obtain k where
    k: "(i, k) \<in> set (asked (side x (\<not> b)))" "m = call_msg k" "call_ok cfg (renv_of x (\<not> b) i) k" "opener k = (\<not> b)" by blast
  from serves [OF p k(3) handle_req(4), of renv] handle_req(5) k(2,4) obtain m' where
    r: "ms = [m']" "both_peers L p" "answers cfg ?e k m' chs" "passed (\<not> b) p = passed (\<not> b) (two x)"
      "passed b p = passed b (two x) @ chs" by auto
  have e: "call_ok cfg ?e k" using k(3,4) by (cases k) (auto simp: call_ok_def)
  have "dir cfg (next_id x) (\<not> b) (renv_of x (\<not> b)) (asked (side x (\<not> b))) (waits (side x (\<not> b))) (results (side x (\<not> b)))
      (rsps (inbox (side x (\<not> b)))) (reqs (inbox (side x b))) ((i, m) # q) (handed (side x b))"
    using d(2) handle_req(3) by (simp add: side_dir_def)
  from i handle_req(1-3) r dir_serve_env [OF this k(1) r(3) e] show ?thesis
    unfolding race_inv_both [of _ _ _ b] side_dir_def by (simp add: comp_def)
qed

lemma race_env_inv:
  assumes i: "race_inv L cfg x" and s: "race_env L cfg x y"
  shows "race_inv L cfg y"
  using s
proof cases
  case (prepares renv q s)
  from i have p: "client_peer (fst (two x))" "server_peer L (snd (two x))" by (simp_all add: race_inv_def both_peers_def)
  from mdt_builder_peer [OF p(2) prepares(3)] i prepares(1) p show ?thesis
    by (auto simp: race_inv_def both_peers_def prepared_ok_def passed_def)
next
  case (opens b k e rest)
  from i have d: "side_dir cfg (next_id x) b (renv_of x b) (side x b) (side x (\<not> b))" "side_dir cfg (next_id x) (\<not> b) (renv_of x (\<not> b)) (side x (\<not> b)) (side x b)"
    and q: "prepared_ok cfg (prepared x)" unfolding race_inv_both [of _ _ _ b] by blast+
  from prepared_ok_call [OF q opens(4)] have k: "call_ok cfg e k" "prepared_ok cfg rest" by simp_all
  from i opens(1-3) d k dir_ask_env [OF _ k(1) opens(3)] dir_later show ?thesis
    unfolding race_inv_both [of _ _ _ b] side_dir_def by simp
next
  case (times_out b i k cenv res p)
  from i have d: "side_dir cfg (next_id x) b (renv_of x b) (side x b) (side x (\<not> b))" "side_dir cfg (next_id x) (\<not> b) (renv_of x (\<not> b)) (side x (\<not> b)) (side x b)"
    and p: "both_peers L (two x)" unfolding race_inv_both [of _ _ _ b] by blast+
  from d(1) times_out(2) have "(i, k) \<in> set (asked (side x b))" by (simp add: side_dir_def dir_def calls_def)
  with d(1) transit_asked have "call_ok cfg (renv_of x b i) k" unfolding side_dir_def dir_def by blast
  from returns_timed_out [OF p this, of cenv] times_out(3) have
    r: "both_peers L p" "res = timed_out" "passed c p = passed c (two x)" for c by auto
  have "dir cfg (next_id x) b (renv_of x b) (asked (side x b)) (Some (i, k)) (results (side x b)) (rsps (inbox (side x b)))
      (reqs (inbox (side x (\<not> b)))) (posted (side x (\<not> b))) (handed (side x (\<not> b)))"
    using d(1) times_out(2) by (simp add: side_dir_def)
  from i times_out(1,2) r dir_times_out [OF this] show ?thesis
    unfolding race_inv_both [of _ _ _ b] side_dir_def by simp
qed

interpretation race: invariant_system "race_ini L" "race_step L cfg" "race_inv L cfg"
  for L cfg
  by unfold_locales (auto simp: race_step_def intro: race_ini_inv race_forced_inv race_env_inv)

end
