(* ===== verification/Open_Race_Properties.thy ===== *)
theory Open_Race_Properties
  imports Open_Race
begin

text \<open>
  What opening channels from both sides guarantees: the ends of every channel pair up whatever happens; a call is
  answered unless calls of the two sides cross; and crossing calls wait for their timeout.
\<close>

section \<open>What happens by itself comes to an end\<close>

text \<open>The steps left: a request is received, handled, and answered; a response is received.\<close>

fun msg_work :: "net_msg \<Rightarrow> nat" where
  "msg_work (Req _ _) = 3"
| "msg_work (Rsp _ _) = 1"

definition race_work :: "race_sys \<Rightarrow> nat" where
  "race_work x = sum_list (map msg_work (inbox (side x True))) + 2 * length (posted (side x True)) +
     (sum_list (map msg_work (inbox (side x False))) + 2 * length (posted (side x False)))"

lemma race_work_both: "race_work x = sum_list (map msg_work (inbox (side x b))) + 2 * length (posted (side x b)) +
     (sum_list (map msg_work (inbox (side x (\<not> b)))) + 2 * length (posted (side x (\<not> b))))"
  by (cases b) (simp_all add: race_work_def)

lemma request_served:
  assumes i: "race_inv L cfg x" and p: "posted (side x b) = (i, m) # q" and e: "channel_env_ok cenv"
  shows "\<exists>m' chs p. race_serve L cfg b cenv renv m (two x) = Inr ([m'], chs, p)"
proof -
  from i have d: "side_dir cfg (next_id x) (\<not> b) (renv_of x (\<not> b)) (side x (\<not> b)) (side x b)" and b: "both_peers L (two x)"
    unfolding race_inv_both [of _ _ _ b] by blast+
  from request_fits [OF d p] obtain k where k: "m = call_msg k" "call_ok cfg (renv_of x (\<not> b) i) k" "opener k = (\<not> b)" by blast
  from serves [OF b k(2) e, of renv] k(1,3) show ?thesis by auto
qed

lemma response_returns:
  assumes i: "race_inv L cfg x" and p: "inbox (side x b) = Rsp i m # q" "waits (side x b) = Some (i, k)"
    and e: "channel_env_ok cenv"
  shows "\<exists>res p. race_return cfg cenv k (Some m) (two x) = Inr (res, p) \<and> res \<noteq> timed_out"
proof -
  from i have d: "side_dir cfg (next_id x) b (renv_of x b) (side x b) (side x (\<not> b))" and b: "both_peers L (two x)"
    unfolding race_inv_both [of _ _ _ b] by blast+
  from response_fits [OF d p] have k: "call_ok cfg (renv_of x b i) k"
    "answers cfg (renv_of x b i) k m (chs_for i (handed (side x (\<not> b))))" by simp_all
  from returns_answered [OF b k e] returned_not_timed_out show ?thesis by blast
qed

lemma race_forced_decreases:
  assumes i: "race_inv L cfg x" and s: "race_forced L cfg x y"
  shows "race_work y < race_work x"
  using s
proof cases
  case (handle_req b i m q cenv renv ms chs p)
  from request_served [OF assms(1) handle_req(3,4), of renv] handle_req(5) have "\<exists>m'. ms = [m']" by fastforce
  with handle_req(1-3) show ?thesis by (auto simp: race_work_both [of _ b])
next
  case (receive_req b i m q)
  then show ?thesis by (simp add: race_work_both [of _ b])
next
  case (receive_rsp b i m q k cenv res p)
  then show ?thesis by (simp add: race_work_both [of _ b])
next
  case (ignore_rsp b i m q)
  then show ?thesis by (simp add: race_work_both [of _ b])
qed

interpretation race_drain: draining_system "race_ini L" "race_step L cfg" "race_inv L cfg" "race_forced L cfg" race_work
  for L cfg
  by unfold_locales (auto simp: race_step_def intro: race_forced_decreases)

section \<open>Crossing calls\<close>

text \<open>Both threads W wait, and neither response is on its way: each request waits for the other's thread W.\<close>

definition crossed :: "race_sys \<Rightarrow> bool" where
  "crossed x \<longleftrightarrow> (\<forall>b. \<exists>i k. waits (side x b) = Some (i, k) \<and> i \<notin> fst ` set (rsps (inbox (side x b))))"

text \<open>What a step does to the call that waits on a side, and to the responses on their way there.\<close>

lemma forced_call:
  assumes i: "race_inv L cfg x" and s: "race_forced L cfg x y"
  shows "set (results (side x c)) \<subseteq> set (results (side y c)) \<and>
    (waits (side y c) = waits (side x c) \<and> results (side y c) = results (side x c) \<or>
     (\<exists>i k res. waits (side x c) = Some (i, k) \<and> i \<in> fst ` set (rsps (inbox (side x c))) \<and> waits (side y c) = None \<and>
       (i, res) \<in> set (results (side y c)) \<and> res \<noteq> timed_out))"
  using s
proof cases
  case (receive_rsp b i m q k cenv res p)
  show ?thesis
  proof (cases "c = b")
    case True
    from response_returns [OF assms(1) receive_rsp(2-4)] receive_rsp(5) have "res \<noteq> timed_out" by auto
    with True receive_rsp(1-3) show ?thesis by (cases res) auto
  qed (use receive_rsp(1) in simp)
next
  case (receive_req b i m q)
  then show ?thesis by (cases "c = b") simp_all
next
  case (ignore_rsp b i m q)
  then show ?thesis by (cases "c = b") simp_all
next
  case (handle_req b i m q cenv renv ms chs p)
  then show ?thesis by (cases "c = b"; cases "c = (\<not> b)") simp_all
qed

lemma forced_response:
  assumes i: "race_inv L cfg x" and s: "race_forced L cfg x y" and w: "waits (side x c) = Some (i, k)"
    and r: "i \<in> fst ` set (rsps (inbox (side x c)))"
  shows "waits (side y c) = None \<or> i \<in> fst ` set (rsps (inbox (side y c)))"
  using s
proof cases
  case (handle_req b j m q cenv renv ms chs p)
  then show ?thesis using r by (cases "c = b"; cases "c = (\<not> b)") auto
next
  case (receive_rsp b j m q l cenv res p)
  then show ?thesis using r by (cases "c = b") simp_all
next
  case (receive_req b j m q)
  then show ?thesis using r by (cases "c = b") simp_all
next
  case (ignore_rsp b j m q)
  then show ?thesis using r w by (cases "c = b") auto
qed

lemma crossed_forced:
  assumes i: "race_inv L cfg x" and s: "race_forced L cfg x y" and c: "crossed x"
  shows "crossed y \<and> waits (side y b) = waits (side x b) \<and> results (side y b) = results (side x b)"
proof -
  have w: "waits (side y b) = waits (side x b) \<and> results (side y b) = results (side x b)" for b
    using forced_call [OF i s, of b] c unfolding crossed_def by (metis option.inject prod.inject)
  have "i \<notin> fst ` set (rsps (inbox (side y b)))" if "waits (side x b) = Some (i, k)" for b i k
  proof -
    from that c have n: "i \<notin> fst ` set (rsps (inbox (side x b)))" unfolding crossed_def by (metis option.inject prod.inject)
    from s show ?thesis
    proof cases
      case (handle_req d j m q cenv renv ms chs p)
      with c show ?thesis unfolding crossed_def by (metis option.distinct(1))
    next
      case (receive_rsp d j m q l cenv res p)
      with n that show ?thesis by (cases "b = d") auto
    next
      case (receive_req d j m q)
      with n show ?thesis by (cases "b = d") simp_all
    next
      case (ignore_rsp d j m q)
      with n show ?thesis by (cases "b = d") auto
    qed
  qed
  with w c show ?thesis unfolding crossed_def by metis
qed

lemma crossed_back:
  assumes i: "race_inv L cfg x" and s: "race_forced L cfg x y" and c: "crossed y"
  shows "crossed x"
proof -
  have "waits (side x b) = waits (side y b) \<and> waits (side y b) \<noteq> None" for b
    using forced_call [OF i s, of b] c unfolding crossed_def by (metis option.distinct(1))
  with c forced_response [OF i s] show ?thesis unfolding crossed_def by metis
qed

section \<open>Properties\<close>

text \<open>
  C9. The two ends of every channel. Whatever both users call and however threads and messages interleave,
  timeouts included: a call returns at most once; unless it timed out, it returns an error, and then no
  channel was handed to the other side's handler for it, or one end of a channel whose other end, and
  nothing else, was handed to that handler. Conversely, for each channel handed to a passive-open handler,
  which is one for each request at most, the call still waits, or has returned the other end, or has timed
  out: then, and only then, the handler has a channel that nobody has the other end of. Two ends
  have the same message queues, in opposite roles, and hold, as configured, the two handles of the very socket pair that the system gave the
  server for that call (\<open>renv_of\<close>), the server having the first.
\<close>

theorem opens_pair_up:
  assumes "reach (race_ini L) (race_step L cfg) x"
  shows "distinct (map fst (results (side x b))) \<and> passed (\<not> b) (two x) = map snd (handed (side x (\<not> b))) \<and>
    (\<forall>i res. (i, res) \<in> set (results (side x b)) \<longrightarrow> res = timed_out \<or>
       (\<exists>k. (i, k) \<in> set (asked (side x b)) \<and> returned cfg (renv_of x b i) k res (chs_for i (handed (side x (\<not> b)))))) \<and>
    (\<forall>i a. (i, a) \<in> set (handed (side x (\<not> b))) \<longrightarrow> chs_for i (handed (side x (\<not> b))) = [a] \<and>
       (\<exists>k. (i, k) \<in> set (asked (side x b)) \<and>
          (waits (side x b) = Some (i, k) \<or> (i, timed_out) \<in> set (results (side x b)) \<or>
           (\<exists>c. (i, (True, None, Some c)) \<in> set (results (side x b)) \<and> ends cfg (renv_of x b i) k a c))))"
proof -
  let ?o = "side x b" and ?p = "side x (\<not> b)"
  from race.reach_inv [OF assms] have d: "side_dir cfg (next_id x) b (renv_of x b) ?o ?p" and m: "map snd (handed ?p) = passed (\<not> b) (two x)"
    unfolding race_inv_both [of _ _ _ b] by blast+
  let ?F = "fst ` set (reqs (inbox ?p)) \<union> fst ` set (posted ?p) \<union> fst ` set (rsps (inbox ?o))"
  from d have t: "transit cfg (next_id x) b (renv_of x b) (asked ?o) (rsps (inbox ?o)) (reqs (inbox ?p)) (posted ?p) (handed ?p)"
    and c: "calls cfg (renv_of x b) (asked ?o) (waits ?o) (results ?o) ?F (handed ?p)" by (simp_all add: side_dir_def dir_def)
  from t have A: "distinct (map fst (asked ?o))" and one: "at_most_one (handed ?p)"
    and H: "fst ` set (handed ?p) \<subseteq> fst ` set (asked ?o)" by (simp_all add: transit_def)
  have res: "\<exists>k. (i, k) \<in> set (asked ?o) \<and> (res = timed_out \<or> returned cfg (renv_of x b i) k res (chs_for i (handed ?p)))"
    if "(i, res) \<in> set (results ?o)" for i res
    using c that unfolding calls_def by blast
  have "chs_for i (handed ?p) = [a] \<and> (\<exists>k. (i, k) \<in> set (asked ?o) \<and>
          (waits ?o = Some (i, k) \<or> (i, timed_out) \<in> set (results ?o) \<or>
           (\<exists>c. (i, (True, None, Some c)) \<in> set (results ?o) \<and> ends cfg (renv_of x b i) k a c)))"
    if a: "(i, a) \<in> set (handed ?p)" for i a
  proof -
    from a have "a \<in> set (chs_for i (handed ?p))" by (force simp: chs_for_def)
    moreover have "length (chs_for i (handed ?p)) \<le> 1" using one by (simp add: at_most_one_def)
    ultimately have ch: "chs_for i (handed ?p) = [a]" by (cases "chs_for i (handed ?p)") auto
    from a H obtain k where k: "(i, k) \<in> set (asked ?o)" unfolding ids_sub by blast
    with c have "waits ?o = Some (i, k) \<or> i \<in> fst ` set (results ?o)" unfolding calls_def by blast
    moreover have "(i, timed_out) \<in> set (results ?o) \<or>
        (\<exists>c. (i, (True, None, Some c)) \<in> set (results ?o) \<and> ends cfg (renv_of x b i) k a c)" if "i \<in> fst ` set (results ?o)"
    proof -
      from that obtain r where r: "(i, r) \<in> set (results ?o)" unfolding fst_set by blast
      from res [OF r] obtain k' where "(i, k') \<in> set (asked ?o)" "r = timed_out \<or> returned cfg (renv_of x b i) k' r [a]" unfolding ch by blast
      with asked_once [OF A k, of k'] r show ?thesis by (auto simp: returned_def)
    qed
    ultimately show ?thesis using ch k by blast
  qed
  with res m c show ?thesis unfolding calls_def by metis
qed

lemma stuck_not_crossed:
  assumes i: "race_inv L cfg y" and n: "\<nexists>z. race_forced L cfg y z" and c: "\<not> crossed y"
  shows "waits (side y b) = None"
proof (rule ccontr)
  define cenv :: channel_env where "cenv = \<lparr> ce_open_c2s = None, ce_open_s2c = None, ce_channel = None \<rparr>"
  have e: "channel_env_ok cenv" by (simp add: cenv_def channel_env_ok_def)
  assume "waits (side y b) \<noteq> None"
  then obtain j k where w: "waits (side y b) = Some (j, k)" by auto
  have empty: "inbox (side y d) = []" for d
  proof (cases "inbox (side y d)")
    case (Cons m q)
    show ?thesis
    proof (cases m)
      case (Req l m')
      with Cons n race_forced.receive_req [of y d l m' q L cfg] show ?thesis by blast
    next
      case (Rsp l m')
      show ?thesis
      proof (cases "\<exists>k. waits (side y d) = Some (l, k)")
        case True
        then obtain k where k: "waits (side y d) = Some (l, k)" by blast
        from response_returns [OF i _ k e] Cons Rsp obtain r p where "race_return cfg cenv k (Some m') (two y) = Inr (r, p)" by blast
        with race_forced.receive_rsp [of y d l m' q k cenv cfg r p L] Cons Rsp k e n show ?thesis by blast
      next
        case False
        with race_forced.ignore_rsp [of y d l m' q L cfg] Cons Rsp n show ?thesis by blast
      qed
    qed
  qed simp
  from i have "side_dir cfg (next_id y) b (renv_of y b) (side y b) (side y (\<not> b))" unfolding race_inv_both [of _ _ _ b] by blast
  with w empty have "j \<in> fst ` set (posted (side y (\<not> b)))" by (auto simp: side_dir_def dir_def calls_def)
  then obtain l m q where p: "posted (side y (\<not> b)) = (l, m) # q" by (cases "posted (side y (\<not> b))") auto
  define renv :: resource_env where "renv = \<lparr> re_mq_c2s = None, re_mq_s2c = None, re_pair = Inr (0, 0), re_channel = None \<rparr>"
  from request_served [OF i p e, of renv] obtain m' chs r where
    "race_serve L cfg (\<not> b) cenv renv m (two y) = Inr ([m'], chs, r)" by blast
  with race_forced.handle_req [of y "\<not> b" l m q cenv L cfg renv "[m']" chs r] p e n have "waits (side y (\<not> b)) \<noteq> None" by blast
  with w empty have "crossed y" unfolding crossed_def by (cases b) (auto simp: all_bool_eq)
  with c show False by blast
qed

lemma forced_not_crossed:
  assumes "reach (race_ini L) (race_step L cfg) x" "(race_forced L cfg)\<^sup>*\<^sup>* x y" "\<not> crossed x"
  shows "\<not> crossed y \<and> set (results (side x b)) \<subseteq> set (results (side y b)) \<and>
    (\<forall>i k. waits (side x b) = Some (i, k) \<longrightarrow> waits (side y b) = Some (i, k) \<or>
       waits (side y b) = None \<and> (\<exists>res. (i, res) \<in> set (results (side y b)) \<and> res \<noteq> timed_out))"
  using assms(2)
proof (induction rule: rtranclp_induct)
  case (step y z)
  have i: "race_inv L cfg y" by (rule race.reach_inv [OF race_drain.forced_reach [OF assms(1) step(1)]])
  from forced_call [OF i step(2), of b] crossed_back [OF i step(2)] step.IH show ?case
    by (metis (no_types, lifting) option.distinct(1) option.inject prod.inject subset_iff)
qed (use assms(3) in simp)

text \<open>
  C10. A call is answered. Unless both threads W wait with neither response on its way, whatever order
  messages and handlers come in, without any timeout and in at most \<open>race_work\<close> steps: when nothing is left to
  happen no call waits, and each call that waited has returned with the answer of the other
  side. Such a state is reached.
\<close>

theorem opens_finish_unless_crossed:
  assumes "reach (race_ini L) (race_step L cfg) x" "\<not> crossed x"
  shows "(\<forall>n y. (race_forced L cfg ^^ n) x y \<longrightarrow> n \<le> race_work x) \<and>
    (\<forall>y. (race_forced L cfg)\<^sup>*\<^sup>* x y \<and> (\<nexists>z. race_forced L cfg y z) \<longrightarrow> (\<forall>b. waits (side y b) = None \<and>
       (\<forall>i k. waits (side x b) = Some (i, k) \<longrightarrow> (\<exists>res. (i, res) \<in> set (results (side y b)) \<and> res \<noteq> timed_out)))) \<and>
    (\<exists>y. (race_forced L cfg)\<^sup>*\<^sup>* x y \<and> (\<nexists>z. race_forced L cfg y z))"
proof (intro conjI allI impI)
  fix n y assume "(race_forced L cfg ^^ n) x y"
  from race_drain.forced_bound [OF assms(1) this] show "n \<le> race_work x" by simp
next
  fix y b assume y: "(race_forced L cfg)\<^sup>*\<^sup>* x y \<and> (\<nexists>z. race_forced L cfg y z)"
  with stuck_not_crossed [OF race.reach_inv [OF race_drain.forced_reach [OF assms(1)]]] forced_not_crossed [OF assms(1) _ assms(2)]
  show w: "waits (side y b) = None" by blast
  fix i k assume "waits (side x b) = Some (i, k)"
  with w y forced_not_crossed [OF assms(1) _ assms(2), of y b] show "\<exists>res. (i, res) \<in> set (results (side y b)) \<and> res \<noteq> timed_out"
    by auto
next
  from race_drain.forced_normal_form [OF assms(1)] show "\<exists>y. (race_forced L cfg)\<^sup>*\<^sup>* x y \<and> (\<nexists>z. race_forced L cfg y z)" .
qed

text \<open>
  C12. Crossing calls block each other. If both threads W wait with neither response on its way, as when
  both users call \<^verbatim>\<open>open_channel()\<close> at the same time, neither call returns by whatever happens by itself, up to the
  first timeout: each waits for the handler that the other one keeps from running, so only a timeout, after a minute, ends it.
\<close>

theorem crossing_opens_wait_for_timeout:
  assumes "reach (race_ini L) (race_step L cfg) x" "crossed x" "(race_forced L cfg)\<^sup>*\<^sup>* x y"
  shows "waits (side y b) = waits (side x b) \<and> waits (side y b) \<noteq> None \<and> results (side y b) = results (side x b)"
proof -
  from assms(3) have "crossed y \<and> waits (side y b) = waits (side x b) \<and> results (side y b) = results (side x b)"
  proof (induction rule: rtranclp_induct)
    case (step y z)
    with crossed_forced [OF race.reach_inv [OF race_drain.forced_reach [OF assms(1) step(1)]] step(2), of b] show ?case by simp
  qed (use assms(2) in simp)
  then show ?thesis unfolding crossed_def by (metis option.distinct(1))
qed


section \<open>Messages are what their receivers expect\<close>

text \<open>What the client (true) and the server expect of a request, and of a response.\<close>

definition request_typed :: "session_cfg \<Rightarrow> bool \<Rightarrow> msg \<Rightarrow> bool" where
  "request_typed cfg b m \<longleftrightarrow> (if b then good_channel_msg cfg m
     else (\<exists>md. body m = OpenChannelToServerReq md) \<and> native_handle_or_null m = None)"

definition response_typed :: "session_cfg \<Rightarrow> bool \<Rightarrow> msg \<Rightarrow> bool" where
  "response_typed cfg b m \<longleftrightarrow> (if b
     then \<exists>r. body m = OpenChannelToServerRsp r \<and> os_result r \<noteq> OPEN_END_SENTINEL \<and>
       (os_result r = ACCEPTED \<longrightarrow> (os_mq_c2s_or_empty r \<noteq> [] \<longleftrightarrow> S_MQS_ENABLED cfg) \<and>
         (os_mq_s2c_or_empty r \<noteq> [] \<longleftrightarrow> S_MQS_ENABLED cfg) \<and>
         (native_handle_or_null m \<noteq> None \<longleftrightarrow> S_SOCKET_STREAM_ENABLED cfg))
     else body m \<in> OpenChannelToClientRsp ` {ACCEPTED, REJECTED_PASSIVE_OPEN})"

lemma call_msg_typed: "call_ok cfg e k \<Longrightarrow> request_typed cfg (\<not> opener k) (call_msg k)"
proof (cases k)
  case (Srv_call q)
  moreover assume "call_ok cfg e k"
  ultimately obtain r md where f: "fits cfg e r"
    and q: "q = (prepared_req r)\<lparr> or_root := (or_root (prepared_req r))\<lparr> oc_mdt := md \<rparr> \<rparr>" by (auto simp: call_ok_def)
  from fits_fields(1-3) [OF f] have "good_channel_msg cfg (open_channel_req_msg q)"
    by (simp add: q good_channel_msg_def open_channel_req_msg_def prepared_req_def)
  with Srv_call show ?thesis by (simp add: request_typed_def)
qed (simp add: request_typed_def)

lemma answers_typed:
  assumes "answers cfg e k m chs"
  shows "response_typed cfg (opener k) m"
proof (cases k)
  case (Cli_call md)
  with assms obtain r res where m: "m = open_channel_rsp_to_cli res r" and
    "res \<in> {REJECTED_PASSIVE_OPEN, REJECTED_RESOURCE_UNAVAILABLE} \<or> res = ACCEPTED \<and> fits cfg e r"
    by (auto simp: answers_def)
  then show ?thesis
  proof (elim disjE conjE exE)
    assume a: "res = ACCEPTED" and f: "fits cfg e r"
    from f have "cr_s2c r \<noteq> [] \<longleftrightarrow> S_MQS_ENABLED cfg" unfolding fits_def by blast
    with m a Cli_call fits_fields(2,3) [OF f] show ?thesis by (simp add: response_typed_def open_channel_rsp_to_cli_def)
  qed (use m Cli_call in \<open>auto simp: response_typed_def open_channel_rsp_to_cli_def\<close>)
qed (use assms in \<open>auto simp: answers_def response_typed_def open_channel_rsp_to_srv_def\<close>)

text \<open>
  C11. Well-typed messages, which do not go wrong. Every message between the sessions is of the kind its
  receiver reads, a request or a response of the other side, and it carries handle and queue names
  exactly if the session's channels are configured to have them. The handler of each request returns and
  sends one well-typed response, and a call whose response comes returns: no assertion about
  messages trips and no member of the union is read that is not set.
\<close>

theorem messages_never_go_wrong:
  assumes "reach (race_ini L) (race_step L cfg) x"
  shows "(\<forall>i m. (i, m) \<in> set (reqs (inbox (side x b))) \<or> (i, m) \<in> set (posted (side x b)) \<longrightarrow> request_typed cfg b m) \<and>
    (\<forall>i m. (i, m) \<in> set (rsps (inbox (side x b))) \<longrightarrow> response_typed cfg b m) \<and>
    (\<forall>i m q cenv renv. posted (side x b) = (i, m) # q \<and> channel_env_ok cenv \<longrightarrow>
       (\<exists>m' chs p. race_serve L cfg b cenv renv m (two x) = Inr ([m'], chs, p) \<and> response_typed cfg (\<not> b) m')) \<and>
    (\<forall>i m q k cenv. inbox (side x b) = Rsp i m # q \<and> waits (side x b) = Some (i, k) \<and> channel_env_ok cenv \<longrightarrow>
       returns (race_return cfg cenv k (Some m) (two x)))"
proof -
  from race.reach_inv [OF assms] have i: "race_inv L cfg x" .
  then have d: "side_dir cfg (next_id x) b (renv_of x b) (side x b) (side x (\<not> b))" "side_dir cfg (next_id x) (\<not> b) (renv_of x (\<not> b)) (side x (\<not> b)) (side x b)"
    and p: "both_peers L (two x)" unfolding race_inv_both [of _ _ _ b] by blast+
  from d have t: "transit cfg (next_id x) b (renv_of x b) (asked (side x b)) (rsps (inbox (side x b))) (reqs (inbox (side x (\<not> b))))
      (posted (side x (\<not> b))) (handed (side x (\<not> b)))"
    "transit cfg (next_id x) (\<not> b) (renv_of x (\<not> b)) (asked (side x (\<not> b))) (rsps (inbox (side x (\<not> b)))) (reqs (inbox (side x b)))
      (posted (side x b)) (handed (side x b))" by (simp_all add: side_dir_def dir_def)
  have req: "request_typed cfg b m" if "(j, m) \<in> set (reqs (inbox (side x b))) \<or> (j, m) \<in> set (posted (side x b))" for j m
    using transit_req [OF t(2) that] transit_asked [OF t(2), of j] call_msg_typed by fastforce
  have rsp: "response_typed cfg b m" if "(j, m) \<in> set (rsps (inbox (side x b)))" for j m
  proof -
    from transit_rsp [OF t(1) that] obtain k where k: "(j, k) \<in> set (asked (side x b))"
      "answers cfg (renv_of x b j) k m (chs_for j (handed (side x (\<not> b))))" by blast
    with transit_asked [OF t(1) k(1)] answers_typed [OF k(2)] show ?thesis by simp
  qed
  have serve: "\<exists>m' chs p. race_serve L cfg b cenv renv m (two x) = Inr ([m'], chs, p) \<and> response_typed cfg (\<not> b) m'"
    if "posted (side x b) = (j, m) # q" "channel_env_ok cenv" for j m q cenv renv
  proof -
    from request_fits [OF d(2) that(1)] obtain k where k: "m = call_msg k" "call_ok cfg (renv_of x (\<not> b) j) k" "opener k = (\<not> b)" by blast
    from serves [OF p k(2) that(2), of renv] k(1,3) obtain m' chs p' where
      "race_serve L cfg b cenv renv m (two x) = Inr ([m'], chs, p')"
      "answers cfg (if opener k then renv else renv_of x (\<not> b) j) k m' chs" by auto
    with answers_typed [OF this(2)] k(3) show ?thesis by auto
  qed
  have ret: "returns (race_return cfg cenv k (Some m) (two x))"
    if "inbox (side x b) = Rsp j m # q" "waits (side x b) = Some (j, k)" "channel_env_ok cenv" for j m q k cenv
    using response_returns [OF i that] unfolding returns_iff by blast
  from req rsp serve ret show ?thesis by blast
qed

section \<open>Witnesses\<close>

definition demo_race :: race_sys where
  "demo_race = \<lparr> two = (demo_c2, demo_s3),
     side = (\<lambda>_. \<lparr> waits = None, inbox = [], posted = [], asked = [], results = [], handed = [] \<rparr>), prepared = [], next_id = 0,
     renv_of = (\<lambda>_ _. demo_resources) \<rparr>"

lemma demo_race_ini: "race_ini demo_session_lib demo_race"
  using demo_peers by (simp add: race_ini_def demo_race_def both_peers_def passed_def) (simp add: demo_s2_def checked_def demo_s1_def demo_s0_def
      async_accept_log_in_def Server_session_impl_def session_base.extend_def)

text \<open>The client calls; in the second run the server has prepared a request before, and calls after it.\<close>

definition demo_asked :: "race_sys \<Rightarrow> race_sys" where
  "demo_asked x = x\<lparr> next_id := next_id x + 1, side := (side x)(
       True := (side x True)\<lparr> waits := Some (next_id x, Cli_call [9]), asked := asked (side x True) @ [(next_id x, Cli_call [9])] \<rparr>,
       False := (side x False)\<lparr> inbox := inbox (side x False) @ [Req (next_id x) (call_msg (Cli_call [9]))] \<rparr>),
       renv_of := (renv_of x)(True := (renv_of x True)(next_id x := demo_resources)) \<rparr>"

lemma demo_asked_step: "waits (side x True) = None \<Longrightarrow> race_step demo_session_lib demo_srv_cfg x (demo_asked x)"
  using race_env.opens [of x True "Cli_call [9]" demo_resources "prepared x"] by (simp add: race_step_def may_ask_def demo_asked_def)

lemma demo_asked_reach: "reach (race_ini demo_session_lib) (race_step demo_session_lib demo_srv_cfg) (demo_asked demo_race)"
  by (rule reach_step, rule reach_init, rule demo_race_ini, rule demo_asked_step) (simp add: demo_race_def)

lemma demo_asked_waits: "waits (side (demo_asked demo_race) True) = Some (0, Cli_call [9])" "\<not> crossed (demo_asked demo_race)"
  by (auto simp: demo_asked_def demo_race_def crossed_def)

theorem opens_finish_unless_crossed_witness:
  "\<exists>y res. (race_forced demo_session_lib demo_srv_cfg)\<^sup>*\<^sup>* (demo_asked demo_race) y \<and> waits (side y True) = None \<and>
     (0, res) \<in> set (results (side y True)) \<and> res \<noteq> timed_out"
  using opens_finish_unless_crossed [OF demo_asked_reach demo_asked_waits(2)] demo_asked_waits(1) by blast

theorem opens_pair_up_witness:
  "\<exists>y res k. reach (race_ini demo_session_lib) (race_step demo_session_lib demo_srv_cfg) y \<and> (0, res) \<in> set (results (side y True)) \<and>
     returned demo_srv_cfg (renv_of y True 0) k res (chs_for 0 (handed (side y False)))"
proof -
  from race_drain.forced_normal_form [OF demo_asked_reach] obtain y where
    y: "(race_forced demo_session_lib demo_srv_cfg)\<^sup>*\<^sup>* (demo_asked demo_race) y" "\<nexists>z. race_forced demo_session_lib demo_srv_cfg y z"
    by blast
  note r = race_drain.forced_reach [OF demo_asked_reach y(1)]
  note f = forced_not_crossed [OF demo_asked_reach y(1) demo_asked_waits(2), of True]
  from stuck_not_crossed [OF race.reach_inv [OF r] y(2)] f have "waits (side y True) = None" by blast
  with f demo_asked_waits(1) obtain res where res: "(0, res) \<in> set (results (side y True))" "res \<noteq> timed_out" by auto
  with opens_pair_up [OF r, of True] r show ?thesis by (metis (full_types))
qed

lemma demo_prepares:
  "\<exists>q s. race_step demo_session_lib demo_srv_cfg demo_race (demo_race\<lparr> two := (demo_c2, s), prepared := [(demo_resources, q)] \<rparr>)"
proof -
  from create_outcome [OF demo_s3_names(2), of demo_srv_cfg demo_resources True] demo_resources_ok obtain t r where
    c: "create_channel_and_resources demo_session_lib demo_srv_cfg demo_resources True demo_s3 = Inr (t, r)" and
    r: "cr_ok r" "channel_made demo_session_lib demo_srv_cfg demo_resources demo_s3 t r" by auto
  from channel_made_fits [OF r] have ne: "or_opened_channel (prepared_req r) \<noteq> Blank" by (auto simp: prepared_req_def fits_def)
  have "Server_Session.m_master_channel t \<noteq> None"
    using res_frame_fields(4) [OF create_frame [OF c]] demo_peers(2) by (simp add: server_peer_def)
  moreover have "handlers_are_set demo_s3" "hosed demo_s3 = Inr False"
    using demo_peers(2) by (auto simp: server_peer_def handlers_are_set_def on_err_func_set_def)
  ultimately have "Server_Session.mdt_builder demo_session_lib demo_srv_cfg demo_resources demo_s3 = Inr (Some (prepared_req r), t)"
    using c r(1) by (simp add: Server_Session.mdt_builder_def)
  then have "race_step demo_session_lib demo_srv_cfg demo_race (demo_race\<lparr> two := (demo_c2, t), prepared := [(demo_resources, prepared_req r)] \<rparr>)"
    using race_env.prepares [of demo_race demo_session_lib demo_srv_cfg demo_resources "prepared_req r" t] ne
    by (simp add: race_step_def demo_race_def)
  then show ?thesis by blast
qed

theorem crossing_opens_wait_for_timeout_witness:
  "\<exists>x. reach (race_ini demo_session_lib) (race_step demo_session_lib demo_srv_cfg) x \<and>
     (\<forall>y. (race_forced demo_session_lib demo_srv_cfg)\<^sup>*\<^sup>* x y \<longrightarrow> (\<forall>b. waits (side y b) \<noteq> None \<and> results (side y b) = []))"
proof -
  from demo_prepares obtain q s where
    p: "race_step demo_session_lib demo_srv_cfg demo_race (demo_race\<lparr> two := (demo_c2, s), prepared := [(demo_resources, q)] \<rparr>)" by blast
  let ?x = "demo_race\<lparr> two := (demo_c2, s), prepared := [(demo_resources, q)] \<rparr>"
  let ?q = "q\<lparr> or_root := (or_root q)\<lparr> oc_mdt := [9] \<rparr> \<rparr>"
  have r: "reach (race_ini demo_session_lib) (race_step demo_session_lib demo_srv_cfg) (demo_asked ?x)"
    by (rule reach_step, rule reach_step, rule reach_init, rule demo_race_ini, rule p, rule demo_asked_step)
      (simp add: demo_race_def)
  have "may_ask (demo_asked ?x) (Srv_call ?q) demo_resources []" by (auto simp: may_ask_def demo_asked_def)
  from race_env.opens [OF _ _ this, of False demo_session_lib demo_srv_cfg] obtain z where
    z: "race_step demo_session_lib demo_srv_cfg (demo_asked ?x) z" and
    c: "\<forall>b. results (side z b) = [] \<and> rsps (inbox (side z b)) = [] \<and> waits (side z b) \<noteq> None"
    by (force simp: race_step_def demo_asked_def demo_race_def all_bool_eq)
  from c have "crossed z" unfolding crossed_def by auto
  from crossing_opens_wait_for_timeout [OF reach_step [OF r z] this] c reach_step [OF r z] show ?thesis by metis
qed


theorem messages_never_go_wrong_witness:
  "\<exists>m' chs p. race_serve demo_session_lib demo_srv_cfg False demo_channel_env demo_resources (call_msg (Cli_call [9]))
     (demo_c2, demo_s3) = Inr ([m'], chs, p) \<and> response_typed demo_srv_cfg True m'"
proof -
  let ?x = "demo_asked demo_race"
  let ?y = "?x\<lparr> side := (side ?x)(False := (side ?x False)\<lparr> inbox := [], posted := [(0, call_msg (Cli_call [9]))] \<rparr>) \<rparr>"
  have "race_step demo_session_lib demo_srv_cfg ?x ?y"
    using race_forced.receive_req [of ?x False 0 "call_msg (Cli_call [9])" "[]"]
    by (simp add: race_step_def demo_asked_def demo_race_def)
  from messages_never_go_wrong [OF reach_step [OF demo_asked_reach this], of False] demo_good(2) show ?thesis
    by (simp add: demo_asked_def demo_race_def)
qed

end
