(* ===== verification/Log_In_System.thy ===== *)
theory Log_In_System
  imports Session_Protocol
begin

text \<open>
  The log-in of both sides as a machine, with what may go wrong: each side's handlers run when their message has come, an
  operation of either may fail, and either channel may fail at any time. The client's request is under way; what the
  server sends arrives in order.

  The server's handler waits inside for the acknowledgement of the last init-channel (\<^verbatim>\<open>sync_request()\<close>). Its
  outcome is an argument of the model's handler; here it is split in two steps. \<open>srv_asks\<close> runs the handler up to the wait: the
  messages go out and the session is as it was; \<open>srv_acked\<close>, \<open>srv_unacked\<close> and \<open>ask_fails\<close> end the wait and give it the session the
  handler ends with. That the handler's messages do not depend on the outcome is \<open>open_init_ack\<close>.
\<close>

section \<open>The machine\<close>

text \<open>
  The two sessions and their channels; \<open>wire\<close> is all the server has sent and \<open>got\<close> counts what the client has handled of
  it; \<open>waits\<close> is set while the server waits for the acknowledgement; \<open>taken\<close> counts what the server has handled of
  the client's messages, or is handling; \<open>ran_with\<close> logs the answers of the system its handler of the request has got: they say which
  queues and socket pairs the init-channels were made of.
\<close>

record log_in_sys =
  lcli :: client_session
  lcch :: chan_status
  lsrv :: server_session
  lsch :: chan_status
  wire :: "msg list"
  got :: nat
  waits :: "(nat \<Rightarrow> srv_init_env) option"
  taken :: nat
  ran_with :: "(nat \<Rightarrow> srv_init_env) option"

definition log_in_start :: "client_session \<Rightarrow> server_session \<Rightarrow> log_in_sys" where
  "log_in_start c s = \<lparr> lcli = c, lcch = Ch_ok, lsrv = s, lsch = Ch_ok, wire = [], got = 0, waits = None,
     taken = length (sent c), ran_with = None \<rparr>"

text \<open>The environment of the server's handler, the outcome of the wait being \<open>a\<close>.\<close>

definition answering :: "bool \<times> error_code option \<Rightarrow> (nat \<Rightarrow> srv_init_env) \<Rightarrow> nat \<Rightarrow> srv_init_env" where
  "answering a env i = (env i)\<lparr> si_acked := fst a, si_err := snd a \<rparr>"

definition handle_req :: "session_lib \<Rightarrow> session_cfg \<Rightarrow> accept_callbacks \<Rightarrow> process_creds \<Rightarrow> string \<Rightarrow> send_answer \<Rightarrow>
    (nat \<Rightarrow> srv_init_env) \<Rightarrow> bool \<times> error_code option \<Rightarrow> msg \<Rightarrow> server_session \<Rightarrow> server_session res" where
  "handle_req L cfg cb creds name rsp env a m s = on_log_in_req L cfg cb creds name rsp (answering a env) m s"

definition new_msgs :: "server_session \<Rightarrow> server_session \<Rightarrow> msg list" where
  "new_msgs s s' = drop (length (s_sent s)) (s_sent s')"

text \<open>The handler gets as far as the wait if its result depends on the outcome.\<close>

definition waits_for_ack :: "session_lib \<Rightarrow> session_cfg \<Rightarrow> accept_callbacks \<Rightarrow> process_creds \<Rightarrow> string \<Rightarrow> send_answer \<Rightarrow>
    (nat \<Rightarrow> srv_init_env) \<Rightarrow> msg \<Rightarrow> server_session \<Rightarrow> bool" where
  "waits_for_ack L cfg cb creds name rsp env m s \<longleftrightarrow>
     handle_req L cfg cb creds name rsp env (True, None) m s \<noteq> handle_req L cfg cb creds name rsp env (False, None) m s"

abbreviation log_in_req_msg :: "log_in_sys \<Rightarrow> msg" where
  "log_in_req_msg x \<equiv> sent (lcli x) ! (taken x - 1)"

text \<open>
  The client: its part of the on-error handler, the response, and the requests that open init-channels. Only the
  last of these uses the channel.
\<close>

inductive log_in_cli :: "session_lib \<Rightarrow> session_cfg \<Rightarrow> log_in_sys \<Rightarrow> log_in_sys \<Rightarrow> bool"
  for L :: session_lib and ccfg :: session_cfg where
  cli_error:
    "lcch x = Ch_err_pending e \<Longrightarrow>
     Client_Session.on_master_channel_error ccfg user_hook (Client_Session.m_master_channel (lcli x)) e (lcli x) = Inr c \<Longrightarrow>
     log_in_cli L ccfg x (x\<lparr> lcli := c, lcch := Ch_err_emitted \<rparr>)"
| cli_rsp:
    "Client_Session.m_master_channel (lcli x) \<noteq> None \<Longrightarrow> c_expect (lcli x) = Expect_log_in_rsp \<Longrightarrow> got x < length (wire x) \<Longrightarrow>
     op_answer (lcch x) ok st \<Longrightarrow>
     on_master_channel_log_in_rsp L ccfg user_hook ok (wire x ! got x) (lcli x) = Inr c \<Longrightarrow>
     log_in_cli L ccfg x (x\<lparr> lcli := c, lcch := st, got := got x + 1 \<rparr>)"
| cli_init:
    "Client_Session.m_master_channel (lcli x) \<noteq> None \<Longrightarrow> c_expect (lcli x) = Expect_init_channels n chans md \<Longrightarrow>
     got x < length (wire x) \<Longrightarrow>
     op_answer (lcch x) (ie_undo_ok env) st1 \<Longrightarrow> op_answer st1 (ie_expect_ok env) st2 \<Longrightarrow> sending st2 (ie_rsp env) st \<Longrightarrow>
     (length chans + 1 \<noteq> n \<longrightarrow> st = lcch x) \<Longrightarrow>
     on_master_channel_init_open_channel ccfg user_hook env (wire x ! got x) n chans md (lcli x) = Inr c \<Longrightarrow>
     log_in_cli L ccfg x (x\<lparr> lcli := c, lcch := st, got := got x + 1 \<rparr>)"

text \<open>
  The server. A wait that the channel's failure ends gives neither response nor error (\<open>srv_unacked\<close>); the on-error
  handler then brings the error.
\<close>

inductive log_in_srv :: "session_lib \<Rightarrow> session_cfg \<Rightarrow> accept_callbacks \<Rightarrow> process_creds \<Rightarrow> string \<Rightarrow> log_in_sys \<Rightarrow> log_in_sys \<Rightarrow> bool"
  for L :: session_lib and cfg :: session_cfg and cb :: accept_callbacks and creds :: process_creds and name :: string where
  srv_error:
    "waits x = None \<Longrightarrow> lsch x = Ch_err_pending e \<Longrightarrow>
     Server_Session.on_master_channel_error cfg e (lsrv x) = Inr s \<Longrightarrow>
     log_in_srv L cfg cb creds name x (x\<lparr> lsrv := s, lsch := Ch_err_emitted \<rparr>)"
| srv_request:
    "waits x = None \<Longrightarrow> Server_Session.m_master_channel (lsrv x) \<noteq> None \<Longrightarrow> s_expect_log_in (lsrv x) \<Longrightarrow>
     \<not> waits_for_ack L cfg cb creds name rsp env (log_in_req_msg x) (lsrv x) \<Longrightarrow>
     handle_req L cfg cb creds name rsp env (True, None) (log_in_req_msg x) (lsrv x) = Inr s \<Longrightarrow>
     after_log_in s (lsch x) st \<Longrightarrow>
     log_in_srv L cfg cb creds name x (x\<lparr> lsrv := s, lsch := st, wire := new_msgs (lsrv x) s, ran_with := Some env \<rparr>)"
| srv_asks:
    "waits x = None \<Longrightarrow> Server_Session.m_master_channel (lsrv x) \<noteq> None \<Longrightarrow> s_expect_log_in (lsrv x) \<Longrightarrow> lsch x = Ch_ok \<Longrightarrow>
     waits_for_ack L cfg cb creds name Sent_ok env (log_in_req_msg x) (lsrv x) \<Longrightarrow>
     handle_req L cfg cb creds name Sent_ok env (True, None) (log_in_req_msg x) (lsrv x) = Inr s \<Longrightarrow>
     log_in_srv L cfg cb creds name x (x\<lparr> waits := Some env, wire := new_msgs (lsrv x) s, ran_with := Some env \<rparr>)"
| srv_acked:
    "waits x = Some env \<Longrightarrow> lsch x = Ch_ok \<Longrightarrow> taken x < length (sent (lcli x)) \<Longrightarrow>
     handle_req L cfg cb creds name Sent_ok env (True, None) (log_in_req_msg x) (lsrv x) = Inr s \<Longrightarrow>
     log_in_srv L cfg cb creds name x (x\<lparr> lsrv := s, waits := None, taken := taken x + 1 \<rparr>)"
| srv_unacked:
    "waits x = Some env \<Longrightarrow> lsch x = Ch_err_pending e \<Longrightarrow>
     handle_req L cfg cb creds name Sent_ok env (False, None) (log_in_req_msg x) (lsrv x) = Inr s \<Longrightarrow>
     log_in_srv L cfg cb creds name x (x\<lparr> lsrv := s, waits := None \<rparr>)"

text \<open>A side whose peer has dropped its channel hears of it once it has handled all that was sent before.\<close>

inductive log_in_gone :: "log_in_sys \<Rightarrow> log_in_sys \<Rightarrow> bool" where
  cli_hears:
    "Server_Session.m_master_channel (lsrv x) = None \<Longrightarrow> waits x = None \<Longrightarrow> got x = length (wire x) \<Longrightarrow> lcch x = Ch_ok \<Longrightarrow>
     Client_Session.m_master_channel (lcli x) \<noteq> None \<Longrightarrow>
     log_in_gone x (x\<lparr> lcch := Ch_err_pending e \<rparr>)"
| srv_hears:
    "Client_Session.m_master_channel (lcli x) = None \<Longrightarrow> taken x = length (sent (lcli x)) \<Longrightarrow> lsch x = Ch_ok \<Longrightarrow>
     Server_Session.m_master_channel (lsrv x) \<noteq> None \<Longrightarrow>
     log_in_gone x (x\<lparr> lsch := Ch_err_pending e \<rparr>)"

text \<open>Failures that come unasked: of either channel, or of the wait itself.\<close>

inductive log_in_env :: "session_lib \<Rightarrow> session_cfg \<Rightarrow> accept_callbacks \<Rightarrow> process_creds \<Rightarrow> string \<Rightarrow> log_in_sys \<Rightarrow> log_in_sys \<Rightarrow> bool"
  for L :: session_lib and cfg :: session_cfg and cb :: accept_callbacks and creds :: process_creds and name :: string where
  cli_fails:
    "Client_Session.m_master_channel (lcli x) \<noteq> None \<Longrightarrow> lcch x = Ch_ok \<Longrightarrow>
     log_in_env L cfg cb creds name x (x\<lparr> lcch := Ch_err_pending e \<rparr>)"
| srv_fails:
    "Server_Session.m_master_channel (lsrv x) \<noteq> None \<Longrightarrow> lsch x = Ch_ok \<Longrightarrow>
     log_in_env L cfg cb creds name x (x\<lparr> lsch := Ch_err_pending e \<rparr>)"
| ask_fails:
    "waits x = Some env \<Longrightarrow> lsch x = Ch_ok \<Longrightarrow> e \<noteq> Transport_err T_TIMEOUT \<Longrightarrow>
     handle_req L cfg cb creds name Sent_ok env (False, Some e) (log_in_req_msg x) (lsrv x) = Inr s \<Longrightarrow>
     log_in_env L cfg cb creds name x (x\<lparr> lsrv := s, lsch := Ch_err_emitted, waits := None \<rparr>)"

text \<open>The steps that will happen, and all steps.\<close>

definition log_in_forced :: "session_lib \<Rightarrow> session_cfg \<Rightarrow> session_cfg \<Rightarrow> accept_callbacks \<Rightarrow> process_creds \<Rightarrow> string \<Rightarrow>
    log_in_sys \<Rightarrow> log_in_sys \<Rightarrow> bool" where
  "log_in_forced L ccfg cfg cb creds name x y \<longleftrightarrow>
     log_in_cli L ccfg x y \<or> log_in_srv L cfg cb creds name x y \<or> log_in_gone x y"

definition log_in_step :: "session_lib \<Rightarrow> session_cfg \<Rightarrow> session_cfg \<Rightarrow> accept_callbacks \<Rightarrow> process_creds \<Rightarrow> string \<Rightarrow>
    log_in_sys \<Rightarrow> log_in_sys \<Rightarrow> bool" where
  "log_in_step L ccfg cfg cb creds name x y \<longleftrightarrow>
     log_in_forced L ccfg cfg cb creds name x y \<or> log_in_env L cfg cb creds name x y"

section \<open>What the server's handler does\<close>

abbreviation asked_channels :: "accept_callbacks \<Rightarrow> log_in_req \<Rightarrow> server_session \<Rightarrow> nat" where
  "asked_channels cb q s \<equiv> unat (total_init_channels cb (app_of cb q) q s)"

abbreviation granting_rsp :: "accept_callbacks \<Rightarrow> log_in_req \<Rightarrow> server_session \<Rightarrow> msg" where
  "granting_rsp cb q s \<equiv> fill_log_in_rsp cb (app_of cb q) q (total_init_channels cb (app_of cb q) q s) (checked cb q s)"

abbreviation req_of :: "channel_resources \<Rightarrow> msg" where
  "req_of r \<equiv> open_channel_req_msg (prepared_req r)"

definition before_log_in :: "session_lib \<Rightarrow> session_cfg \<Rightarrow> accept_callbacks \<Rightarrow> process_creds \<Rightarrow> string \<Rightarrow> log_in_req \<Rightarrow>
    server_session \<Rightarrow> bool" where
  "before_log_in L cfg cb creds name q s \<longleftrightarrow> m_log_in_on_done_func s \<noteq> None \<and> Server_Session.m_master_channel s \<noteq> None \<and>
     s_expect_log_in s \<and> s_done_calls s = [] \<and> m_cli_app_ptr s = None \<and> m_cli_namespace s = [] \<and> namespace_usable L cb \<and>
     (first_failure (log_in_checks L cfg cb creds name q s) = None \<longrightarrow>
        session_names_ok L (checked cb q s) \<and>
        (out_by_srv_req (s_out s) \<noteq> None \<longrightarrow> unat (lq_n_init_by_cli q) +
           unat (n_init_channels_by_srv_req_func cb (app_of cb q) (lq_n_init_by_cli q) (lq_mdt q)) < 2 ^ 64))"

lemma before_ready: "before_log_in L cfg cb creds name q s \<Longrightarrow> first_failure (log_in_checks L cfg cb creds name q s) = None \<Longrightarrow>
    ready_for_log_in L cfg cb creds name q s \<and> session_names_ok L (checked cb q s)"
  by (simp add: before_log_in_def ready_for_log_in_def)

lemma open_init_run:
  assumes "open_init_channels L cfg env k chans s = Inr (s', chans', ok, e)" "session_names_ok L s"
  shows "\<exists>rs. s_sent s' = s_sent s @ map req_of rs \<and> length rs \<le> k \<and> res_frame s s' \<and>
    (\<forall>i < length rs. fits cfg (si_resources (env (length chans + i))) (rs ! i)) \<and>
    (ok \<longrightarrow> length rs = k \<and> chans' = chans @ map cr_channel rs \<and> (0 < k \<longrightarrow> si_acked (env (length chans + k - 1))))"
  using assms
proof (induction k arbitrary: chans s)
  case 0
  then show ?case by (intro exI [of _ "[]"]) simp
next
  case (Suc k)
  let ?e = "env (length chans)"
  from create_outcome [OF Suc.prems(2), of cfg "si_resources ?e" True] obtain t r where
    c: "create_channel_and_resources L cfg (si_resources ?e) True s = Inr (t, r)"
    and m: "cr_ok r \<Longrightarrow> channel_made L cfg (si_resources ?e) s t r" by (auto split: if_splits)
  note frame = create_frame [OF c] and snt = create_sent [OF c]
  obtain o1 e1 where o1: "send_init_channel (k = 0) ?e = (o1, e1)" by fastforce
  let ?t = "t\<lparr> s_sent := s_sent s @ [req_of r] \<rparr>"
  have "open_init_channels L cfg env (Suc k) chans s =
     (if \<not> cr_ok r then Inr (t, chans, False, Some (make_error_code S_SESSION_OPEN_CHANNEL_SERVER_CANNOT_PROCEED_RESOURCE_UNAVAILABLE))
      else if \<not> o1 then Inr (if o1 then ?t else t, chans, False, e1)
      else if k = 0 then Inr (if o1 then ?t else t, chans @ [cr_channel r], True, e1)
      else open_init_channels L cfg env k (chans @ [cr_channel r]) (if o1 then ?t else t))"
    by (simp add: c o1 snt Let_def)
  note eq = trans [OF this [symmetric] Suc.prems(1)]
  have "s' = t \<and> \<not> ok \<or> (k = 0 \<and> cr_ok r \<and> o1 \<and> s' = ?t \<and> ok \<and> chans' = chans @ [cr_channel r]) \<or>
      (k \<noteq> 0 \<and> cr_ok r \<and> open_init_channels L cfg env k (chans @ [cr_channel r]) ?t = Inr (s', chans', ok, e))"
  proof (cases "cr_ok r \<and> o1")
    case True
    then show ?thesis using eq by (cases "k = 0") (simp_all only: simp_thms if_True if_False sum.inject prod.inject)
  next
    case False
    then show ?thesis using eq by (cases "cr_ok r") (simp_all only: simp_thms if_True if_False sum.inject prod.inject)
  qed
  then consider (none) "s' = t" "\<not> ok" | (last) "k = 0" "cr_ok r" "o1" "s' = ?t" "ok" "chans' = chans @ [cr_channel r]"
    | (more) "k \<noteq> 0" "cr_ok r" "open_init_channels L cfg env k (chans @ [cr_channel r]) ?t = Inr (s', chans', ok, e)"
    by blast
  then show ?case
  proof cases
    case none
    with snt frame show ?thesis by (intro exI [of _ "[]"]) simp
  next
    case last
    with o1 have "si_acked ?e" by (simp add: send_init_channel_def)
    with last frame channel_made_fits [OF last(2) m [OF last(2)]] show ?thesis by (intro exI [of _ "[r]"]) simp
  next
    case more
    have f: "res_frame s ?t" using frame by simp
    with Suc.prems(2) have "session_names_ok L ?t" using session_names_ok_frame [OF f] by simp
    from Suc.IH [OF more(3) this] obtain rs where rs: "s_sent s' = s_sent ?t @ map req_of rs" "length rs \<le> k" "res_frame ?t s'"
      "\<forall>i < length rs. fits cfg (si_resources (env (length chans + Suc i))) (rs ! i)"
      "ok \<longrightarrow> length rs = k \<and> chans' = (chans @ [cr_channel r]) @ map cr_channel rs \<and>
         (0 < k \<longrightarrow> si_acked (env (length chans + k)))" by auto
    have "\<forall>i < length (r # rs). fits cfg (si_resources (env (length chans + i))) ((r # rs) ! i)"
      using rs(4) channel_made_fits [OF more(2) m [OF more(2)]] by (auto simp: less_Suc_eq_0_disj)
    with rs(1,2,5) more(1) res_frame_trans [OF f rs(3)] show ?thesis by (intro exI [of _ "r # rs"]) auto
  qed
qed

lemma emit_srv_only:
  assumes "Server_Session.emit_init_channels n k chans md s = Inr s'"
    "length chans = n" "k \<le> n" "out_by_cli_req (s_out s) = None \<Longrightarrow> k = 0"
    "out_by_srv_req (s_out s) = None \<Longrightarrow> k = n"
  shows "s' = s\<lparr> s_out := filled_out (s_out s) k chans md \<rparr>"
  using emit_srv_ok [of chans n k s md] assms by simp

text \<open>
  The result \<open>s'\<close> of handling a request that is granted: the response went out, and the requests for the first
  \<open>length rs\<close> init-channels. If the log-in completed these are all.
\<close>

definition granted :: "session_cfg \<Rightarrow> accept_callbacks \<Rightarrow> log_in_req \<Rightarrow> server_session \<Rightarrow> (nat \<Rightarrow> srv_init_env) \<Rightarrow>
    channel_resources list \<Rightarrow> server_session \<Rightarrow> bool" where
  "granted cfg cb q s env rs s' \<longleftrightarrow> s_sent s' = s_sent s @ granting_rsp cb q s # map req_of rs \<and>
     length rs \<le> asked_channels cb q s \<and> (\<forall>i < length rs. fits cfg (si_resources (env i)) (rs ! i)) \<and>
     m_cli_namespace s' = cli_namespace_func cb \<and> m_cli_app_ptr s' = cli_app_lookup_func cb (lq_own_app q) \<and>
     (logged_in s' \<longrightarrow> length rs = asked_channels cb q s \<and>
        s_out s' = (if rs = [] then (s_out s)\<lparr> out_mdt_from_cli := map_option (\<lambda>_. Some (lq_mdt q)) (out_mdt_from_cli (s_out s)) \<rparr>
          else filled_out (s_out s) (unat (lq_n_init_by_cli q)) (map cr_channel rs) (lq_mdt q)))"

lemma res_frame_expects: "res_frame s t \<Longrightarrow> s_expect_log_in t = s_expect_log_in s"
  by (erule res_frameE) simp

lemma finish_with_run:
  assumes "finish_with_init_channels L cfg env n k md s = Inr s'" "session_names_ok L s" "k \<le> n" "0 < n"
    "out_by_cli_req (s_out s) = None \<Longrightarrow> k = 0" "out_by_srv_req (s_out s) = None \<Longrightarrow> k = n" "s_done_calls s = []"
  shows "\<exists>rs. s_sent s' = s_sent s @ map req_of rs \<and> length rs \<le> n \<and>
    (\<forall>i < length rs. fits cfg (si_resources (env i)) (rs ! i)) \<and>
    m_cli_namespace s' = m_cli_namespace s \<and> m_cli_app_ptr s' = m_cli_app_ptr s \<and>
    (logged_in s' \<longrightarrow> length rs = n \<and> s_out s' = filled_out (s_out s) k (map cr_channel rs) md \<and> si_acked (env (n - 1)) \<and>
       m_log_in_on_done_func s' = None) \<and>
    (\<not> logged_in s' \<longrightarrow> s_done_calls s' = [] \<and> m_log_in_on_done_func s' = m_log_in_on_done_func s \<and>
          Server_Session.m_master_channel s' = Server_Session.m_master_channel s \<or>
       (\<exists>h e. s_done_calls s' = [(h, Some e)] \<and> m_log_in_on_done_func s' = None \<and> Server_Session.m_master_channel s' = None))"
proof -
  from assms(1) obtain u chans ok e where o: "open_init_channels L cfg env n [] s = Inr (u, chans, ok, e)"
    by (auto simp: finish_with_init_channels_def res_bind_eq_Inr)
  from open_init_run [OF o assms(2)] obtain rs where rs: "s_sent u = s_sent s @ map req_of rs" "length rs \<le> n" "res_frame s u"
    "\<forall>i < length rs. fits cfg (si_resources (env i)) (rs ! i)"
    "ok \<longrightarrow> length rs = n \<and> chans = map cr_channel rs \<and> si_acked (env (n - 1))" using assms(4) by auto
  note f = res_frame_fields [OF rs(3)]
  show ?thesis
  proof (cases ok)
    case True
    with rs(5) have l: "length rs = n" "chans = map cr_channel rs" "si_acked (env (n - 1))" by blast+
    from assms(1) True o obtain v where v: "Server_Session.emit_init_channels n k chans md u = Inr v" "e = None"
      "finish_log_in None v = Inr s'" by (auto simp: finish_with_init_channels_def res_bind_eq_Inr)
    have "v = u\<lparr> s_out := filled_out (s_out u) k chans md \<rparr>"
      by (rule emit_srv_only [OF v(1) _ assms(3)]) (use l assms(5,6) f(3) in simp_all)
    with v(3) obtain h where "s' = u\<lparr> s_out := filled_out (s_out u) k chans md,
        s_done_calls := [(h, None)], m_log_in_on_done_func := None \<rparr>"
      using f(2) assms(7) by (auto simp: finish_log_in_Inr)
    with l rs(1,4) f show ?thesis by (intro exI [of _ rs]) (simp add: logged_in_def)
  next
    case False
    with assms(1) o have "s' = u \<or> (\<exists>c. finish_log_in (Some c) (u\<lparr> Server_Session.m_master_channel := None \<rparr>) = Inr s')"
      by (auto simp: finish_with_init_channels_def split: option.splits)
    then show ?thesis
      using rs(1,2,4) f assms(7) by (intro exI [of _ rs]) (auto simp: finish_log_in_Inr logged_in_def)
  qed
qed

lemma request_run:
  assumes b: "before_log_in L cfg cb creds name q s" "body m = LogInReq q"
    and r: "on_log_in_req L cfg cb creds name rsp env m s = Inr s'"
  shows "(s_sent s' = s_sent s \<and> \<not> logged_in s' \<or>
     first_failure (log_in_checks L cfg cb creds name q s) = None \<and> (\<exists>rs. granted cfg cb q s env rs s')) \<and>
   \<not> s_expect_log_in s' \<and>
   (logged_in s' \<longrightarrow> m_log_in_on_done_func s' = None \<and>
      (asked_channels cb q s = 0 \<or> si_acked (env (asked_channels cb q s - 1)))) \<and>
   (\<not> logged_in s' \<longrightarrow> s_done_calls s' = [] \<and> m_log_in_on_done_func s' \<noteq> None \<and> Server_Session.m_master_channel s' \<noteq> None \<or>
       (\<exists>h e. s_done_calls s' = [(h, Some e)] \<and> m_log_in_on_done_func s' = None \<and> Server_Session.m_master_channel s' = None))"
proof (cases "first_failure (log_in_checks L cfg cb creds name q s)")
  case (Some e)
  let ?s = "s\<lparr> s_expect_log_in := False \<rparr>"
  have c: "log_in_checks L cfg cb creds name q ?s = log_in_checks L cfg cb creds name q s" by (simp add: log_in_checks_def)
  have g: "getLogInReq m = Inr q" using b(2) by (simp add: getLogInReq_def)
  from check_log_in_req_eq [of ?s L cb cfg creds name q] Some c b(1) obtain t where
    t: "res_frame (?s\<lparr> m_cli_app_ptr := m_cli_app_ptr t, m_cli_namespace := m_cli_namespace t \<rparr>) t" "s_sent t = s_sent s"
    "check_log_in_req L cfg cb creds name q ?s = Inr (t, Inl e)" by (auto simp: before_log_in_def)
  from r g t(3) have "finish_log_in (Some e) (t\<lparr> Server_Session.m_master_channel := None \<rparr>) = Inr s'"
    by (simp add: on_log_in_req_def)
  moreover have "s_done_calls t = []" "\<not> s_expect_log_in t"
    using res_frame_fields(2) [OF t(1)] res_frame_expects [OF t(1)] b(1) by (simp_all add: before_log_in_def)
  ultimately show ?thesis using t(2) by (auto simp: finish_log_in_Inr logged_in_def)
next
  case None
  from before_ready [OF b(1) None] have rd: "ready_for_log_in L cfg cb creds name q s" and
    names: "session_names_ok L (checked cb q s)" by simp_all
  have s: "s_done_calls s = []" "m_log_in_on_done_func s \<noteq> None" "Server_Session.m_master_channel s \<noteq> None" using b(1) by (simp_all add: before_log_in_def)
  note bounds = total_init_channels_bounds [OF rd]
  note eq = r [unfolded on_log_in_req_checked [OF rd b(2)] Let_def]
  let ?u = "(checked cb q s)\<lparr> s_sent := s_sent s @ [granting_rsp cb q s] \<rparr>"
  have u: "s_out ?u = s_out s" "s_done_calls ?u = []" "m_cli_namespace ?u = cli_namespace_func cb" "\<not> s_expect_log_in ?u"
    "m_cli_app_ptr ?u = cli_app_lookup_func cb (lq_own_app q)" "m_log_in_on_done_func ?u = m_log_in_on_done_func s"
    "s_sent (checked cb q s) = s_sent s" "s_done_calls (checked cb q s) = []" "\<not> s_expect_log_in (checked cb q s)"
    "m_log_in_on_done_func (checked cb q s) = m_log_in_on_done_func s"
    "Server_Session.m_master_channel (checked cb q s) = Server_Session.m_master_channel s"
    using s by (simp_all add: checked_def)
  show ?thesis
  proof (cases rsp)
    case Refused
    with eq have "s' = checked cb q s" by simp
    with u s show ?thesis by (simp add: logged_in_def)
  next
    case (Sent_err e)
    with eq u show ?thesis by (auto simp: finish_log_in_Inr logged_in_def)
  next
    case Sent_ok
    show ?thesis
    proof (cases "total_init_channels cb (app_of cb q) q s = 0")
      case True
      with Sent_ok eq obtain h where h: "s' = (if out_mdt_from_cli (s_out s) \<noteq> None
            then ?u\<lparr> s_out := (s_out s)\<lparr> out_mdt_from_cli := Some (Some (lq_mdt q)) \<rparr> \<rparr> else ?u)
          \<lparr> s_done_calls := [(h, None)], m_log_in_on_done_func := None \<rparr>"
        using u by (auto simp: finish_log_in_Inr split: if_splits)
      have "granted cfg cb q s env [] s'"
        by (cases "out_mdt_from_cli (s_out s)") (use h u True in \<open>simp_all add: granted_def\<close>)
      moreover have "logged_in s'" "\<not> s_expect_log_in s'" "m_log_in_on_done_func s' = None" using h u by (simp_all add: logged_in_def)
      ultimately show ?thesis using None True by auto
    next
      case False
      with Sent_ok eq have fin: "finish_with_init_channels L cfg env (asked_channels cb q s) (unat (lq_n_init_by_cli q)) (lq_mdt q) ?u = Inr s'"
        by simp
      have n: "0 < asked_channels cb q s" using False by (simp add: word_gt_0 unat_gt_0)
      have ok: "session_names_ok L ?u" using names by (simp add: session_names_ok_def)
      from finish_with_run [OF fin ok bounds(1) n] u bounds obtain rs where rs:
        "s_sent s' = s_sent ?u @ map req_of rs" "length rs \<le> asked_channels cb q s"
        "\<forall>i < length rs. fits cfg (si_resources (env i)) (rs ! i)"
        "m_cli_namespace s' = cli_namespace_func cb" "m_cli_app_ptr s' = cli_app_lookup_func cb (lq_own_app q)"
        "logged_in s' \<longrightarrow> length rs = asked_channels cb q s \<and>
           s_out s' = filled_out (s_out s) (unat (lq_n_init_by_cli q)) (map cr_channel rs) (lq_mdt q) \<and>
           si_acked (env (asked_channels cb q s - 1)) \<and> m_log_in_on_done_func s' = None"
        "\<not> logged_in s' \<longrightarrow> s_done_calls s' = [] \<and> m_log_in_on_done_func s' = m_log_in_on_done_func s \<and>
          Server_Session.m_master_channel s' = Server_Session.m_master_channel s \<or>
          (\<exists>h e. s_done_calls s' = [(h, Some e)] \<and> m_log_in_on_done_func s' = None \<and> Server_Session.m_master_channel s' = None)"
        by auto
      have "granted cfg cb q s env rs s'" using rs n by (auto simp: granted_def)
      moreover have "\<not> s_expect_log_in s'"
        using finish_with_cases [OF fin] u by (auto elim!: res_frameE)
      ultimately show ?thesis using None rs(6,7) s by auto
    qed
  qed
qed

section \<open>What the client's handlers do\<close>

definition asks_log_in :: "log_in_req \<Rightarrow> client_session \<Rightarrow> bool" where
  "asks_log_in q c \<longleftrightarrow> m_state c = S_CONNECTING \<and> m_conn_on_done_func_or_empty c \<noteq> None \<and>
     Client_Session.m_master_channel c \<noteq> None \<and> c_expect c = Expect_log_in_rsp \<and> m_cli_namespace c = [] \<and>
     done_calls c = [] \<and> n_by_cli c < 2 ^ 64 \<and> sent c \<noteq> [] \<and> body (last (sent c)) = LogInReq q \<and>
     lq_n_init_by_cli q = word_of_nat (n_by_cli c)"

text \<open>The connect has ended without success, or will.\<close>

definition gave_up :: "client_session \<Rightarrow> client_session \<Rightarrow> bool" where
  "gave_up c0 c \<longleftrightarrow> sent c = sent c0 \<and> (m_state c = S_NULL \<or> m_state c = S_CONNECTING \<and>
     (case c_expect c of Expect_log_in_rsp \<Rightarrow> False | Expect_init_channels n chans md \<Rightarrow> n \<le> length chans | _ \<Rightarrow> True))"

definition collecting :: "nat \<Rightarrow> shared_name \<Rightarrow> mdt option \<Rightarrow> client_session \<Rightarrow> channel_obj list \<Rightarrow> client_session \<Rightarrow> bool" where
  "collecting n ns md c0 chans c \<longleftrightarrow> m_state c = S_CONNECTING \<and> c_expect c = Expect_init_channels n chans md \<and> length chans < n \<and>
     m_cli_namespace c = ns \<and> c_out c = c_out c0 \<and> done_calls c = done_calls c0 \<and> sent c = sent c0"

definition in_peer :: "nat \<Rightarrow> shared_name \<Rightarrow> mdt option \<Rightarrow> client_session \<Rightarrow> channel_obj list \<Rightarrow> client_session \<Rightarrow> bool" where
  "in_peer n ns md c0 chans c \<longleftrightarrow> m_state c = S_PEER \<and> length chans = n \<and> m_cli_namespace c = ns \<and>
     sent c = sent c0 @ (if n = 0 then [] else [open_channel_rsp_to_srv ACCEPTED]) \<and>
     (\<exists>h. done_calls c = done_calls c0 @ [(h, None)]) \<and> n_by_cli c0 \<le> n \<and>
     c_out c = (if n = 0 then log_in_out (c_out c0) md else init_out (c_out c0) (n_by_cli c0) chans md)"

lemma rsp_run:
  assumes c0: "asks_log_in q c0" and m: "body m = LogInRsp r" "lr_n_init_by_srv r = t - lq_n_init_by_cli q"
    and run: "on_master_channel_log_in_rsp L ccfg user_hook ok m c0 = Inr c"
  defines "md \<equiv> if out_mdt (c_out c0) \<noteq> None then Some (lr_mdt r) else None"
  shows "gave_up c0 c \<or> collecting (unat t) (lr_cli_namespace r) md c0 [] c \<or> in_peer (unat t) (lr_cli_namespace r) md c0 [] c"
proof -
  let ?s = "c0\<lparr> c_expect := Expect_nothing \<rparr>"
  have q: "lq_n_init_by_cli q = word_of_nat (n_by_cli c0)" using c0 by (simp add: asks_log_in_def)
  from run obtain s1 res where c: "check_log_in_rsp L m ?s = Inr (s1, res)"
    by (auto simp: on_master_channel_log_in_rsp_def res_bind_eq_Inr)
  have cases: "(\<exists>e. res = Inl e \<and> s1 = ?s) \<or>
      (res = Inr (unat t, md) \<and> s1 = ?s\<lparr> m_cli_namespace := lr_cli_namespace r \<rparr>)"
    using c m q
    by (auto simp: check_log_in_rsp_def res_bind_eq_Inr set_cli_namespace_Inr n_by_cli_def md_def
        split: option.splits if_splits)
  from cases show ?thesis
  proof (elim disjE exE conjE)
    fix e assume "res = Inl e" "s1 = ?s"
    with run c show ?thesis by (auto simp: on_master_channel_log_in_rsp_def gave_up_def)
  next
    assume r: "res = Inr (unat t, md)" "s1 = ?s\<lparr> m_cli_namespace := lr_cli_namespace r \<rparr>"
    show ?thesis
    proof (cases "unat t = 0")
      case False
      with run c r have "c = (if ok then s1\<lparr> c_expect := Expect_init_channels (unat t) [] md \<rparr> else s1)"
        by (cases ok) (simp_all add: on_master_channel_log_in_rsp_def)
      with r False c0 show ?thesis by (cases ok) (simp_all add: collecting_def gave_up_def asks_log_in_def)
    next
      case True
      with run c r have fin: "log_in_finish ccfg user_hook ok md s1 = Inr c"
        by (simp add: on_master_channel_log_in_rsp_def)
      then have "out_by_cli (c_out s1) = None \<or> out_by_cli (c_out s1) = Some []" "(out_mdt (c_out s1) \<noteq> None) = (md \<noteq> None)"
        by (auto simp: log_in_finish_def Let_def split: if_splits)
      note eq = log_in_finish_eq [OF this, of ccfg user_hook, unfolded Let_def]
      have z: "n_by_cli c0 = 0" using \<open>out_by_cli (c_out s1) = None \<or> _\<close> r(2) by (auto simp: n_by_cli_def)
      show ?thesis
      proof (cases ok)
        case False
        with fin have "c = s1\<lparr> c_out := log_in_out (c_out s1) md \<rparr>" by (simp add: eq)
        with r c0 have "gave_up c0 c" by (simp add: gave_up_def asks_log_in_def)
        then show ?thesis by blast
      next
        case k: True
        with fin obtain f where "c = s1\<lparr> c_out := log_in_out (c_out s1) md, c_expect := Expect_open_channel,
            m_state := S_PEER, m_conn_on_done_func_or_empty := None, done_calls := done_calls s1 @ [(f, None)] \<rparr>"
          by (auto simp: eq res_bind_eq_Inr after_peer_Inr)
        with r True z have "in_peer (unat t) (lr_cli_namespace r) md c0 [] c" by (simp add: in_peer_def)
        then show ?thesis by blast
      qed
    qed
  qed
qed

lemma create_passive_only:
  assumes "create_channel_obj cfg env (oc_mq_c2s_or_empty r) (oc_mq_s2c_or_empty r) (native_handle_or_null m) False s = Inr (s', ch, None)"
    "body m = OpenChannelToClientReq r"
  shows "s' = s\<lparr> Client_Session.m_last_passively_opened_channel_id := Client_Session.m_last_passively_opened_channel_id s + 1 \<rparr> \<and>
    (\<exists>n. ch = passive_channel cfg n m)"
  using assms
  by (auto simp: create_channel_obj_def Client_Session.channel_nickname_def passive_channel_def Let_def split: if_splits option.splits)

lemma emit_cli_only:
  assumes "Client_Session.emit_init_channels n chans md s = Inr s'" "length chans = n"
  shows "s' = s\<lparr> c_out := init_out (c_out s) (n_by_cli s) chans md \<rparr> \<and> n_by_cli s \<le> n"
proof -
  from assms have "n_by_cli s \<le> n" "out_by_srv (c_out s) \<noteq> None \<or> n_by_cli s = n" "(out_mdt (c_out s) \<noteq> None) = (md \<noteq> None)"
    by (auto simp: Client_Session.emit_init_channels_def Let_def split: if_splits)
  from emit_init_channels_eq [OF assms(2) this] this(1) assms(1) show ?thesis by simp
qed

lemma init_run:
  assumes c: "collecting n ns md c0 chans c" and k: "c_expect c = Expect_init_channels n' chans' md'"
    and run: "on_master_channel_init_open_channel ccfg user_hook env m n' chans' md' c = Inr c'"
  shows "gave_up c0 c' \<or> (\<exists>k. let chans = chans @ [passive_channel ccfg k m] in
     collecting n ns md c0 chans c' \<or> in_peer n ns md c0 chans c')"
proof -
  from c k have e: "n' = n" "chans' = chans" "md' = md" "length chans < n" by (auto simp: collecting_def)
  from run obtain r s1 ch where r: "body m = OpenChannelToClientReq r" and
    cr: "create_channel_obj ccfg (ie_channel env) (oc_mq_c2s_or_empty r) (oc_mq_s2c_or_empty r) (native_handle_or_null m) False c
      = Inr (s1, ch, None)"
    by (auto simp: on_master_channel_init_open_channel_def res_bind_eq_Inr getOpenChannelToClientReq_def split: msg_body.splits)
  from create_passive_only [OF cr r] obtain k where
    s1: "s1 = c\<lparr> Client_Session.m_last_passively_opened_channel_id := Client_Session.m_last_passively_opened_channel_id c + 1 \<rparr>"
    and ch: "ch = passive_channel ccfg k m" by blast
  let ?chans = "chans @ [ch]" let ?t = "s1\<lparr> c_expect := Expect_init_channels n ?chans md \<rparr>"
  have run': "(if length ?chans \<noteq> n then Inr ?t else complete_init_channels ccfg user_hook env n ?chans md ?t) = Inr c'"
    using run cr r by (simp add: e on_master_channel_init_open_channel_def getOpenChannelToClientReq_def Let_def split: if_splits)
  show ?thesis
  proof (cases "length ?chans = n")
    case False
    with run' have "c' = ?t" by simp
    with False c e s1 have "collecting n ns md c0 ?chans c'" by (simp add: collecting_def)
    with ch show ?thesis by (auto simp: Let_def)
  next
    case True
    with run' have comp: "complete_init_channels ccfg user_hook env n ?chans md ?t = Inr c'" by simp
    show ?thesis
    proof (cases "ie_undo_ok env \<and> ie_expect_ok env \<and> ie_rsp env = Sent_ok")
      case False
      then have "gave_up c0 c'" using comp c s1 True
        by (auto simp: complete_init_channels_def gave_up_def collecting_def Let_def split: if_splits send_answer.splits)
      then show ?thesis by blast
    next
      case g: True
      then obtain v where v: "Client_Session.emit_init_channels n ?chans md (?t\<lparr> c_expect := Expect_open_channel,
          sent := sent ?t @ [open_channel_rsp_to_srv ACCEPTED] \<rparr>) = Inr v"
        "res_bind (invoke_conn_on_done_func user_hook None (v\<lparr> m_state := S_PEER \<rparr>)) (after_peer ccfg) = Inr c'"
        using comp by (auto simp: complete_init_channels_def res_bind_eq_Inr Let_def)
      from emit_cli_only [OF v(1) True] have v1: "v = ?t\<lparr> c_expect := Expect_open_channel,
          sent := sent ?t @ [open_channel_rsp_to_srv ACCEPTED], c_out := init_out (c_out c0) (n_by_cli c0) ?chans md \<rparr>"
        "n_by_cli c0 \<le> n"
        using c s1 by (simp_all add: collecting_def n_by_cli_def)
      with v(2) c s1 True have "in_peer n ns md c0 ?chans c'"
        by (auto simp: in_peer_def res_bind_eq_Inr after_peer_Inr collecting_def)
      with ch show ?thesis by (auto simp: Let_def)
    qed
  qed
qed

section \<open>The acknowledgement\<close>

text \<open>
  Whether the wait has an outcome to wait for is decided before it: either the outcome plays no part, or it
  decides the loop's result, the wait being its last operation.
\<close>

lemma open_init_ack:
  "(\<forall>a. open_init_channels L cfg (answering a env) k chans s = open_init_channels L cfg (answering (True, None) env) k chans s) \<or>
   (0 < k \<and> (\<exists>t1 c1 t2 c2. open_init_channels L cfg (answering (True, None) env) k chans s = Inr (t1, c1, True, None) \<and>
      (\<forall>e. open_init_channels L cfg (answering (False, e) env) k chans s = Inr (t2, c2, False, e))))"
proof (induction k arbitrary: chans s)
  case 0
  then show ?case by simp
next
  case (Suc k)
  have res: "si_resources (answering a env i) = si_resources (env i)" "si_send (answering a env i) = si_send (env i)" for a i
    by (simp_all add: answering_def)
  show ?case
  proof (cases "create_channel_and_resources L cfg (si_resources (env (length chans))) True s")
    case (Inl p)
    then show ?thesis by (simp add: res Let_def)
  next
    case (Inr p)
    obtain t r where p: "p = (t, r)" by fastforce
    show ?thesis
    proof (cases "cr_ok r")
      case False
      with Inr p show ?thesis by (simp add: res Let_def)
    next
      case True
      show ?thesis
      proof (cases "k = 0")
        case k: True
        with Inr p True show ?thesis by (simp add: res Let_def send_init_channel_def answering_def)
      next
        case k: False
        let ?t = "t\<lparr> s_sent := s_sent t @ [req_of r] \<rparr>"
        have eq: "open_init_channels L cfg (answering a env) (Suc k) chans s =
            (if si_send (env (length chans)) = Sent_ok then open_init_channels L cfg (answering a env) k (chans @ [cr_channel r]) ?t
             else Inr (t, chans, False, snd (send_init_channel False (env (length chans)))))" for a
          using Inr p True k by (cases "si_send (env (length chans))") (simp_all add: res Let_def send_init_channel_def)
        show ?thesis unfolding eq using Suc.IH [of "chans @ [cr_channel r]" ?t] k by auto
      qed
    qed
  qed
qed

lemma request_ack:
  assumes b: "before_log_in L cfg cb creds name q s" "body m = LogInReq q"
    and w: "waits_for_ack L cfg cb creds name rsp env m s"
    and run: "handle_req L cfg cb creds name rsp env (True, None) m s = Inr s'"
  shows "logged_in s' \<and> 0 < asked_channels cb q s \<and>
    (\<exists>t. handle_req L cfg cb creds name rsp env (False, None) m s = Inr t) \<and>
    (\<forall>e t. handle_req L cfg cb creds name rsp env (False, Some e) m s = Inr t \<longrightarrow> s_done_calls t \<noteq> [])"
proof -
  let ?a = "answering (True, None) env" and ?b = "answering (False, None) env"
  have ne: "on_log_in_req L cfg cb creds name rsp ?a m s \<noteq> on_log_in_req L cfg cb creds name rsp ?b m s"
    using w by (simp add: waits_for_ack_def handle_req_def)
  have ff: "first_failure (log_in_checks L cfg cb creds name q s) = None"
  proof (rule ccontr)
    assume "\<not> ?thesis"
    then obtain e where f: "first_failure (log_in_checks L cfg cb creds name q s) = Some e" by blast
    let ?s = "s\<lparr> s_expect_log_in := False \<rparr>"
    have c: "log_in_checks L cfg cb creds name q ?s = log_in_checks L cfg cb creds name q s" by (simp add: log_in_checks_def)
    from check_log_in_req_eq [of ?s L cb cfg creds name q] f c b(1) obtain t where
      "check_log_in_req L cfg cb creds name q ?s = Inr (t, Inl e)" by (auto simp: before_log_in_def)
    with ne b(2) show False by (simp add: on_log_in_req_def getLogInReq_def)
  qed
  from before_ready [OF b(1) ff] have rd: "ready_for_log_in L cfg cb creds name q s" by simp
  note eq = on_log_in_req_checked [OF rd b(2), unfolded Let_def]
  let ?n = "asked_channels cb q s" and ?u = "(checked cb q s)\<lparr> s_sent := s_sent s @ [granting_rsp cb q s] \<rparr>"
  have n: "total_init_channels cb (app_of cb q) q s \<noteq> 0" "rsp = Sent_ok" using ne unfolding eq by (auto split: send_answer.splits)
  have fin: "on_log_in_req L cfg cb creds name rsp x m s =
      finish_with_init_channels L cfg x ?n (unat (lq_n_init_by_cli q)) (lq_mdt q) ?u" for x
    unfolding eq using n by simp
  have "open_init_channels L cfg ?a ?n [] ?u \<noteq> open_init_channels L cfg ?b ?n [] ?u"
    using ne unfolding fin by (auto simp: finish_with_init_channels_def)
  with open_init_ack [of L cfg env ?n "[]" ?u] obtain t chans t2 c2 where
    o: "open_init_channels L cfg ?a ?n [] ?u = Inr (t, chans, True, None)" and
    o2: "\<forall>e. open_init_channels L cfg (answering (False, e) env) ?n [] ?u = Inr (t2, c2, False, e)" by metis
  have "\<exists>t. handle_req L cfg cb creds name rsp env (False, None) m s = Inr t"
    "\<forall>e t. handle_req L cfg cb creds name rsp env (False, Some e) m s = Inr t \<longrightarrow> s_done_calls t \<noteq> []"
    using o2 fin by (auto simp: handle_req_def finish_with_init_channels_def finish_log_in_Inr)
  note unacked = this
  have d: "s_done_calls t = []"
    using res_frame_fields(2) [OF open_init_frame [OF o]] b(1) by (simp add: checked_def before_log_in_def)
  from run fin [of ?a] o obtain v where v: "Server_Session.emit_init_channels ?n (unat (lq_n_init_by_cli q)) chans (lq_mdt q) t = Inr v"
    "finish_log_in None v = Inr s'" by (auto simp: handle_req_def finish_with_init_channels_def res_bind_eq_Inr)
  have "s_done_calls v = []" using v(1) d
    by (auto simp: Server_Session.emit_init_channels_def Let_def split: if_splits)
  with v(2) n have "logged_in s' \<and> 0 < ?n" by (auto simp: finish_log_in_Inr logged_in_def word_gt_0 unat_gt_0)
  with unacked show ?thesis by blast
qed

section \<open>Errors\<close>

lemma cli_error_run:
  assumes "Client_Session.on_master_channel_error ccfg user_hook ch e c = Inr c'"
  shows "(c' = c \<or> m_state c \<noteq> S_PEER \<and> m_state c' = S_NULL \<and> sent c' = sent c) \<or>
    (m_state c = S_PEER \<and> m_state c' = S_PEER \<and> m_cli_namespace c' = m_cli_namespace c \<and> sent c' = sent c \<and>
     done_calls c' = done_calls c \<and> c_out c' = c_out c)"
proof (cases "m_state c")
  case S_NULL
  with assms show ?thesis by (simp add: Client_Session.on_master_channel_error_def split: if_splits)
next
  case S_CONNECTING
  with assms show ?thesis by (auto simp: Client_Session.on_master_channel_error_def split: if_splits)
next
  case S_PEER
  with assms have "c' = c \<or> (\<exists>g. c' = c\<lparr> Client_Session.m_graceful_finisher := g \<rparr>) \<or> (\<exists>t g. hose e c = Inr t \<and>
      (c' = t \<or> c' = t\<lparr> Client_Session.m_graceful_finisher := g \<rparr>))"
    by (auto simp: Client_Session.on_master_channel_error_def res_bind_eq_Inr split: if_splits option.splits)
  then have "m_state c' = S_PEER \<and> m_cli_namespace c' = m_cli_namespace c \<and> sent c' = sent c \<and>
     done_calls c' = done_calls c \<and> c_out c' = c_out c"
    by (elim disjE exE conjE; simp add: hose_Inr S_PEER) (elim exE conjE; simp add: S_PEER)+
  with S_PEER show ?thesis by simp
qed

lemma srv_error_run:
  assumes "Server_Session.on_master_channel_error cfg e s = Inr s'"
  shows "(s_done_calls s' = s_done_calls s \<and> s_out s' = s_out s \<and> m_cli_namespace s' = m_cli_namespace s \<and>
      m_cli_app_ptr s' = m_cli_app_ptr s \<and> s_expect_log_in s' = s_expect_log_in s \<and> s_sent s' = s_sent s \<and>
      m_log_in_on_done_func s' = m_log_in_on_done_func s \<and>
      (Server_Session.m_master_channel s \<noteq> None \<longrightarrow> m_log_in_on_done_func s = None) \<and>
      Server_Session.m_master_channel s' = Server_Session.m_master_channel s) \<or>
    (\<exists>h. m_log_in_on_done_func s = Some h \<and> s_done_calls s' = s_done_calls s @ [(h, Some e)] \<and>
      m_log_in_on_done_func s' = None \<and> \<not> s_expect_log_in s' \<and> Server_Session.m_master_channel s' = None \<and> s_sent s' = s_sent s)"
proof (cases "Server_Session.m_master_channel s = None \<or> m_log_in_on_done_func s \<noteq> None \<or> \<not> handlers_are_set s")
  case True
  with assms show ?thesis
    by (auto simp: Server_Session.on_master_channel_error_def finish_log_in_Inr split: if_splits)
next
  case False
  with assms have "s' = s \<or> (\<exists>g. s' = s\<lparr> Server_Session.m_graceful_finisher := g \<rparr>) \<or> (\<exists>t g. hose e s = Inr t \<and>
      (s' = t \<or> s' = t\<lparr> Server_Session.m_graceful_finisher := g \<rparr>))"
    by (auto simp: Server_Session.on_master_channel_error_def res_bind_eq_Inr split: if_splits option.splits)
  with False show ?thesis by (auto simp: hose_Inr)
qed

end
