(* ===== verification/Log_In_Agreement.thy ===== *)
theory Log_In_Agreement
  imports Log_In_System
begin

text \<open>
  What the machine of the log-in keeps: the invariant of either side, and that no failure leaves the two sides with
  different ideas of a session they both have.
\<close>

section \<open>The invariant\<close>

text \<open>The client's channels are what its handler makes of the server's requests, in order.\<close>

definition made_from :: "session_cfg \<Rightarrow> channel_obj list \<Rightarrow> channel_resources list \<Rightarrow> bool" where
  "made_from ccfg chans rs \<longleftrightarrow> list_all2 (\<lambda>ch r. \<exists>k. ch = passive_channel ccfg k (req_of r)) chans rs"

text \<open>What the server sends once it grants the log-in: the response and the requests for the first \<open>length rs\<close> init-channels.\<close>

definition offered :: "session_cfg \<Rightarrow> accept_callbacks \<Rightarrow> log_in_req \<Rightarrow> server_session \<Rightarrow> (nat \<Rightarrow> srv_init_env) \<Rightarrow>
    channel_resources list \<Rightarrow> msg list \<Rightarrow> bool" where
  "offered cfg cb q s0 env rs ms \<longleftrightarrow> ms = granting_rsp cb q s0 # map req_of rs \<and> length rs \<le> asked_channels cb q s0 \<and>
     (\<forall>i < length rs. fits cfg (si_resources (env i)) (rs ! i))"

text \<open>
  The server: it has not handled the request; or it waits for the acknowledgement, to end as \<open>t\<close>; or its log-in has failed
  or will; or it is logged in, and if there are init-channels their acknowledgement has come.
\<close>

definition srv_part :: "session_lib \<Rightarrow> session_cfg \<Rightarrow> accept_callbacks \<Rightarrow> process_creds \<Rightarrow> string \<Rightarrow> log_in_req \<Rightarrow>
    client_session \<Rightarrow> server_session \<Rightarrow> log_in_sys \<Rightarrow> bool" where
  "srv_part L cfg cb creds name q c0 s0 x \<longleftrightarrow>
     (waits x = None \<and> lsrv x = s0 \<and> wire x = [] \<and> taken x = length (sent c0)) \<or>
     (first_failure (log_in_checks L cfg cb creds name q s0) = None \<and> lsrv x = s0 \<and> taken x = length (sent c0) \<and>
       0 < asked_channels cb q s0 \<and>
       (\<exists>env rs t. waits x = Some env \<and> ran_with x = Some env \<and> offered cfg cb q s0 env rs (wire x) \<and> granted cfg cb q s0 env rs t \<and> logged_in t \<and>
          m_log_in_on_done_func t = None \<and> \<not> s_expect_log_in t \<and> handle_req L cfg cb creds name Sent_ok env (True, None) (last (sent c0)) s0 = Inr t)) \<or>
     (waits x = None \<and> \<not> s_expect_log_in (lsrv x) \<and> \<not> logged_in (lsrv x) \<and> taken x = length (sent c0) \<and>
       (wire x = [] \<or> first_failure (log_in_checks L cfg cb creds name q s0) = None \<and> (\<exists>env rs. ran_with x = Some env \<and> offered cfg cb q s0 env rs (wire x)))) \<or>
     (waits x = None \<and> \<not> s_expect_log_in (lsrv x) \<and> logged_in (lsrv x) \<and> m_log_in_on_done_func (lsrv x) = None \<and>
       first_failure (log_in_checks L cfg cb creds name q s0) = None \<and>
       taken x = length (sent c0) + (if asked_channels cb q s0 = 0 then 0 else 1) \<and>
       (\<exists>env rs. ran_with x = Some env \<and> offered cfg cb q s0 env rs (wire x) \<and> granted cfg cb q s0 env rs (lsrv x)))"

text \<open>
  The client: nothing has come yet; or its connect has failed or will; or it has handled the response and some of the requests,
  all of them if it is in PEER state.
\<close>

definition log_in_mdt :: "accept_callbacks \<Rightarrow> log_in_req \<Rightarrow> client_session \<Rightarrow> mdt option" where
  "log_in_mdt cb q c0 = (if out_mdt (c_out c0) \<noteq> None
     then Some (mdt_load_func cb (app_of cb q) (lq_n_init_by_cli q) (lq_mdt q)) else None)"

definition cli_part :: "session_cfg \<Rightarrow> accept_callbacks \<Rightarrow> log_in_req \<Rightarrow> client_session \<Rightarrow> server_session \<Rightarrow> log_in_sys \<Rightarrow> bool" where
  "cli_part ccfg cb q c0 s0 x \<longleftrightarrow> got x \<le> length (wire x) \<and>
     (got x = 0 \<and> lcli x = c0 \<or> gave_up c0 (lcli x) \<or>
      (\<exists>rs chans. wire x = granting_rsp cb q s0 # map req_of rs \<and> 0 < got x \<and> made_from ccfg chans (take (got x - 1) rs) \<and>
        (collecting (asked_channels cb q s0) (cli_namespace_func cb) (log_in_mdt cb q c0) c0 chans (lcli x) \<or>
         in_peer (asked_channels cb q s0) (cli_namespace_func cb) (log_in_mdt cb q c0) c0 chans (lcli x))))"

definition log_in_inv :: "session_lib \<Rightarrow> session_cfg \<Rightarrow> session_cfg \<Rightarrow> accept_callbacks \<Rightarrow> process_creds \<Rightarrow> string \<Rightarrow> log_in_req \<Rightarrow>
    client_session \<Rightarrow> server_session \<Rightarrow> log_in_sys \<Rightarrow> bool" where
  "log_in_inv L ccfg cfg cb creds name q c0 s0 x \<longleftrightarrow>
     srv_part L cfg cb creds name q c0 s0 x \<and> cli_part ccfg cb q c0 s0 x \<and> taken x \<le> length (sent (lcli x))"

lemma granting_rsp_body: "body (granting_rsp cb q s) = LogInRsp
   \<lparr> lr_max_proto_ver = 1, lr_max_proto_ver_aux = 1, lr_cli_namespace = cli_namespace_func cb,
     lr_mdt = mdt_load_func cb (app_of cb q) (lq_n_init_by_cli q) (lq_mdt q),
     lr_n_init_by_srv = total_init_channels cb (app_of cb q) q s - lq_n_init_by_cli q \<rparr>"
  by (simp add: fill_log_in_rsp_def checked_def cli_namespace_def)

lemma cli_part_keeps_request:
  assumes "cli_part ccfg cb q c0 s0 x" "asks_log_in q c0"
  shows "\<exists>ms. sent (lcli x) = sent c0 @ ms" "sent (lcli x) ! (length (sent c0) - 1) = last (sent c0)"
proof -
  show 1: "\<exists>ms. sent (lcli x) = sent c0 @ ms"
    using assms(1) by (auto simp: cli_part_def gave_up_def collecting_def in_peer_def)
  with assms(2) show "sent (lcli x) ! (length (sent c0) - 1) = last (sent c0)"
    by (auto simp: asks_log_in_def nth_append last_conv_nth)
qed

lemma cli_part_rsp:
  assumes i: "cli_part ccfg cb q c0 s0 x" and c0: "asks_log_in q c0"
    and e: "c_expect (lcli x) = Expect_log_in_rsp" "got x < length (wire x)"
    and w: "\<exists>rs. wire x = granting_rsp cb q s0 # map req_of rs"
    and run: "on_master_channel_log_in_rsp L ccfg user_hook ok (wire x ! got x) (lcli x) = Inr c"
  shows "cli_part ccfg cb q c0 s0 (x\<lparr> lcli := c, lcch := st, got := got x + 1 \<rparr>)"
proof -
  from log_in_rsp_cases [OF run] have "m_state (lcli x) = S_CONNECTING" by blast
  with i e(1) have x: "got x = 0" "lcli x = c0"
    by (auto simp: cli_part_def gave_up_def collecting_def in_peer_def split: client_expect.splits)
  from w x(1) run have run': "on_master_channel_log_in_rsp L ccfg user_hook ok (granting_rsp cb q s0) c0 = Inr c"
    by (auto simp: x)
  from rsp_run [OF c0 granting_rsp_body _ run', of "total_init_channels cb (app_of cb q) q s0"] have
    "gave_up c0 c \<or> collecting (asked_channels cb q s0) (cli_namespace_func cb) (log_in_mdt cb q c0) c0 [] c \<or>
     in_peer (asked_channels cb q s0) (cli_namespace_func cb) (log_in_mdt cb q c0) c0 [] c"
    by (cases "out_mdt (c_out c0)") (simp_all add: log_in_mdt_def)
  with w e(2) x(1) show ?thesis by (auto simp: cli_part_def made_from_def)
qed

lemma cli_part_init:
  assumes i: "cli_part ccfg cb q c0 s0 x" and c0: "asks_log_in q c0"
    and e: "c_expect (lcli x) = Expect_init_channels n chans md" "got x < length (wire x)"
    and run: "on_master_channel_init_open_channel ccfg user_hook env (wire x ! got x) n chans md (lcli x) = Inr c"
  shows "cli_part ccfg cb q c0 s0 (x\<lparr> lcli := c, lcch := st, got := got x + 1 \<rparr>)"
proof -
  from init_open_channel_cases [OF run] have s: "m_state (lcli x) = S_CONNECTING" "length chans < n" by blast+
  with i e(1) c0 obtain rs chs where w: "wire x = granting_rsp cb q s0 # map req_of rs" "0 < got x"
    "made_from ccfg chs (take (got x - 1) rs)" and
    c: "collecting (asked_channels cb q s0) (cli_namespace_func cb) (log_in_mdt cb q c0) c0 chs (lcli x)"
    by (auto simp: cli_part_def gave_up_def in_peer_def asks_log_in_def)
  have j: "got x - 1 < length rs" using e(2) w(1,2) by simp
  have m: "wire x ! got x = req_of (rs ! (got x - 1))" using w(1,2) j by (cases "got x") simp_all
  have t: "take (got x) rs = take (got x - 1) rs @ [rs ! (got x - 1)]"
    using take_Suc_conv_app_nth [OF j] w(2) by simp
  from init_run [OF c e(1) run] show ?thesis
  proof (elim disjE exE)
    assume "gave_up c0 c"
    with e(2) show ?thesis by (simp add: cli_part_def)
  next
    fix k assume k: "let chans = chs @ [passive_channel ccfg k (wire x ! got x)] in
      collecting (asked_channels cb q s0) (cli_namespace_func cb) (log_in_mdt cb q c0) c0 chans c \<or>
      in_peer (asked_channels cb q s0) (cli_namespace_func cb) (log_in_mdt cb q c0) c0 chans c"
    have "made_from ccfg (chs @ [passive_channel ccfg k (wire x ! got x)]) (take (got x) rs)"
      using w(3) unfolding made_from_def t m by (auto intro!: list_all2_appendI)
    with k w(1) have "\<exists>rs chans. wire x = granting_rsp cb q s0 # map req_of rs \<and> 
        made_from ccfg chans (take (got x) rs) \<and>
        (collecting (asked_channels cb q s0) (cli_namespace_func cb) (log_in_mdt cb q c0) c0 chans c \<or>
         in_peer (asked_channels cb q s0) (cli_namespace_func cb) (log_in_mdt cb q c0) c0 chans c)"
      unfolding Let_def by blast
    with e(2) show ?thesis unfolding cli_part_def by auto
  qed
qed

lemma cli_part_error:
  assumes i: "cli_part ccfg cb q c0 s0 x" and c0: "asks_log_in q c0"
    and run: "Client_Session.on_master_channel_error ccfg user_hook ch e (lcli x) = Inr c"
  shows "cli_part ccfg cb q c0 s0 (x\<lparr> lcli := c, lcch := st \<rparr>)"
  using cli_error_run [OF run]
proof (elim disjE conjE)
  assume "c = lcli x"
  with i show ?thesis by (simp add: cli_part_def)
next
  assume "m_state (lcli x) \<noteq> S_PEER" "m_state c = S_NULL" "sent c = sent (lcli x)"
  moreover from this(1) i have "sent (lcli x) = sent c0"
    by (auto simp: cli_part_def gave_up_def collecting_def in_peer_def)
  ultimately have "gave_up c0 c" by (simp add: gave_up_def)
  with i show ?thesis by (simp add: cli_part_def)
next
  assume p: "m_state (lcli x) = S_PEER" "m_state c = S_PEER" "m_cli_namespace c = m_cli_namespace (lcli x)"
    "sent c = sent (lcli x)" "done_calls c = done_calls (lcli x)" "c_out c = c_out (lcli x)"
  then have "in_peer n ns md c0 chs c = in_peer n ns md c0 chs (lcli x)" for n ns md chs by (simp add: in_peer_def)
  moreover have "\<not> gave_up c0 (lcli x)" "\<not> collecting n ns md c0 chs (lcli x)" "lcli x \<noteq> c0" for n ns md chs
    using p(1) c0 by (auto simp: gave_up_def collecting_def asks_log_in_def)
  ultimately show ?thesis using i unfolding cli_part_def by (simp; blast)
qed

lemma granted_answering [simp]: "granted cfg cb q s (answering a env) rs s' = granted cfg cb q s env rs s'"
  by (simp add: granted_def answering_def)

lemma srv_handles:
  assumes b: "before_log_in L cfg cb creds name q s" "body m = LogInReq q"
    and r: "handle_req L cfg cb creds name rsp env a m s = Inr s'"
  shows "(new_msgs s s' = [] \<and> \<not> logged_in s' \<or>
     first_failure (log_in_checks L cfg cb creds name q s) = None \<and>
       (\<exists>rs. granted cfg cb q s env rs s' \<and> offered cfg cb q s env rs (new_msgs s s'))) \<and>
   \<not> s_expect_log_in s' \<and> (logged_in s' \<longrightarrow> m_log_in_on_done_func s' = None \<and> (asked_channels cb q s = 0 \<or> fst a)) \<and>
   (\<not> logged_in s' \<longrightarrow> s_done_calls s' = [] \<and> m_log_in_on_done_func s' \<noteq> None \<and> Server_Session.m_master_channel s' \<noteq> None \<or>
       (\<exists>h e. s_done_calls s' = [(h, Some e)] \<and> m_log_in_on_done_func s' = None \<and> Server_Session.m_master_channel s' = None))"
proof -
  have o: "granted cfg cb q s env rs s' \<Longrightarrow> offered cfg cb q s env rs (new_msgs s s')" for rs
    by (simp add: granted_def offered_def new_msgs_def)
  have n: "s_sent s' = s_sent s \<Longrightarrow> new_msgs s s' = []" by (simp add: new_msgs_def)
  have a: "si_acked (answering a env i) = fst a" for i by (simp add: answering_def)
  from request_run [OF b r [unfolded handle_req_def]] o n show ?thesis unfolding a granted_answering by blast
qed

lemma srv_part_ask:
  assumes i: "srv_part L cfg cb creds name q c0 s0 x" and w: "waits x = Some env"
  obtains rs t where "lsrv x = s0" "taken x = length (sent c0)" "0 < asked_channels cb q s0"
    "first_failure (log_in_checks L cfg cb creds name q s0) = None" "offered cfg cb q s0 env rs (wire x)"
    "granted cfg cb q s0 env rs t" "logged_in t" "m_log_in_on_done_func t = None" "\<not> s_expect_log_in t"
    "handle_req L cfg cb creds name Sent_ok env (True, None) (last (sent c0)) s0 = Inr t" "ran_with x = Some env"
  using assms unfolding srv_part_def by auto

lemma srv_part_fresh:
  assumes "srv_part L cfg cb creds name q c0 s0 x" "waits x = None" "s_expect_log_in (lsrv x)"
  shows "lsrv x = s0" "wire x = []" "taken x = length (sent c0)"
  using assms unfolding srv_part_def by auto

text \<open>What the server has sent comes from its handler.\<close>

lemma srv_part_wire:
  assumes "srv_part L cfg cb creds name q c0 s0 x" "wire x \<noteq> []"
  shows "\<exists>rs. wire x = granting_rsp cb q s0 # map req_of rs"
  using assms unfolding srv_part_def offered_def by auto

lemma not_logged_in_err: "s_done_calls s = calls @ [(h, Some e)] \<Longrightarrow> \<not> logged_in s"
  by (auto simp: logged_in_def append_eq_Cons_conv)

lemma srv_part_error:
  assumes i: "srv_part L cfg cb creds name q c0 s0 x" and b: "before_log_in L cfg cb creds name q s0"
    and w: "waits x = None"
    and run: "Server_Session.on_master_channel_error cfg e (lsrv x) = Inr s"
  shows "srv_part L cfg cb creds name q c0 s0 (x\<lparr> lsrv := s, lsch := st \<rparr>)"
  using srv_error_run [OF run]
proof (elim disjE conjE exE)
  assume s: "s_done_calls s = s_done_calls (lsrv x)" "s_out s = s_out (lsrv x)" "m_cli_namespace s = m_cli_namespace (lsrv x)"
    "m_cli_app_ptr s = m_cli_app_ptr (lsrv x)" "s_expect_log_in s = s_expect_log_in (lsrv x)" "s_sent s = s_sent (lsrv x)"
    "m_log_in_on_done_func s = m_log_in_on_done_func (lsrv x)"
    and d: "Server_Session.m_master_channel (lsrv x) \<noteq> None \<longrightarrow> m_log_in_on_done_func (lsrv x) = None"
  have g: "granted cfg cb q s0 env rs s = granted cfg cb q s0 env rs (lsrv x)" "logged_in s = logged_in (lsrv x)" for env rs
    using s by (simp_all add: granted_def logged_in_def)
  have "lsrv x \<noteq> s0" using d b by (auto simp: before_log_in_def)
  with i g s w show ?thesis unfolding srv_part_def by simp
next
  fix h assume s: "m_log_in_on_done_func (lsrv x) = Some h" "s_done_calls s = s_done_calls (lsrv x) @ [(h, Some e)]"
    "\<not> s_expect_log_in s"
  from not_logged_in_err [OF s(2)] have n: "\<not> logged_in s" .
  with i w s show ?thesis unfolding srv_part_def by auto
qed

lemma srv_part_request:
  assumes i: "srv_part L cfg cb creds name q c0 s0 x" and b: "before_log_in L cfg cb creds name q s0"
    and m: "body (last (sent c0)) = LogInReq q" "log_in_req_msg x = last (sent c0)"
    and f: "waits x = None" "s_expect_log_in (lsrv x)"
    and w: "\<not> waits_for_ack L cfg cb creds name rsp env (log_in_req_msg x) (lsrv x)"
    and run: "handle_req L cfg cb creds name rsp env (True, None) (log_in_req_msg x) (lsrv x) = Inr s"
  shows "srv_part L cfg cb creds name q c0 s0 (x\<lparr> lsrv := s, lsch := st, wire := new_msgs (lsrv x) s, ran_with := Some env \<rparr>)"
proof -
  note x = srv_part_fresh [OF i f]
  have r: "handle_req L cfg cb creds name rsp env (True, None) (last (sent c0)) s0 = Inr s" using run x m by simp
  have r': "handle_req L cfg cb creds name rsp env (False, None) (last (sent c0)) s0 = Inr s"
    using r w x m by (simp add: waits_for_ack_def)
  note h = srv_handles [OF b m(1) r'] 
  show ?thesis
  proof (cases "logged_in s")
    case False
    with h x f show ?thesis unfolding srv_part_def by auto
  next
    case True
    with h x f show ?thesis unfolding srv_part_def by auto
  qed
qed

lemma srv_part_asks:
  assumes i: "srv_part L cfg cb creds name q c0 s0 x" and b: "before_log_in L cfg cb creds name q s0"
    and m: "body (last (sent c0)) = LogInReq q" "log_in_req_msg x = last (sent c0)"
    and f: "waits x = None" "s_expect_log_in (lsrv x)"
    and w: "waits_for_ack L cfg cb creds name Sent_ok env (log_in_req_msg x) (lsrv x)"
    and run: "handle_req L cfg cb creds name Sent_ok env (True, None) (log_in_req_msg x) (lsrv x) = Inr s"
  shows "srv_part L cfg cb creds name q c0 s0 (x\<lparr> waits := Some env, wire := new_msgs (lsrv x) s, ran_with := Some env \<rparr>)"
proof -
  note x = srv_part_fresh [OF i f]
  have r: "handle_req L cfg cb creds name Sent_ok env (True, None) (last (sent c0)) s0 = Inr s" using run x m by simp
  from request_ack [OF b m(1) _ r, of] w x m have l: "logged_in s" "0 < asked_channels cb q s0" by simp_all
  with srv_handles [OF b m(1) r] x r show ?thesis unfolding srv_part_def by auto
qed

lemma srv_part_acked:
  assumes i: "srv_part L cfg cb creds name q c0 s0 x" 
    and m: "log_in_req_msg x = last (sent c0)" and w: "waits x = Some env"
    and run: "handle_req L cfg cb creds name Sent_ok env (True, None) (log_in_req_msg x) (lsrv x) = Inr s"
  shows "srv_part L cfg cb creds name q c0 s0 (x\<lparr> lsrv := s, waits := None, taken := taken x + 1 \<rparr>)"
  by (rule srv_part_ask [OF i w]) (use run m in \<open>auto simp: srv_part_def\<close>)

lemma srv_part_unacked:
  assumes i: "srv_part L cfg cb creds name q c0 s0 x" and b: "before_log_in L cfg cb creds name q s0"
    and m: "body (last (sent c0)) = LogInReq q" "log_in_req_msg x = last (sent c0)"
    and w: "waits x = Some env"
    and run: "handle_req L cfg cb creds name Sent_ok env (False, e) (log_in_req_msg x) (lsrv x) = Inr s"
    and y: "lsrv y = s" "waits y = None" "wire y = wire x" "taken y = taken x" "ran_with y = ran_with x"
  shows "srv_part L cfg cb creds name q c0 s0 y"
proof -
  from srv_part_ask [OF i w] obtain rs where x: "lsrv x = s0" "taken x = length (sent c0)" "0 < asked_channels cb q s0"
    "first_failure (log_in_checks L cfg cb creds name q s0) = None" "offered cfg cb q s0 env rs (wire x)" "ran_with x = Some env" by metis
  have r: "handle_req L cfg cb creds name Sent_ok env (False, e) (last (sent c0)) s0 = Inr s" using run x m by simp
  from srv_handles [OF b m(1) r] x(3) have "\<not> logged_in s" "\<not> s_expect_log_in s" by auto
  with x y show ?thesis unfolding srv_part_def by auto
qed

lemma cli_part_wire:
  assumes "cli_part ccfg cb q c0 s0 x" "wire x = []" "lcli y = lcli x" "got y = got x"
  shows "cli_part ccfg cb q c0 s0 y"
  using assms unfolding cli_part_def by auto

lemma cli_part_same:
  assumes "cli_part ccfg cb q c0 s0 x" "wire y = wire x" "lcli y = lcli x" "got y = got x"
  shows "cli_part ccfg cb q c0 s0 y"
  using assms unfolding cli_part_def by simp

lemma srv_part_same:
  assumes "srv_part L cfg cb creds name q c0 s0 x" "wire y = wire x" "lsrv y = lsrv x" "waits y = waits x" "taken y = taken x"
    "ran_with y = ran_with x"
  shows "srv_part L cfg cb creds name q c0 s0 y"
  using assms unfolding srv_part_def by simp

text \<open>The client's log of what it sent only grows.\<close>

lemma cli_part_sent:
  assumes "cli_part ccfg cb q c0 s0 x" "asks_log_in q c0"
  shows "length (sent c0) \<le> length (sent (lcli x))"
  using cli_part_keeps_request(1) [OF assms] by auto

lemma log_in_inv_cli:
  assumes i: "log_in_inv L ccfg cfg cb creds name q c0 s0 x" and c0: "asks_log_in q c0" and st: "log_in_cli L ccfg x y"
  shows "log_in_inv L ccfg cfg cb creds name q c0 s0 y"
proof -
  from i have p: "srv_part L cfg cb creds name q c0 s0 x" "cli_part ccfg cb q c0 s0 x" "taken x \<le> length (sent (lcli x))"
    by (simp_all add: log_in_inv_def)
  from st show ?thesis
  proof cases
    case (cli_error e c)
    with cli_error_run [OF cli_error(3)] have "sent c = sent (lcli x)" by auto
    with cli_error cli_part_error [OF p(2) c0 cli_error(3)] p show ?thesis by (simp add: log_in_inv_def srv_part_def)
  next
    case (cli_rsp ok st c)
    have w: "\<exists>rs. wire x = granting_rsp cb q s0 # map req_of rs" using srv_part_wire [OF p(1)] cli_rsp(4) by fastforce
    from log_in_rsp_cases [OF cli_rsp(6)] have "sent c = sent (lcli x)" by auto
    with cli_rsp cli_part_rsp [OF p(2) c0 cli_rsp(3,4) w cli_rsp(6)] p show ?thesis by (simp add: log_in_inv_def srv_part_def)
  next
    case (cli_init n chans md env st1 st2 st c)
    from init_open_channel_cases [OF cli_init(9)] have "m_state (lcli x) = S_CONNECTING" by blast
    with p(2) have "sent (lcli x) = sent c0" by (auto simp: cli_part_def gave_up_def collecting_def in_peer_def)
    with cli_part_sent [OF cli_part_init [OF p(2) c0 cli_init(3,4,9), of st] c0] p(3) have "taken x \<le> length (sent c)" by simp
    with cli_init cli_part_init [OF p(2) c0 cli_init(3,4,9)] p show ?thesis by (simp add: log_in_inv_def srv_part_def)
  qed
qed

lemma log_in_inv_srv:
  assumes i: "log_in_inv L ccfg cfg cb creds name q c0 s0 x" and c0: "asks_log_in q c0"
    and b: "before_log_in L cfg cb creds name q s0"
    and st: "log_in_srv L cfg cb creds name x y \<or> log_in_env L cfg cb creds name x y"
  shows "log_in_inv L ccfg cfg cb creds name q c0 s0 y"
proof -
  from i have p: "srv_part L cfg cb creds name q c0 s0 x" "cli_part ccfg cb q c0 s0 x" "taken x \<le> length (sent (lcli x))"
    by (simp_all add: log_in_inv_def)
  note m = cli_part_keeps_request(2) [OF p(2) c0] and same = cli_part_same [OF p(2)]
  have body: "body (last (sent c0)) = LogInReq q" using c0 by (simp add: asks_log_in_def)
  have ask: "log_in_req_msg x = last (sent c0)" if "waits x = Some env" for env
    using srv_part_ask [OF p(1) that] m by metis
  have fresh: "log_in_req_msg x = last (sent c0)" if "waits x = None" "s_expect_log_in (lsrv x)"
    using srv_part_fresh [OF p(1) that] m by simp
  from st show ?thesis
  proof
    assume "log_in_srv L cfg cb creds name x y"
    then show ?thesis
    proof cases
      case (srv_error e s)
      with srv_part_error [OF p(1) b srv_error(2,4)] same p(3) show ?thesis by (simp add: log_in_inv_def)
    next
      case (srv_request rsp env s st)
      with srv_part_request [OF p(1) b body fresh [OF srv_request(2,4)] srv_request(2,4,5,6)]
        cli_part_wire [OF p(2) srv_part_fresh(2) [OF p(1) srv_request(2,4)]] p(3)
      show ?thesis by (simp add: log_in_inv_def)
    next
      case (srv_asks env s)
      with srv_part_asks [OF p(1) b body fresh [OF srv_asks(2,4)] srv_asks(2,4,6,7)]
        cli_part_wire [OF p(2) srv_part_fresh(2) [OF p(1) srv_asks(2,4)]] p(3)
      show ?thesis by (simp add: log_in_inv_def)
    next
      case (srv_acked env s)
      with srv_part_acked [OF p(1) ask [OF srv_acked(2)] srv_acked(2,5)] same p(3) show ?thesis by (simp add: log_in_inv_def)
    next
      case (srv_unacked env e s)
      with srv_part_unacked [OF p(1) b body ask [OF srv_unacked(2)] srv_unacked(2,4)] same p(3) show ?thesis
        by (simp add: log_in_inv_def)
    qed
  next
    assume "log_in_env L cfg cb creds name x y"
    then show ?thesis
    proof cases
      case (cli_fails e)
      with p same srv_part_same [OF p(1)] show ?thesis by (simp add: log_in_inv_def)
    next
      case (srv_fails e)
      with p same srv_part_same [OF p(1)] show ?thesis by (simp add: log_in_inv_def)
    next
      case (ask_fails env e s)
      with srv_part_unacked [OF p(1) b body ask [OF ask_fails(2)] ask_fails(2,5)] same p(3) show ?thesis
        by (simp add: log_in_inv_def)
    qed
  qed
qed

lemma log_in_inv_gone:
  assumes i: "log_in_inv L ccfg cfg cb creds name q c0 s0 x" and st: "log_in_gone x y"
  shows "log_in_inv L ccfg cfg cb creds name q c0 s0 y"
proof -
  from i have p: "srv_part L cfg cb creds name q c0 s0 x" "cli_part ccfg cb q c0 s0 x" "taken x \<le> length (sent (lcli x))"
    by (simp_all add: log_in_inv_def)
  have same: "lcli y = lcli x \<and> lsrv y = lsrv x \<and> wire y = wire x \<and> got y = got x \<and> waits y = waits x \<and> taken y = taken x \<and> ran_with y = ran_with x"
    using st by cases simp_all
  show ?thesis using srv_part_same [OF p(1)] cli_part_same [OF p(2)] p(3) same by (simp add: log_in_inv_def)
qed

lemma log_in_inv_step:
  assumes i: "log_in_inv L ccfg cfg cb creds name q c0 s0 x" and c0: "asks_log_in q c0"
    and b: "before_log_in L cfg cb creds name q s0" and st: "log_in_step L ccfg cfg cb creds name x y"
  shows "log_in_inv L ccfg cfg cb creds name q c0 s0 y"
proof -
  from st consider "log_in_cli L ccfg x y" | "log_in_srv L cfg cb creds name x y \<or> log_in_env L cfg cb creds name x y" | "log_in_gone x y"
    unfolding log_in_step_def log_in_forced_def by blast
  then show ?thesis
    by cases (rule log_in_inv_cli [OF i c0] log_in_inv_srv [OF i c0 b] log_in_inv_gone [OF i], assumption)+
qed

definition log_in_ini :: "session_lib \<Rightarrow> session_cfg \<Rightarrow> session_cfg \<Rightarrow> accept_callbacks \<Rightarrow> process_creds \<Rightarrow> string \<Rightarrow> log_in_req \<Rightarrow>
    client_session \<Rightarrow> server_session \<Rightarrow> log_in_sys \<Rightarrow> bool" where
  "log_in_ini L ccfg cfg cb creds name q c0 s0 x \<longleftrightarrow> asks_log_in q c0 \<and> before_log_in L cfg cb creds name q s0 \<and>
     x = log_in_start c0 s0"

interpretation joint_log_in: invariant_system "log_in_ini L ccfg cfg cb creds name q c0 s0" "log_in_step L ccfg cfg cb creds name"
  "\<lambda>x. asks_log_in q c0 \<and> before_log_in L cfg cb creds name q s0 \<and> log_in_inv L ccfg cfg cb creds name q c0 s0 x"
  for L ccfg cfg cb creds name q c0 s0
proof unfold_locales
  fix x
  assume "log_in_ini L ccfg cfg cb creds name q c0 s0 x"
  then show "asks_log_in q c0 \<and> before_log_in L cfg cb creds name q s0 \<and> log_in_inv L ccfg cfg cb creds name q c0 s0 x"
    by (simp add: log_in_ini_def log_in_inv_def log_in_start_def srv_part_def cli_part_def)
next
  fix x y
  assume "asks_log_in q c0 \<and> before_log_in L cfg cb creds name q s0 \<and> log_in_inv L ccfg cfg cb creds name q c0 s0 x"
    "log_in_step L ccfg cfg cb creds name x y"
  then show "asks_log_in q c0 \<and> before_log_in L cfg cb creds name q s0 \<and> log_in_inv L ccfg cfg cb creds name q c0 s0 y"
    using log_in_inv_step by blast
qed

section \<open>The agreement\<close>

lemma peer_case:
  assumes "cli_part ccfg cb q c0 s0 x" "m_state (lcli x) = S_PEER" "asks_log_in q c0"
  obtains rs chans where "wire x = granting_rsp cb q s0 # map req_of rs" "made_from ccfg chans (take (got x - 1) rs)"
    "in_peer (asked_channels cb q s0) (cli_namespace_func cb) (log_in_mdt cb q c0) c0 chans (lcli x)"
  using assms unfolding cli_part_def by (auto simp: asks_log_in_def gave_up_def collecting_def)

lemma logged_case:
  assumes "srv_part L cfg cb creds name q c0 s0 x" "logged_in (lsrv x)" "before_log_in L cfg cb creds name q s0"
  obtains env rs where "first_failure (log_in_checks L cfg cb creds name q s0) = None"
    "taken x = length (sent c0) + (if asked_channels cb q s0 = 0 then 0 else 1)"
    "offered cfg cb q s0 env rs (wire x)" "granted cfg cb q s0 env rs (lsrv x)" "ran_with x = Some env"
proof -
  have "\<not> logged_in s0" using assms(3) by (simp add: before_log_in_def logged_in_def)
  with assms(1,2) that show ?thesis unfolding srv_part_def by auto
qed

lemma n_by_cli_asked:
  assumes "asks_log_in q c0"
  shows "unat (lq_n_init_by_cli q) = n_by_cli c0"
  using assms by (simp add: asks_log_in_def unat_of_nat take_bit_eq_mod)

text \<open>
  C5. Failures do not lead the two sides to different sessions. Whatever fails and whenever: a client in PEER state has run its
  handler once, without error, its request has passed all of the server's checks, and it has the namespace and the
  metadata the server gave it. A server that is logged in gave the same namespace, its client application is the one the user's lookup
  gives for the name in the request, and if there are init-channels its client is in PEER state. If both are,
  the channels in their containers are one by one the two ends of
  the same channels: they have the same message queues, in opposite roles, and hold, as configured, the two handles of the very socket
  pair that the system gave the server's handler for that channel (\<open>ran_with\<close>), the server having the first. (The converse fails, as it must: the server's log-in may end in an error after the client's
  acknowledgement is under way.)
\<close>

theorem log_in_agreement_despite_failures:
  assumes "reach (log_in_ini L cfg cfg cb creds name q c0 s0) (log_in_step L cfg cfg cb creds name) x"
  shows "let n = asked_channels cb q s0 in
    (m_state (lcli x) = S_PEER \<longrightarrow> first_failure (log_in_checks L cfg cb creds name q s0) = None \<and>
       m_cli_namespace (lcli x) = cli_namespace_func cb \<and> (\<exists>h. done_calls (lcli x) = [(h, None)]) \<and>
       (out_mdt (c_out c0) \<noteq> None \<longrightarrow>
          out_mdt (c_out (lcli x)) = Some (Some (mdt_load_func cb (app_of cb q) (lq_n_init_by_cli q) (lq_mdt q))))) \<and>
    (logged_in (lsrv x) \<longrightarrow> first_failure (log_in_checks L cfg cb creds name q s0) = None \<and>
       m_cli_namespace (lsrv x) = cli_namespace_func cb \<and> m_cli_app_ptr (lsrv x) = cli_app_lookup_func cb (lq_own_app q) \<and>
       (0 < n \<longrightarrow> m_state (lcli x) = S_PEER)) \<and>
    (logged_in (lsrv x) \<and> m_state (lcli x) = S_PEER \<and> 0 < n \<longrightarrow>
       (\<exists>env (rs :: channel_resources list) chans. ran_with x = Some env \<and> length rs = n \<and> length chans = n \<and>
          s_out (lsrv x) = filled_out (s_out s0) (n_by_cli c0) (map cr_channel rs) (lq_mdt q) \<and>
          c_out (lcli x) = init_out (c_out c0) (n_by_cli c0) chans (log_in_mdt cb q c0) \<and>
          (\<forall>i < n. paired cfg (si_resources (env i)) (cr_channel (rs ! i)) (chans ! i))))"
proof -
  from joint_log_in.reach_inv [OF assms] have c0: "asks_log_in q c0" and
    b: "before_log_in L cfg cb creds name q s0" and i: "srv_part L cfg cb creds name q c0 s0 x"
    "cli_part cfg cb q c0 s0 x" "taken x \<le> length (sent (lcli x))" by (simp_all add: log_in_inv_def)
  let ?n = "asked_channels cb q s0"
  have c: "first_failure (log_in_checks L cfg cb creds name q s0) = None \<and> m_cli_namespace (lcli x) = cli_namespace_func cb \<and>
      (\<exists>h. done_calls (lcli x) = [(h, None)]) \<and> (out_mdt (c_out c0) \<noteq> None \<longrightarrow>
         out_mdt (c_out (lcli x)) = Some (Some (mdt_load_func cb (app_of cb q) (lq_n_init_by_cli q) (lq_mdt q))))"
    if p: "m_state (lcli x) = S_PEER"
  proof (rule peer_case [OF i(2) p c0])
    fix rs chans
    assume w: "wire x = granting_rsp cb q s0 # map req_of rs"
      and peer: "in_peer ?n (cli_namespace_func cb) (log_in_mdt cb q c0) c0 chans (lcli x)"
    have "first_failure (log_in_checks L cfg cb creds name q s0) = None" using i(1) w unfolding srv_part_def by auto
    with peer c0 show ?thesis
      by (auto simp: in_peer_def asks_log_in_def log_in_mdt_def log_in_out_def init_out_def)
  qed
  have s: "first_failure (log_in_checks L cfg cb creds name q s0) = None \<and> m_cli_namespace (lsrv x) = cli_namespace_func cb \<and>
      m_cli_app_ptr (lsrv x) = cli_app_lookup_func cb (lq_own_app q) \<and> (0 < ?n \<longrightarrow> m_state (lcli x) = S_PEER)" if l: "logged_in (lsrv x)"
  proof (rule logged_case [OF i(1) l b])
    fix env rs
    assume f: "first_failure (log_in_checks L cfg cb creds name q s0) = None"
      and t: "taken x = length (sent c0) + (if ?n = 0 then 0 else 1)" and g: "granted cfg cb q s0 env rs (lsrv x)"
    have "m_state (lcli x) = S_PEER" if "0 < ?n"
    proof -
      from t that i(3) have "sent (lcli x) \<noteq> sent c0" by auto
      with i(2) show ?thesis by (auto simp: cli_part_def gave_up_def collecting_def in_peer_def)
    qed
    with f g show ?thesis by (simp add: granted_def)
  qed
  have both: "\<exists>env (rs :: channel_resources list) chans. ran_with x = Some env \<and> length rs = ?n \<and> length chans = ?n \<and>
          s_out (lsrv x) = filled_out (s_out s0) (n_by_cli c0) (map cr_channel rs) (lq_mdt q) \<and>
          c_out (lcli x) = init_out (c_out c0) (n_by_cli c0) chans (log_in_mdt cb q c0) \<and>
          (\<forall>i < ?n. paired cfg (si_resources (env i)) (cr_channel (rs ! i)) (chans ! i))"
    if l: "logged_in (lsrv x)" "m_state (lcli x) = S_PEER" "0 < ?n"
  proof (rule logged_case [OF i(1) l(1) b], rule peer_case [OF i(2) l(2) c0])
    fix env rs rs' chans
    assume o: "offered cfg cb q s0 env rs (wire x)" and g: "granted cfg cb q s0 env rs (lsrv x)" and rw: "ran_with x = Some env"
      and w: "wire x = granting_rsp cb q s0 # map req_of rs'" and m: "made_from cfg chans (take (got x - 1) rs')"
      and peer: "in_peer ?n (cli_namespace_func cb) (log_in_mdt cb q c0) c0 chans (lcli x)"
    have len: "length rs = ?n" "length chans = ?n" using g l(1) peer by (simp_all add: granted_def in_peer_def)
    from o w have eq: "map req_of rs' = map req_of rs" by (simp add: offered_def)
    have "paired cfg (si_resources (env i)) (cr_channel (rs ! i)) (chans ! i)" if k: "i < ?n" for i
    proof -
      from m len(2) k have j: "i < length rs'" "i < got x - 1"
        by (auto simp: made_from_def dest: list_all2_lengthD)
      from m list_all2_nthD [of _ chans "take (got x - 1) rs'" i] len(2) k j obtain n where
        "chans ! i = passive_channel cfg n (req_of (rs' ! i))" by (auto simp: made_from_def)
      moreover have "req_of (rs' ! i) = req_of (rs ! i)" using eq j(1) len(1) k by (metis length_map nth_map)
      moreover have "fits cfg (si_resources (env i)) (rs ! i)" using g k len(1) by (simp add: granted_def)
      ultimately show ?thesis using fits_paired by metis
    qed
    then have "\<forall>i < ?n. paired cfg (si_resources (env i)) (cr_channel (rs ! i)) (chans ! i)" by simp
    moreover have "rs \<noteq> []" using len(1) l(3) by auto
    then have "s_out (lsrv x) = filled_out (s_out s0) (n_by_cli c0) (map cr_channel rs) (lq_mdt q)"
      "c_out (lcli x) = init_out (c_out c0) (n_by_cli c0) chans (log_in_mdt cb q c0)"
      using g l(1,3) peer n_by_cli_asked [OF c0] by (simp_all add: granted_def in_peer_def)
    ultimately show ?thesis using len rw by blast
  qed
  from c s both show ?thesis unfolding Let_def by blast
qed

section \<open>The exchange without failures is a run\<close>

lemma init_keeps_channel:
  assumes "on_master_channel_init_open_channel cfg user_hook env m n chans md s = Inr s'" "ie_rsp env = Sent_ok"
    "ie_undo_ok env" "ie_expect_ok env"
  shows "Client_Session.m_master_channel s' = Client_Session.m_master_channel s \<and>
    (length chans + 1 \<noteq> n \<longrightarrow> (\<exists>ch. c_expect s' = Expect_init_channels n (chans @ [ch]) md))"
proof -
  from init_open_channel_cases [OF assms(1)] obtain a p ch where
    "(length chans + 1 \<noteq> n \<and> s' = s\<lparr> Client_Session.m_last_actively_opened_channel_id := a,
        Client_Session.m_last_passively_opened_channel_id := p, c_expect := Expect_init_channels n (chans @ [ch]) md \<rparr>) \<or>
     (length chans + 1 = n \<and> complete_init_channels cfg user_hook env n (chans @ [ch]) md
        (s\<lparr> Client_Session.m_last_actively_opened_channel_id := a,
        Client_Session.m_last_passively_opened_channel_id := p, c_expect := Expect_init_channels n (chans @ [ch]) md \<rparr>) = Inr s')"
    by (auto simp: Let_def)
  then show ?thesis
  proof (elim disjE conjE)
    assume c: "complete_init_channels cfg user_hook env n (chans @ [ch]) md
        (s\<lparr> Client_Session.m_last_actively_opened_channel_id := a,
        Client_Session.m_last_passively_opened_channel_id := p, c_expect := Expect_init_channels n (chans @ [ch]) md \<rparr>) = Inr s'"
      and n: "length chans + 1 = n"
    from complete_init_channels_cases [OF c] n assms(2-4) show ?thesis by auto
  qed simp
qed

lemma deliver_runs:
  assumes "deliver_init_channels ccfg (zip envs (drop (got x) (wire x))) (lcli x) = Inr c"
    "length envs = length (wire x) - got x" "got x \<le> length (wire x)" "lcch x = Ch_ok"
    "Client_Session.m_master_channel (lcli x) \<noteq> None"
    "envs \<noteq> [] \<Longrightarrow> \<exists>n chans md. c_expect (lcli x) = Expect_init_channels n chans md \<and> length chans + length envs = n"
    "\<forall>e \<in> set envs. ie_undo_ok e \<and> ie_expect_ok e \<and> ie_rsp e = Sent_ok"
  shows "(log_in_step L ccfg cfg cb creds name)\<^sup>*\<^sup>* x (x\<lparr> lcli := c, lcch := Ch_ok, got := length (wire x) \<rparr>)"
  using assms
proof (induction envs arbitrary: x)
  case Nil
  then have "c = lcli x" "got x = length (wire x)" by simp_all
  with Nil.prems(4) have "x\<lparr> lcli := c, lcch := Ch_ok, got := length (wire x) \<rparr> = x" by (cases x) simp
  then show ?case by simp
next
  case (Cons e envs)
  then have lt: "got x < length (wire x)" by (cases "got x < length (wire x)") simp_all
  from Cons.prems(6) obtain n chans md where k: "c_expect (lcli x) = Expect_init_channels n chans md"
    "length chans + Suc (length envs) = n" by auto
  have d: "drop (got x) (wire x) = wire x ! got x # drop (got x + 1) (wire x)"
    using lt by (simp add: Cons_nth_drop_Suc)
  from Cons.prems(1) k d obtain t where
    t: "on_master_channel_init_open_channel ccfg user_hook e (wire x ! got x) n chans md (lcli x) = Inr t"
    "deliver_init_channels ccfg (zip envs (drop (got x + 1) (wire x))) t = Inr c"
    by (auto simp: res_bind_eq_Inr)
  have e: "ie_undo_ok e" "ie_expect_ok e" "ie_rsp e = Sent_ok" using Cons.prems(7) by simp_all
  let ?y = "x\<lparr> lcli := t, lcch := Ch_ok, got := got x + 1 \<rparr>"
  from log_in_cli.cli_init [where st = Ch_ok and env = e and c = t and x = x and ccfg = ccfg, OF Cons.prems(5) k(1) lt]
  have "log_in_cli L ccfg x ?y" using e t(1) Cons.prems(4) by simp
  then have s: "log_in_step L ccfg cfg cb creds name x ?y" by (simp add: log_in_step_def log_in_forced_def)
  note kp = init_keeps_channel [OF t(1) e(3,1,2)]
  have more: "\<exists>n chans md. c_expect t = Expect_init_channels n chans md \<and> length chans + length envs = n" if "envs \<noteq> []"
    using kp k(2) that by (cases envs) auto
  have "(log_in_step L ccfg cfg cb creds name)\<^sup>*\<^sup>* ?y (?y\<lparr> lcli := c, lcch := Ch_ok, got := length (wire ?y) \<rparr>)"
    by (rule Cons.IH) (use t(2) Cons.prems lt kp more in auto)
  with s show ?case by (simp add: converse_rtranclp_into_rtranclp)
qed

text \<open>
  The exchange without failures is a run of the machine, so log-ins do succeed.
\<close>

lemma log_in_exchange_runs:
  assumes c0: "asks_log_in q c" and b: "before_log_in L cfg cb creds name q s"
    and ex: "log_in_exchange L cfg cb creds name senv cenvs s c = Inr (s', c')" "logged_in s'" "m_state c' = S_PEER"
    and ok: "answering (True, None) senv = senv" "length cenvs = asked_channels cb q s"
      "\<forall>e \<in> set cenvs. ie_undo_ok e \<and> ie_expect_ok e \<and> ie_rsp e = Sent_ok"
  shows "\<exists>x. (log_in_step L cfg cfg cb creds name)\<^sup>*\<^sup>* (log_in_start c s) x \<and> lsrv x = s' \<and> lcli x = c'"
proof -
  let ?m = "last (sent c)" let ?n = "asked_channels cb q s" let ?x0 = "log_in_start c s"
  have m: "body ?m = LogInReq q" "log_in_req_msg ?x0 = ?m" "sent c ! (length (sent c) - 1) = ?m"
    using c0 by (auto simp: asks_log_in_def log_in_start_def last_conv_nth)
  have h: "handle_req L cfg cb creds name Sent_ok senv (True, None) ?m s = Inr s'"
  proof -
    from ex(1) obtain t where t: "on_log_in_req L cfg cb creds name Sent_ok senv ?m s = Inr t"
      by (auto simp: log_in_exchange_def res_bind_eq_Inr)
    with ex(1) have "t = s'" by (cases "drop (length (s_sent s)) (s_sent t)") (auto simp: log_in_exchange_def res_bind_eq_Inr)
    with t ok(1) show ?thesis by (simp add: handle_req_def)
  qed
  from srv_handles [OF b m(1) h] ex(2) obtain rs where g: "granted cfg cb q s senv rs s'" by blast
  have l: "length rs = ?n" and msgs: "new_msgs s s' = granting_rsp cb q s # map req_of rs"
    using g ex(2) by (simp_all add: granted_def new_msgs_def)
  from ex(1) h ok(1) msgs obtain c1 where
    c1: "on_master_channel_log_in_rsp L cfg user_hook True (granting_rsp cb q s) c = Inr c1"
    "deliver_init_channels cfg (zip cenvs (map req_of rs)) c1 = Inr c'"
    by (auto simp: log_in_exchange_def handle_req_def res_bind_eq_Inr new_msgs_def)
  let ?st = "log_in_step L cfg cfg cb creds name"
  let ?y = "?x0\<lparr> lsrv := if ?n = 0 then s' else s, waits := if ?n = 0 then None else Some senv, wire := new_msgs s s', ran_with := Some senv \<rparr>"
  have fresh: "Server_Session.m_master_channel s \<noteq> None" "s_expect_log_in s" using b by (simp_all add: before_log_in_def)
  have dn: "m_log_in_on_done_func s' = None" using srv_handles [OF b m(1) h] ex(2) by blast
  have al: "after_log_in s' Ch_ok Ch_ok" using dn by (cases "Server_Session.m_master_channel s'") simp_all
  have ack: "waits_for_ack L cfg cb creds name Sent_ok senv ?m s \<longleftrightarrow> 0 < ?n"
  proof
    assume "waits_for_ack L cfg cb creds name Sent_ok senv ?m s"
    from request_ack [OF b m(1) this h] show "0 < ?n" by blast
  next
    assume n: "0 < ?n"
    have "\<not> logged_in t" if "handle_req L cfg cb creds name Sent_ok senv (False, None) ?m s = Inr t" for t
      using srv_handles [OF b m(1) that] n by auto
    with h ex(2) show "waits_for_ack L cfg cb creds name Sent_ok senv ?m s" unfolding waits_for_ack_def by metis
  qed
  have srv: "log_in_srv L cfg cb creds name ?x0 ?y"
  proof (cases "?n = 0")
    case True
    from log_in_srv.srv_request [of ?x0 L cfg cb creds name Sent_ok senv s' Ch_ok] True ack h fresh al m(3)
    show ?thesis by (simp add: log_in_start_def del: after_log_in_simps)
  next
    case False
    from log_in_srv.srv_asks [of ?x0 L cfg cb creds name senv s'] False ack h fresh m(3)
    show ?thesis by (simp add: log_in_start_def)
  qed
  let ?z = "?y\<lparr> lcli := c1, lcch := Ch_ok, got := 1 \<rparr>"
  have cli: "log_in_cli L cfg ?y ?z"
    using log_in_cli.cli_rsp [of ?y True Ch_ok L cfg c1] c0 c1(1) msgs by (simp add: log_in_start_def asks_log_in_def)
  have run: "?st\<^sup>*\<^sup>* ?x0 ?z" proof (rule converse_rtranclp_into_rtranclp)
    show "?st ?x0 ?y" using srv unfolding log_in_step_def log_in_forced_def by blast
    show "?st\<^sup>*\<^sup>* ?y ?z" using cli unfolding log_in_step_def log_in_forced_def by blast
  qed
  show ?thesis
  proof (cases "?n = 0")
    case True
    with c1(2) ok(2) have "c' = c1" by simp
    with run True show ?thesis by (intro exI [of _ ?z]) (simp add: log_in_start_def)
  next
    case False
    have col: "\<exists>md. c_expect c1 = Expect_init_channels ?n [] md"
    proof (cases "c_expect c1 = Expect_nothing")
      case True
      have "cenvs \<noteq> []" "rs \<noteq> []" using False ok(2) l by auto
      then have "c' = c1" using c1(2) True by (cases cenvs; cases rs) simp_all
      with True log_in_rsp_cases [OF c1(1)] ex(3) show ?thesis by auto
    next
      case e: False
      have "gave_up c c1 \<or> (\<exists>md ns. collecting ?n ns md c [] c1) \<or> (\<exists>md ns. in_peer ?n ns md c [] c1)"
        using rsp_run [OF c0 granting_rsp_body _ c1(1), of "total_init_channels cb (app_of cb q) q s"] by auto
      with log_in_rsp_cases [OF c1(1)] e False show ?thesis by (auto simp: gave_up_def collecting_def in_peer_def)
    qed
    have ch: "Client_Session.m_master_channel c1 \<noteq> None"
      using log_in_rsp_cases [OF c1(1)] col c0 by (auto simp: asks_log_in_def)
    have col': "\<exists>n chans md. c_expect c1 = Expect_init_channels n chans md \<and> length chans + length cenvs = n"
      using col ok(2) by (metis add_0 list.size(3))
    let ?w = "?z\<lparr> lcli := c', lcch := Ch_ok, got := length (wire ?z) \<rparr>"
    have "?st\<^sup>*\<^sup>* ?z ?w"
    proof (rule deliver_runs [where envs = cenvs])
      show "deliver_init_channels cfg (zip cenvs (drop (got ?z) (wire ?z))) (lcli ?z) = Inr c'" using c1(2) msgs by simp
      show "length cenvs = length (wire ?z) - got ?z" "got ?z \<le> length (wire ?z)" using ok(2) l msgs by simp_all
      show "\<exists>n chans md. c_expect (lcli ?z) = Expect_init_channels n chans md \<and> length chans + length cenvs = n"
        using col' by simp
    qed (use ch ok(3) in simp_all)
    with run have w: "?st\<^sup>*\<^sup>* ?x0 ?w" by simp
    have "reach (log_in_ini L cfg cfg cb creds name q c s) ?st ?w"
      by (rule steps_reach [OF w]) (use c0 b in \<open>simp add: log_in_ini_def\<close>)
    from joint_log_in.reach_inv [OF this] have p: "cli_part cfg cb q c s ?w" by (simp add: log_in_inv_def)
    have st: "m_state (lcli ?w) = S_PEER" using ex(3) by simp
    have snt: "length (sent c) < length (sent c')"
      by (rule peer_case [OF p st c0]) (use False in \<open>simp add: in_peer_def\<close>)
    from cli_part_keeps_request(2) [OF p c0] have r: "sent c' ! (length (sent c) - 1) = ?m" by simp
    let ?v = "?w\<lparr> lsrv := s', waits := None, taken := taken ?w + 1 \<rparr>"
    have "log_in_srv L cfg cb creds name ?w ?v"
      using log_in_srv.srv_acked [of ?w senv L cfg cb creds name s'] False h snt r by (simp add: log_in_start_def)
    then have "?st ?w ?v" unfolding log_in_step_def log_in_forced_def by blast
    with w have "?st\<^sup>*\<^sup>* ?x0 ?v" by (rule rtranclp.rtrancl_into_rtrancl)
    then show ?thesis by (intro exI [of _ ?v]) simp
  qed
qed

section \<open>A concrete run\<close>

lemma demo_joint_ready:
  "asks_log_in demo_req demo_c_waits"
  "before_log_in demo_session_lib demo_srv_cfg demo_callbacks demo_creds ''/bin/cli'' demo_req demo_s1"
proof -
  show "asks_log_in demo_req demo_c_waits"
    by (simp add: asks_log_in_def demo_c_waits_def n_by_cli_def demo_req_msg_def) (simp add: demo_req_def)
  show "before_log_in demo_session_lib demo_srv_cfg demo_callbacks demo_creds ''/bin/cli'' demo_req demo_s1"
    using demo_ready demo_names_ok by (simp add: before_log_in_def ready_for_log_in_def)
qed

theorem log_in_agreement_despite_failures_witness:
  "\<exists>x env (rs :: channel_resources list) chans. reach (log_in_ini demo_session_lib demo_srv_cfg demo_srv_cfg demo_callbacks demo_creds ''/bin/cli'' demo_req demo_c_waits demo_s1)
       (log_in_step demo_session_lib demo_srv_cfg demo_srv_cfg demo_callbacks demo_creds ''/bin/cli'') x \<and>
     logged_in (lsrv x) \<and> m_state (lcli x) = S_PEER \<and> m_cli_namespace (lsrv x) = ''1'' \<and> m_cli_namespace (lcli x) = ''1'' \<and>
     ran_with x = Some env \<and> length rs = 2 \<and> length chans = 2 \<and>
     s_out (lsrv x) = filled_out (s_out demo_s1) 1 (map cr_channel rs) [5] \<and>
     c_out (lcli x) = init_out (c_out demo_c_waits) 1 chans (Some [4]) \<and>
     (\<forall>i < 2. paired demo_srv_cfg (si_resources (env i)) (cr_channel (rs ! i)) (chans ! i))"
proof -
  let ?L = demo_session_lib and ?cfg = demo_srv_cfg and ?cb = demo_callbacks
  let ?ini = "log_in_ini ?L ?cfg ?cfg ?cb demo_creds ''/bin/cli'' demo_req demo_c_waits demo_s1"
  let ?st = "log_in_step ?L ?cfg ?cfg ?cb demo_creds ''/bin/cli''"
  let ?envs = "[Client_Properties.demo_init_env Sent_ok, Client_Properties.demo_init_env Sent_ok]"
  have out: "s_out demo_s1 = \<lparr> out_by_srv_req = Some [], out_mdt_from_cli = Some None, out_by_cli_req = Some [] \<rparr>"
    by (simp add: demo_accept_out_def)
  have n: "1 = unat (n_init_channels_by_srv_req_func ?cb (app_of ?cb demo_req) (lq_n_init_by_cli demo_req) (lq_mdt demo_req))"
    by (simp add: demo_callbacks_def)
  have envs: "client_answers_ok ?envs 2" "\<forall>e \<in> set ?envs. ie_undo_ok e \<and> ie_expect_ok e \<and> ie_rsp e = Sent_ok"
    by (simp_all add: client_answers_ok_def)
  have two: "asked_channels ?cb demo_req demo_s1 = 2" by simp
  have senv: "answering (True, None) Server_Properties.demo_init_env = Server_Properties.demo_init_env"
    by (rule ext) (simp add: answering_def Server_Properties.demo_init_env_def)
  from log_in_exchange_completes [OF demo_awaits demo_ready demo_names_ok out n, where n = 2 and
      senv = Server_Properties.demo_init_env and cenvs = ?envs] demo_answers_ok [of 2] envs(1)
  obtain s' c' where ex: "log_in_exchange ?L ?cfg ?cb demo_creds ''/bin/cli'' Server_Properties.demo_init_env ?envs demo_s1
      demo_c_waits = Inr (s', c')" "s_done_calls s' = [(21, None)]" "m_state c' = S_PEER" by auto
  have l: "logged_in s'" using ex(2) by (simp add: logged_in_def)
  from log_in_exchange_runs [OF demo_joint_ready ex(1) l ex(3) senv _ envs(2)] two obtain x where
    x: "?st\<^sup>*\<^sup>* (log_in_start demo_c_waits demo_s1) x" "lsrv x = s'" "lcli x = c'" by auto
  have r: "reach ?ini ?st x" by (rule steps_reach [OF x(1)]) (use demo_joint_ready in \<open>simp add: log_in_ini_def\<close>)
  have ns: "cli_namespace_func ?cb = ''1''" "log_in_mdt ?cb demo_req demo_c_waits = Some [4]" "lq_mdt demo_req = [5]"
    "n_by_cli demo_c_waits = 1"
    by (simp_all add: demo_callbacks_def log_in_mdt_def demo_c_waits_def n_by_cli_def demo_req_def)
  have "\<exists>env (rs :: channel_resources list) chans. ran_with x = Some env \<and> length rs = 2 \<and> length chans = 2 \<and>
      s_out (lsrv x) = filled_out (s_out demo_s1) 1 (map cr_channel rs) [5] \<and>
      c_out (lcli x) = init_out (c_out demo_c_waits) 1 chans (Some [4]) \<and>
      (\<forall>i < 2. paired ?cfg (si_resources (env i)) (cr_channel (rs ! i)) (chans ! i))"
    "m_cli_namespace (lsrv x) = ''1''" "m_cli_namespace (lcli x) = ''1''"
    using log_in_agreement_despite_failures [OF r, unfolded Let_def two ns] l ex(3) x by simp_all
  with r l ex(3) x show ?thesis by blast
qed

end
