(* ===== verification/Log_In_Progress.thy ===== *)
theory Log_In_Progress
  imports Log_In_Agreement
begin

text \<open>
  That a log-in comes to an end, in the machine of \<open>Log_In_System\<close>: what each side waits for, that its handler returns when
  that has come, and a measure of what is left to do.
\<close>

section \<open>What each side waits for\<close>

text \<open>
  The client: until its completion handler has run it is in CONNECTING state with its channel, and unless an
  error is on its way it waits for a message that it can handle.
\<close>

definition cli_status :: "client_session \<Rightarrow> chan_status \<Rightarrow> bool" where
  "cli_status c st \<longleftrightarrow> (if done_calls c = []
     then m_state c = S_CONNECTING \<and> m_conn_on_done_func_or_empty c \<noteq> None \<and> Client_Session.m_master_channel c \<noteq> None \<and>
       st \<noteq> Ch_err_emitted \<and> (st = Ch_ok \<longrightarrow> (case c_expect c of Expect_log_in_rsp \<Rightarrow> True
         | Expect_init_channels n chans md \<Rightarrow> client_init_ready n chans md c \<and> length chans < n | _ \<Rightarrow> False))
     else m_state c \<noteq> S_CONNECTING)"

text \<open>
  The server: until its log-in handler has run it has its channel, and it waits for the request or an error is on its way; after a
  failure it has dropped the channel; if it waits for the acknowledgement the handler's result depends on that.
\<close>

definition srv_status :: "session_lib \<Rightarrow> session_cfg \<Rightarrow> accept_callbacks \<Rightarrow> process_creds \<Rightarrow> string \<Rightarrow> msg \<Rightarrow> server_session \<Rightarrow>
    log_in_sys \<Rightarrow> bool" where
  "srv_status L cfg cb creds name m s0 x \<longleftrightarrow>
     (s_done_calls (lsrv x) = [] \<longrightarrow> lsch x \<noteq> Ch_err_emitted \<and> m_log_in_on_done_func (lsrv x) \<noteq> None \<and>
        Server_Session.m_master_channel (lsrv x) \<noteq> None \<and> (s_expect_log_in (lsrv x) \<or> lsch x \<noteq> Ch_ok)) \<and>
     (s_done_calls (lsrv x) \<noteq> [] \<and> \<not> logged_in (lsrv x) \<longrightarrow> Server_Session.m_master_channel (lsrv x) = None) \<and>
     (\<forall>env. waits x = Some env \<longrightarrow> s_expect_log_in (lsrv x) \<and> s_done_calls (lsrv x) = [] \<and> waits_for_ack L cfg cb creds name Sent_ok env m s0)"

lemma cli_error_status:
  assumes "cli_status c (Ch_err_pending e)"
    "Client_Session.on_master_channel_error ccfg user_hook (Client_Session.m_master_channel c) e c = Inr c'"
  shows "cli_status c' Ch_err_emitted"
proof (cases "done_calls c = []")
  case True
  with assms(1) obtain h ch where h: "m_conn_on_done_func_or_empty c = Some h" "Client_Session.m_master_channel c = Some ch"
    "m_state c = S_CONNECTING" by (auto simp: cli_status_def)
  have "Client_Session.on_master_channel_error ccfg user_hook (Client_Session.m_master_channel c) e c = Inr
        (c\<lparr> Client_Session.m_master_channel := None, c_expect := Expect_nothing, m_state := S_NULL,
           m_conn_on_done_func_or_empty := None, done_calls := done_calls c @ [(h, Some e)] \<rparr>)"
    using h by (simp add: Client_Session.on_master_channel_error_def Let_def invoke_some del: invoke_user)
  with assms(2) have "c' = c\<lparr> Client_Session.m_master_channel := None, c_expect := Expect_nothing, m_state := S_NULL,
           m_conn_on_done_func_or_empty := None, done_calls := done_calls c @ [(h, Some e)] \<rparr>" by simp
  then show ?thesis by (simp add: cli_status_def)
next
  case False
  with assms(1) have n: "m_state c \<noteq> S_CONNECTING" by (simp add: cli_status_def)
  with cli_error_run [OF assms(2)] False have "c' = c \<or> m_state c = S_NULL \<or> m_state c' = S_PEER \<and> done_calls c' = done_calls c"
    by (cases "m_state c") auto
  then show ?thesis
  proof (elim disjE conjE)
    assume "m_state c = S_NULL"
    with assms(2) have "c' = c" by (simp add: Client_Session.on_master_channel_error_def split: if_splits)
    with n False show ?thesis by (simp add: cli_status_def)
  qed (use n False in \<open>simp_all add: cli_status_def\<close>)
qed

lemma cli_rsp_status:
  assumes c0: "asks_log_in q c0" and m: "body m = LogInRsp r" "unat (lr_n_init_by_srv r) + n_by_cli c0 < 2 ^ 64"
    and cfg: "\<not> S_GRACEFUL_FINISH_REQUIRED ccfg" and st: "st \<noteq> Ch_err_emitted" "op_answer st ok st'"
    and run: "on_master_channel_log_in_rsp L ccfg user_hook ok m c0 = Inr c"
  shows "cli_status c st'"
proof (cases ok)
  case False
  with st have "st' \<noteq> Ch_err_emitted" "st' \<noteq> Ch_ok" by (cases st; auto)+
  moreover have "done_calls c0 = []" "Client_Session.m_master_channel c0 \<noteq> None" using c0 by (simp_all add: asks_log_in_def)
  ultimately show ?thesis using log_in_rsp_cases [OF run] False
    by (elim conjE exE disjE) (simp_all add: cli_status_def)
next
  case True
  have s: "m_state c0 = S_CONNECTING" "m_cli_namespace c0 = []" "done_calls c0 = []" "Client_Session.m_master_channel c0 \<noteq> None"
    using c0 by (simp_all add: asks_log_in_def)
  obtain h where h: "m_conn_on_done_func_or_empty c0 = Some h" using c0 by (auto simp: asks_log_in_def)
  have "st' = Ch_ok" using st True by (cases st) simp_all
  from on_log_in_rsp [OF s(1) h s(2) cfg, of m L] m run True have out: "if accepts_log_in_rsp L (c_out c0) m
     then Client_Session.m_master_channel c = Client_Session.m_master_channel c0 \<and>
       (if lr_n_init_by_srv r = 0 \<and> n_by_cli c0 = 0 then m_state c = S_PEER \<and> done_calls c = done_calls c0 @ [(h, None)]
        else m_state c = S_CONNECTING \<and> c_out c = c_out c0 \<and> done_calls c = done_calls c0 \<and>
             m_conn_on_done_func_or_empty c = Some h \<and>
             c_expect c = Expect_init_channels (unat (lr_n_init_by_srv r) + n_by_cli c0) []
               (if out_mdt (c_out c0) = None then None else Some (lr_mdt r)))
     else m_state c = S_NULL \<and> (\<exists>e. done_calls c = done_calls c0 @ [(h, Some e)])"
    by (cases "accepts_log_in_rsp L (c_out c0) m") (simp_all split: if_splits)
  show ?thesis
  proof (cases "accepts_log_in_rsp L (c_out c0) m \<and> \<not> (lr_n_init_by_srv r = 0 \<and> n_by_cli c0 = 0)")
    case False
    with out show ?thesis by (auto simp: cli_status_def split: if_splits)
  next
    case a: True
    then have srv: "lr_n_init_by_srv r = 0 \<or> out_by_srv (c_out c0) \<noteq> None" using m(1) by (simp add: accepts_log_in_rsp_def)
    from a out have o: "c_out c = c_out c0" "done_calls c = []" "m_state c = S_CONNECTING"
      "m_conn_on_done_func_or_empty c = Some h" "Client_Session.m_master_channel c \<noteq> None"
      "c_expect c = Expect_init_channels (unat (lr_n_init_by_srv r) + n_by_cli c0) []
         (if out_mdt (c_out c0) = None then None else Some (lr_mdt r))"
      using s(3,4) by (simp_all only: if_True if_False simp_thms)
    have n: "n_by_cli c = n_by_cli c0" using o(1) by (simp add: n_by_cli_def)
    have "0 < unat (lr_n_init_by_srv r) + n_by_cli c0" using a by (auto simp: unat_gt_0)
    with o n srv \<open>st' = Ch_ok\<close> show ?thesis by (auto simp: cli_status_def client_init_ready_def)
  qed
qed

lemma cli_init_status:
  assumes i: "cli_status c st0" "c_expect c = Expect_init_channels n chans md" "st0 \<noteq> Ch_err_emitted"
    and st: "op_answer st0 (ie_undo_ok env) st1" "op_answer st1 (ie_expect_ok env) st2" "sending st2 (ie_rsp env) st"
      "length chans + 1 \<noteq> n \<longrightarrow> st = st0"
    and run: "on_master_channel_init_open_channel ccfg user_hook env m n chans md c = Inr c'"
  shows "cli_status c' st"
proof -
  from init_open_channel_cases [OF run] obtain a p ch where s: "m_state c = S_CONNECTING" "m_conn_on_done_func_or_empty c \<noteq> None" and
    t: "(length chans + 1 \<noteq> n \<and> c' = c\<lparr> Client_Session.m_last_actively_opened_channel_id := a,
        Client_Session.m_last_passively_opened_channel_id := p, c_expect := Expect_init_channels n (chans @ [ch]) md \<rparr>) \<or>
     (length chans + 1 = n \<and> complete_init_channels ccfg user_hook env n (chans @ [ch]) md
        (c\<lparr> Client_Session.m_last_actively_opened_channel_id := a,
        Client_Session.m_last_passively_opened_channel_id := p, c_expect := Expect_init_channels n (chans @ [ch]) md \<rparr>) = Inr c')"
    and l: "length chans < n" by (auto simp: Let_def)
  have d: "done_calls c = []" "Client_Session.m_master_channel c \<noteq> None" "st0 = Ch_ok \<longrightarrow> client_init_ready n chans md c"
    using i s by (auto simp: cli_status_def split: if_splits)
  from t show ?thesis
  proof (elim disjE conjE)
    assume n: "length chans + 1 \<noteq> n" and c': "c' = c\<lparr> Client_Session.m_last_actively_opened_channel_id := a,
        Client_Session.m_last_passively_opened_channel_id := p, c_expect := Expect_init_channels n (chans @ [ch]) md \<rparr>"
    with st(4) d s l i(3) show ?thesis by (auto simp: cli_status_def client_init_ready_def n_by_cli_def)
  next
    assume n: "length chans + 1 = n" and comp: "complete_init_channels ccfg user_hook env n (chans @ [ch]) md
        (c\<lparr> Client_Session.m_last_actively_opened_channel_id := a,
        Client_Session.m_last_passively_opened_channel_id := p, c_expect := Expect_init_channels n (chans @ [ch]) md \<rparr>) = Inr c'"
    have pend: "st \<noteq> Ch_ok \<and> (ie_rsp env = Refused \<longrightarrow> st \<noteq> Ch_err_emitted)"
      if "\<not> ie_undo_ok env \<or> \<not> ie_expect_ok env \<or> ie_rsp env = Refused"
      using st(1-3) i(3) that by (cases st0; cases st1; cases st2) auto
    have refused: "ie_rsp env = Refused" if "\<not> ie_undo_ok env \<or> \<not> ie_expect_ok env"
      using st(1-3) that by (cases st0; cases st1; cases st2) auto
    from complete_init_channels_cases [OF comp] pend refused d s n show ?thesis
      by (elim disjE exE conjE) (simp_all add: cli_status_def)
  qed
qed

section \<open>The client's next step\<close>

lemma cli_error_step:
  assumes "cli_status (lcli x) (lcch x)" "done_calls (lcli x) = []" "lcch x = Ch_err_pending e"
  shows "\<exists>y. log_in_cli L ccfg x y"
proof -
  obtain h ch where h: "m_conn_on_done_func_or_empty (lcli x) = Some h" "Client_Session.m_master_channel (lcli x) = Some ch"
    "m_state (lcli x) = S_CONNECTING" using assms(1,2) by (auto simp: cli_status_def)
  then have "\<exists>c. Client_Session.on_master_channel_error ccfg user_hook (Client_Session.m_master_channel (lcli x)) e (lcli x) = Inr c"
    by (simp add: Client_Session.on_master_channel_error_def Let_def invoke_some del: invoke_user)
  with assms(3) show ?thesis by (blast intro: log_in_cli.cli_error)
qed

lemma cli_rsp_step:
  assumes c0: "asks_log_in q c0" and m: "body (wire x ! got x) = LogInRsp r" "unat (lr_n_init_by_srv r) + n_by_cli c0 < 2 ^ 64"
    and cfg: "\<not> S_GRACEFUL_FINISH_REQUIRED ccfg" and x: "lcli x = c0" "lcch x = Ch_ok" "got x < length (wire x)"
  shows "\<exists>y. log_in_cli L ccfg x y"
proof -
  obtain h where c: "m_conn_on_done_func_or_empty c0 = Some h" "m_state c0 = S_CONNECTING" "m_cli_namespace c0 = []"
    "c_expect c0 = Expect_log_in_rsp" "Client_Session.m_master_channel c0 \<noteq> None"
    using c0 by (auto simp: asks_log_in_def)
  from on_log_in_rsp [OF c(2,1,3) cfg, of "wire x ! got x" L] m obtain c' where
    "on_master_channel_log_in_rsp L ccfg user_hook True (wire x ! got x) c0 = Inr c'" by auto
  with log_in_cli.cli_rsp [of x True Ch_ok L ccfg c'] c x show ?thesis by auto
qed

lemma cli_init_step:
  assumes r: "client_init_ready n chans md (lcli x)" "length chans < n" "Client_Session.m_master_channel (lcli x) \<noteq> None"
    and m: "good_channel_msg ccfg (wire x ! got x)"
    and cfg: "\<not> S_GRACEFUL_FINISH_REQUIRED ccfg" and x: "lcch x = Ch_ok" "got x < length (wire x)"
  shows "\<exists>y. log_in_cli L ccfg x y"
proof -
  let ?env = "\<lparr> ie_channel = \<lparr> ce_open_c2s = None, ce_open_s2c = None, ce_channel = None \<rparr>, ie_undo_ok = True,
    ie_expect_ok = True, ie_rsp = Sent_ok \<rparr>"
  have e: "channel_env_ok (ie_channel ?env)" by (simp add: channel_env_ok_def)
  obtain h where h: "m_conn_on_done_func_or_empty (lcli x) = Some h" using r(1) by (auto simp: client_init_ready_def)
  have "\<exists>c. on_master_channel_init_open_channel ccfg user_hook ?env (wire x ! got x) n chans md (lcli x) = Inr c"
  proof (cases "length chans + 1 = n")
    case True
    from init_channel_last [OF r(1) m e True _ _ _ cfg h] show ?thesis by auto
  next
    case False
    with r(2) have "length chans + 1 < n" by simp
    from init_channel_more [OF r(1) m e this] show ?thesis by blast
  qed
  then obtain c where "on_master_channel_init_open_channel ccfg user_hook ?env (wire x ! got x) n chans md (lcli x) = Inr c" ..
  with log_in_cli.cli_init [of x n chans md ?env Ch_ok Ch_ok Ch_ok ccfg c L] r x show ?thesis
    by (auto simp: client_init_ready_def)
qed

section \<open>The server's next step\<close>

lemma srv_error_returns:
  assumes "m_log_in_on_done_func s \<noteq> None" "Server_Session.m_master_channel s \<noteq> None"
  shows "\<exists>s'. Server_Session.on_master_channel_error cfg e s = Inr s'"
  using assms by (auto simp: Server_Session.on_master_channel_error_def finish_log_in_def)

lemma open_init_returns:
  assumes "session_names_ok L s" "\<forall>i. si_acked (env i) \<longrightarrow> si_err (env i) = None"
  shows "\<exists>s' chans' ok e. open_init_channels L cfg env k chans s = Inr (s', chans', ok, e) \<and> (ok \<longrightarrow> e = None)"
  using assms(1)
proof (induction k arbitrary: chans s)
  case 0
  then show ?case by auto
next
  case (Suc k)
  let ?e = "env (length chans)"
  from create_outcome [OF Suc.prems, of cfg "si_resources ?e" True] obtain t r where
    c: "create_channel_and_resources L cfg (si_resources ?e) True s = Inr (t, r)" by blast
  let ?t = "t\<lparr> s_sent := s_sent t @ [req_of r] \<rparr>"
  have "session_names_ok L ?t"
    using session_names_ok_frame [OF create_frame [OF c]] Suc.prems by (simp add: session_names_ok_def)
  from Suc.IH [OF this, of "chans @ [cr_channel r]"] assms(2) show ?case
    by (cases "si_send ?e") (auto simp: c Let_def send_init_channel_def split: prod.splits)
qed

text \<open>The server's handler returns, whatever its environment answers.\<close>

lemma handle_req_returns:
  assumes b: "before_log_in L cfg cb creds name q s" "body m = LogInReq q" and a: "fst a \<longrightarrow> snd a = None"
  shows "\<exists>s'. handle_req L cfg cb creds name rsp env a m s = Inr s'"
proof (cases "first_failure (log_in_checks L cfg cb creds name q s)")
  case (Some e)
  let ?s = "s\<lparr> s_expect_log_in := False \<rparr>"
  have c: "log_in_checks L cfg cb creds name q ?s = log_in_checks L cfg cb creds name q s" by (simp add: log_in_checks_def)
  from check_log_in_req_eq [of ?s L cb cfg creds name q] Some c b(1) obtain t where
    t: "res_frame (?s\<lparr> m_cli_app_ptr := m_cli_app_ptr t, m_cli_namespace := m_cli_namespace t \<rparr>) t"
    "check_log_in_req L cfg cb creds name q ?s = Inr (t, Inl e)" by (auto simp: before_log_in_def)
  have "m_log_in_on_done_func t \<noteq> None" using res_frame_fields(1) [OF t(1)] b(1) by (simp add: before_log_in_def)
  with t(2) b show ?thesis
    by (auto simp: handle_req_def on_log_in_req_def getLogInReq_def finish_log_in_def before_log_in_def)
next
  case None
  from before_ready [OF b(1) None] have rd: "ready_for_log_in L cfg cb creds name q s" and
    names: "session_names_ok L (checked cb q s)" by simp_all
  let ?u = "(checked cb q s)\<lparr> s_sent := s_sent s @ [granting_rsp cb q s] \<rparr>" let ?env = "answering a env"
  let ?n = "asked_channels cb q s" let ?k = "unat (lq_n_init_by_cli q)"
  have f: "m_log_in_on_done_func (checked cb q s) \<noteq> None" "s_out ?u = s_out s" using b(1) by (simp_all add: checked_def before_log_in_def)
  have "session_names_ok L ?u" "\<forall>i. si_acked (?env i) \<longrightarrow> si_err (?env i) = None"
    using names a by (simp_all add: session_names_ok_def answering_def)
  from open_init_returns [OF this, of cfg ?n "[]"] obtain t chans ok e where
    o: "open_init_channels L cfg ?env ?n [] ?u = Inr (t, chans, ok, e)" "ok \<longrightarrow> e = None" by blast
  note t = res_frame_fields [OF open_init_frame [OF o(1)]]
  have fin: "\<exists>s'. finish_with_init_channels L cfg ?env ?n ?k (lq_mdt q) ?u = Inr s'"
  proof (cases ok)
    case True
    from open_init_run [OF o(1) \<open>session_names_ok L ?u\<close>] True have "length chans = ?n" by auto
    from emit_srv_ok [OF this, of ?k t "lq_mdt q"] total_init_channels_bounds [OF rd] t(3) f(2)
    have "Server_Session.emit_init_channels ?n ?k chans (lq_mdt q) t = Inr (t\<lparr> s_out := filled_out (s_out t) ?k chans (lq_mdt q) \<rparr>)"
      by simp
    with o True t(1) f show ?thesis by (auto simp: finish_with_init_channels_def finish_log_in_def)
  next
    case False
    with o(1) t(1) f show ?thesis by (cases e) (auto simp: finish_with_init_channels_def finish_log_in_def)
  qed
  show ?thesis
    unfolding handle_req_def on_log_in_req_checked [OF rd b(2)] Let_def
    using fin f(1) by (cases rsp) (auto simp: finish_log_in_def)
qed

lemma srv_status_settled:
  assumes "srv_status L cfg cb creds name m s0 x" "waits y = None" "s_done_calls (lsrv y) \<noteq> []"
    "logged_in (lsrv y) \<or> Server_Session.m_master_channel (lsrv y) = None"
  shows "srv_status L cfg cb creds name m s0 y"
  using assms(2-4) by (auto simp: srv_status_def)

text \<open>The handler has ended: with a result, or an error is on its way.\<close>

lemma srv_handled_status:
  assumes b: "before_log_in L cfg cb creds name q s0" "body m = LogInReq q"
    and r: "handle_req L cfg cb creds name rsp env a m s0 = Inr s'"
    and y: "waits y = None" "lsrv y = s'" "s_done_calls s' = [] \<Longrightarrow> lsch y \<noteq> Ch_err_emitted \<and> lsch y \<noteq> Ch_ok"
  shows "srv_status L cfg cb creds name m s0 y"
proof (cases "logged_in s'")
  case True
  with y show ?thesis by (auto simp: srv_status_def logged_in_def)
next
  case False
  with srv_handles [OF b r] y show ?thesis by (auto simp: srv_status_def)
qed

lemma srv_error_status:
  assumes i: "srv_status L cfg cb creds name m s0 x" and w: "waits x = None" and st: "lsch x = Ch_err_pending e"
    and run: "Server_Session.on_master_channel_error cfg e (lsrv x) = Inr s"
  shows "srv_status L cfg cb creds name m s0 (x\<lparr> lsrv := s, lsch := Ch_err_emitted \<rparr>)"
  using srv_error_run [OF run]
proof (elim disjE conjE exE)
  assume s: "s_done_calls s = s_done_calls (lsrv x)"
    "Server_Session.m_master_channel (lsrv x) \<noteq> None \<longrightarrow> m_log_in_on_done_func (lsrv x) = None"
    "Server_Session.m_master_channel s = Server_Session.m_master_channel (lsrv x)"
  then have "s_done_calls (lsrv x) \<noteq> []" using i by (auto simp: srv_status_def)
  with i s w show ?thesis by (auto simp: srv_status_def logged_in_def)
next
  fix h assume s: "s_done_calls s = s_done_calls (lsrv x) @ [(h, Some e)]" "Server_Session.m_master_channel s = None"
  with w show ?thesis by (auto simp: srv_status_def)
qed

lemma log_in_status_srv:
  assumes i: "log_in_inv L ccfg cfg cb creds name q c0 s0 x" "srv_status L cfg cb creds name (last (sent c0)) s0 x"
    and c0: "asks_log_in q c0" and b: "before_log_in L cfg cb creds name q s0"
    and st: "log_in_srv L cfg cb creds name x y \<or> log_in_env L cfg cb creds name x y"
  shows "srv_status L cfg cb creds name (last (sent c0)) s0 y"
proof -
  from i have p: "srv_part L cfg cb creds name q c0 s0 x" "cli_part ccfg cb q c0 s0 x" by (simp_all add: log_in_inv_def)
  note m = cli_part_keeps_request(2) [OF p(2) c0]
  have body: "body (last (sent c0)) = LogInReq q" using c0 by (simp add: asks_log_in_def)
  have ask: "log_in_req_msg x = last (sent c0) \<and> lsrv x = s0" if "waits x = Some env" for env
    using srv_part_ask [OF p(1) that] m by metis
  have fresh: "log_in_req_msg x = last (sent c0)" "lsrv x = s0" if "waits x = None" "s_expect_log_in (lsrv x)"
    using srv_part_fresh [OF p(1) that] m by simp_all
  from st show ?thesis
  proof
    assume "log_in_srv L cfg cb creds name x y"
    then show ?thesis
    proof cases
      case (srv_error e s)
      with srv_error_status [OF i(2) srv_error(2,3,4)] show ?thesis by simp
    next
      case (srv_request rsp env s st)
      have r: "handle_req L cfg cb creds name rsp env (True, None) (last (sent c0)) s0 = Inr s"
        using srv_request(6) fresh [OF srv_request(2,4)] by simp
      have "st \<noteq> Ch_err_emitted \<and> st \<noteq> Ch_ok" if d: "s_done_calls s = []"
      proof -
        have "\<not> logged_in s" using d by (simp add: logged_in_def)
        with srv_handles [OF b body r] d have "m_log_in_on_done_func s \<noteq> None" by auto
        with srv_request(7) show ?thesis by auto
      qed
      with srv_handled_status [OF b body r, of y] srv_request show ?thesis by simp
    next
      case (srv_asks env s)
      have "s_done_calls s0 = []" using b by (simp add: before_log_in_def)
      with i(2) srv_asks fresh [OF srv_asks(2,4)] show ?thesis by (simp add: srv_status_def logged_in_def)
    next
      case (srv_acked env s)
      from ask [OF srv_acked(2)] srv_acked(5) have r: "handle_req L cfg cb creds name Sent_ok env (True, None) (last (sent c0)) s0 = Inr s"
        by simp
      have "logged_in s" using request_ack [OF b body _ r] i(2) srv_acked(2) by (auto simp: srv_status_def)
      then have "s_done_calls s \<noteq> []" by (auto simp: logged_in_def)
      with srv_handled_status [OF b body r, of y] srv_acked show ?thesis by simp
    next
      case (srv_unacked env e s)
      from ask [OF srv_unacked(2)] srv_unacked(4) have r: "handle_req L cfg cb creds name Sent_ok env (False, None) (last (sent c0)) s0 = Inr s"
        by simp
      with srv_handled_status [OF b body r, of y] srv_unacked show ?thesis by simp
    qed
  next
    assume "log_in_env L cfg cb creds name x y"
    then show ?thesis
    proof cases
      case (cli_fails e)
      with i(2) show ?thesis by (simp add: srv_status_def)
    next
      case (srv_fails e)
      with i(2) show ?thesis by (auto simp: srv_status_def)
    next
      case (ask_fails env e s)
      from ask [OF ask_fails(2)] ask_fails(5) have r: "handle_req L cfg cb creds name Sent_ok env (False, Some e) (last (sent c0)) s0 = Inr s"
        by simp
      have w: "waits_for_ack L cfg cb creds name Sent_ok env (last (sent c0)) s0" using i(2) ask_fails(2) by (simp add: srv_status_def)
      obtain t where "handle_req L cfg cb creds name Sent_ok env (True, None) (last (sent c0)) s0 = Inr t"
        by (rule srv_part_ask [OF p(1) ask_fails(2)])
      from request_ack [OF b body w this] r have "s_done_calls s \<noteq> []" by blast
      with srv_handled_status [OF b body r, of y] ask_fails show ?thesis by simp
    qed
  qed
qed

section \<open>The log-in comes to an end\<close>

text \<open>
  What is left to do: messages to handle (\<open>n + 1\<close> for a log-in with \<open>n\<close> init-channels), errors to come and to handle, and the
  request with the wait for its acknowledgement.
\<close>

primrec chan_work :: "chan_status \<Rightarrow> nat" where
  "chan_work Ch_ok = 2"
| "chan_work (Ch_err_pending e) = 1"
| "chan_work Ch_err_emitted = 0"

definition request_work :: "log_in_sys \<Rightarrow> nat" where
  "request_work x = (if waits x \<noteq> None then 1 else if s_expect_log_in (lsrv x) then 2 else 0)"

definition log_in_work :: "nat \<Rightarrow> log_in_sys \<Rightarrow> nat" where
  "log_in_work n x = (n + 1 - got x) + chan_work (lcch x) + chan_work (lsch x) + request_work x"

definition log_in_live :: "session_lib \<Rightarrow> session_cfg \<Rightarrow> session_cfg \<Rightarrow> accept_callbacks \<Rightarrow> process_creds \<Rightarrow> string \<Rightarrow> log_in_req \<Rightarrow>
    client_session \<Rightarrow> server_session \<Rightarrow> log_in_sys \<Rightarrow> bool" where
  "log_in_live L ccfg cfg cb creds name q c0 s0 x \<longleftrightarrow> asks_log_in q c0 \<and> before_log_in L cfg cb creds name q s0 \<and>
     log_in_inv L ccfg cfg cb creds name q c0 s0 x \<and> srv_status L cfg cb creds name (last (sent c0)) s0 x \<and>
     cli_status (lcli x) (lcch x)"

text \<open>The response announces a number of init-channels that fits 64 bits, together with the client's.\<close>

lemma granting_rsp_fits:
  assumes "asks_log_in q c0" "before_log_in L cfg cb creds name q s0" "first_failure (log_in_checks L cfg cb creds name q s0) = None"
  shows "unat (total_init_channels cb (app_of cb q) q s0 - lq_n_init_by_cli q) + n_by_cli c0 < 2 ^ 64"
proof -
  from before_ready [OF assms(2,3)] have "unat (lq_n_init_by_cli q) \<le> asked_channels cb q s0"
    by (auto dest: total_init_channels_bounds(1))
  then have "unat (total_init_channels cb (app_of cb q) q s0 - lq_n_init_by_cli q) + unat (lq_n_init_by_cli q) = asked_channels cb q s0"
    by (simp add: unat_sub word_le_nat_alt)
  moreover have "asked_channels cb q s0 < 2 ^ 64"
    using unsigned_less [of "total_init_channels cb (app_of cb q) q s0"] by simp
  ultimately show ?thesis using n_by_cli_asked [OF assms(1)] by simp
qed

lemma srv_part_granted:
  assumes "srv_part L cfg cb creds name q c0 s0 x" "wire x \<noteq> []"
  obtains env rs where "first_failure (log_in_checks L cfg cb creds name q s0) = None" "offered cfg cb q s0 env rs (wire x)"
  using assms unfolding srv_part_def by blast

lemma rsp_at_start:
  assumes "cli_part ccfg cb q c0 s0 x" "asks_log_in q c0" "c_expect (lcli x) = Expect_log_in_rsp" "m_state (lcli x) = S_CONNECTING"
  shows "lcli x = c0" "got x = 0"
  using assms by (auto simp: cli_part_def gave_up_def collecting_def in_peer_def split: client_expect.splits)

lemma log_in_status_cli:
  assumes i: "log_in_live L ccfg cfg cb creds name q c0 s0 x" and cfg: "\<not> S_GRACEFUL_FINISH_REQUIRED ccfg"
    and st: "log_in_cli L ccfg x y"
  shows "cli_status (lcli y) (lcch y)"
proof -
  from i have p: "srv_part L cfg cb creds name q c0 s0 x" "cli_part ccfg cb q c0 s0 x" "cli_status (lcli x) (lcch x)"
    "asks_log_in q c0" "before_log_in L cfg cb creds name q s0" by (simp_all add: log_in_live_def log_in_inv_def)
  from st show ?thesis
  proof cases
    case (cli_error e c)
    with cli_error_status [of "lcli x" e ccfg c] p(3) show ?thesis by simp
  next
    case (cli_rsp ok st c)
    from log_in_rsp_cases [OF cli_rsp(6)] have c: "m_state (lcli x) = S_CONNECTING" by blast
    note x = rsp_at_start [OF p(2,4) cli_rsp(3) c]
    have w: "wire x \<noteq> []" using cli_rsp(4) by auto
    obtain env rs where g: "first_failure (log_in_checks L cfg cb creds name q s0) = None" "offered cfg cb q s0 env rs (wire x)"
      by (rule srv_part_granted [OF p(1) w])
    from g(2) x(2) have m: "wire x ! got x = granting_rsp cb q s0" by (simp add: offered_def)
    have e: "lcch x \<noteq> Ch_err_emitted" using p(3,4) x(1) by (simp add: cli_status_def asks_log_in_def)
    have run: "on_master_channel_log_in_rsp L ccfg user_hook ok (granting_rsp cb q s0) c0 = Inr c"
      using cli_rsp(6) unfolding x(1) m .
    have "cli_status c st"
      by (rule cli_rsp_status [OF p(4) granting_rsp_body _ cfg e cli_rsp(5) run]) (use granting_rsp_fits [OF p(4,5) g(1)] in simp)
    with cli_rsp(1) show ?thesis by simp
  next
    case (cli_init n chans md env st1 st2 st c)
    from init_open_channel_cases [OF cli_init(9)] have "m_state (lcli x) = S_CONNECTING" by blast
    with p(3) have "lcch x \<noteq> Ch_err_emitted" by (auto simp: cli_status_def split: if_splits)
    from cli_init_status [OF p(3) cli_init(3) this cli_init(5-9)] cli_init(1) show ?thesis by simp
  qed
qed

lemma log_in_live_step:
  assumes i: "log_in_live L ccfg cfg cb creds name q c0 s0 x" and cfg: "\<not> S_GRACEFUL_FINISH_REQUIRED ccfg"
    and st: "log_in_step L ccfg cfg cb creds name x y"
  shows "log_in_live L ccfg cfg cb creds name q c0 s0 y"
proof -
  from i have p: "asks_log_in q c0" "before_log_in L cfg cb creds name q s0" "log_in_inv L ccfg cfg cb creds name q c0 s0 x"
    "srv_status L cfg cb creds name (last (sent c0)) s0 x" "cli_status (lcli x) (lcch x)" by (simp_all add: log_in_live_def)
  note inv = log_in_inv_step [OF p(3,1,2) st]
  from st consider (cli) "log_in_cli L ccfg x y" | (srv) "log_in_srv L cfg cb creds name x y \<or> log_in_env L cfg cb creds name x y"
    | (gone) "log_in_gone x y"
    unfolding log_in_step_def log_in_forced_def by blast
  then have "srv_status L cfg cb creds name (last (sent c0)) s0 y \<and> cli_status (lcli y) (lcch y)"
  proof cases
    case cli
    then have "lsrv y = lsrv x \<and> lsch y = lsch x \<and> waits y = waits x" by cases simp_all
    with p(4) log_in_status_cli [OF i cfg cli] show ?thesis by (simp add: srv_status_def)
  next
    case srv
    then have "lcli y = lcli x \<and> (lcch y = lcch x \<or> lcch x = Ch_ok \<and> (\<exists>e. lcch y = Ch_err_pending e))"
      by (elim disjE) (auto elim!: log_in_srv.cases log_in_env.cases)
    with p(5) log_in_status_srv [OF p(3,4,1,2) srv] show ?thesis by (auto simp: cli_status_def split: if_splits)
  next
    case gone
    then show ?thesis
    proof cases
      case (cli_hears e)
      with p(4,5) show ?thesis by (auto simp: srv_status_def cli_status_def split: if_splits)
    next
      case (srv_hears e)
      with p(4,5) show ?thesis by (auto simp: srv_status_def cli_status_def split: if_splits)
    qed
  qed
  with inv p(1,2) show ?thesis by (simp add: log_in_live_def)
qed

lemma wire_bound:
  assumes "srv_part L cfg cb creds name q c0 s0 x"
  shows "length (wire x) \<le> asked_channels cb q s0 + 1"
  using assms unfolding srv_part_def offered_def by auto

lemma log_in_forced_less:
  assumes i: "log_in_live L ccfg cfg cb creds name q c0 s0 x" and st: "log_in_forced L ccfg cfg cb creds name x y"
  shows "log_in_work (asked_channels cb q s0) y < log_in_work (asked_channels cb q s0) x"
proof -
  from i have p: "asks_log_in q c0" "before_log_in L cfg cb creds name q s0" "srv_part L cfg cb creds name q c0 s0 x"
    "srv_status L cfg cb creds name (last (sent c0)) s0 x" "cli_part ccfg cb q c0 s0 x"
    by (simp_all add: log_in_live_def log_in_inv_def)
  note b = wire_bound [OF p(3)]
  note m = cli_part_keeps_request(2) [OF p(5,1)]
  have body: "body (last (sent c0)) = LogInReq q" using p(1) by (simp add: asks_log_in_def)
  from st consider (cli) "log_in_cli L ccfg x y" | (srv) "log_in_srv L cfg cb creds name x y" | (gone) "log_in_gone x y"
    unfolding log_in_forced_def by blast
  then show ?thesis
  proof cases
    case cli
    then show ?thesis
    proof cases
      case (cli_error e c)
      then show ?thesis by (simp add: log_in_work_def request_work_def)
    next
      case (cli_rsp ok st c)
      have "chan_work st \<le>
        chan_work (lcch x)"
        using cli_rsp(5) by (cases ok; cases "lcch x") auto
      moreover have "request_work y = request_work x" using cli_rsp(1) by (simp add: request_work_def)
      moreover have "asked_channels cb q s0 + 1 - got y < asked_channels cb q s0 + 1 - got x" using cli_rsp(1,4) b by simp
      ultimately show ?thesis using cli_rsp(1) unfolding log_in_work_def by simp
    next
      case (cli_init n chans md env st1 st2 st c)
      have "chan_work st \<le>
        chan_work (lcch x)"
        using cli_init(5-7) by (cases "lcch x"; cases st1; cases st2; cases st) auto
      moreover have "request_work y = request_work x" using cli_init(1) by (simp add: request_work_def)
      moreover have "asked_channels cb q s0 + 1 - got y < asked_channels cb q s0 + 1 - got x" using cli_init(1,4) b by simp
      ultimately show ?thesis using cli_init(1) unfolding log_in_work_def by simp
    qed
  next
    case srv
    then show ?thesis
    proof cases
      case (srv_error e s)
      with srv_error_run [OF srv_error(4)] have "s_expect_log_in s \<longrightarrow> s_expect_log_in (lsrv x)" by auto
      with srv_error show ?thesis by (simp add: log_in_work_def request_work_def)
    next
      case (srv_request rsp env s st)
      note f = srv_part_fresh [OF p(3) srv_request(2,4)]
      have "handle_req L cfg cb creds name rsp env (True, None) (last (sent c0)) s0 = Inr s" using srv_request(6) f m by simp
      from srv_handles [OF p(2) body this] have e: "\<not> s_expect_log_in s" by blast
      have "s_done_calls s0 = []" using p(2) by (simp add: before_log_in_def)
      with p(4) f(1) have "lsch x \<noteq> Ch_err_emitted" by (simp add: srv_status_def)
      then have "chan_work st <
        chan_work (lsch x) + 2"
        by (cases st; cases "lsch x") simp_all
      with e srv_request(1,2,4) show ?thesis by (simp add: log_in_work_def request_work_def)
    next
      case (srv_asks env s)
      then show ?thesis by (simp add: log_in_work_def request_work_def)
    next
      case (srv_acked env s)
      obtain t where "lsrv x = s0" "taken x = length (sent c0)" by (rule srv_part_ask [OF p(3) srv_acked(2)])
      with srv_acked(5) m have "handle_req L cfg cb creds name Sent_ok env (True, None) (last (sent c0)) s0 = Inr s" by simp
      from srv_handles [OF p(2) body this] srv_acked show ?thesis by (simp add: log_in_work_def request_work_def)
    next
      case (srv_unacked env e s)
      obtain t where "lsrv x = s0" "taken x = length (sent c0)" by (rule srv_part_ask [OF p(3) srv_unacked(2)])
      with srv_unacked(4) m have "handle_req L cfg cb creds name Sent_ok env (False, None) (last (sent c0)) s0 = Inr s" by simp
      from srv_handles [OF p(2) body this] srv_unacked show ?thesis by (simp add: log_in_work_def request_work_def)
    qed
  next
    case gone
    then show ?thesis by cases (simp_all add: log_in_work_def request_work_def)
  qed
qed

interpretation draining_log_in: draining_system
  "\<lambda>x. log_in_ini L ccfg cfg cb creds name q c0 s0 x \<and> \<not> S_GRACEFUL_FINISH_REQUIRED ccfg" "log_in_step L ccfg cfg cb creds name"
  "\<lambda>x. log_in_live L ccfg cfg cb creds name q c0 s0 x \<and> \<not> S_GRACEFUL_FINISH_REQUIRED ccfg"
  "log_in_forced L ccfg cfg cb creds name" "log_in_work (asked_channels cb q s0)"
  for L ccfg cfg cb creds name q c0 s0
proof unfold_locales
  fix x
  assume "log_in_ini L ccfg cfg cb creds name q c0 s0 x \<and> \<not> S_GRACEFUL_FINISH_REQUIRED ccfg"
  then have i: "asks_log_in q c0" "before_log_in L cfg cb creds name q s0" "x = log_in_start c0 s0" "\<not> S_GRACEFUL_FINISH_REQUIRED ccfg"
    by (simp_all add: log_in_ini_def)
  have "log_in_inv L ccfg cfg cb creds name q c0 s0 x" using i(3) by (simp add: log_in_inv_def log_in_start_def srv_part_def cli_part_def)
  moreover have "cli_status (lcli x) (lcch x)" using i(1,3) by (simp add: cli_status_def asks_log_in_def log_in_start_def)
  moreover have "srv_status L cfg cb creds name (last (sent c0)) s0 x"
    using i(2,3) by (simp add: srv_status_def before_log_in_def log_in_start_def)
  ultimately show "log_in_live L ccfg cfg cb creds name q c0 s0 x \<and> \<not> S_GRACEFUL_FINISH_REQUIRED ccfg"
    using i by (simp only: log_in_live_def simp_thms)
next
  fix x y
  assume "log_in_live L ccfg cfg cb creds name q c0 s0 x \<and> \<not> S_GRACEFUL_FINISH_REQUIRED ccfg"
    "log_in_step L ccfg cfg cb creds name x y"
  then show "log_in_live L ccfg cfg cb creds name q c0 s0 y \<and> \<not> S_GRACEFUL_FINISH_REQUIRED ccfg"
    using log_in_live_step by blast
next
  fix x y
  assume "log_in_forced L ccfg cfg cb creds name x y"
  then show "log_in_step L ccfg cfg cb creds name x y" by (simp add: log_in_step_def)
next
  fix x y
  assume "log_in_live L ccfg cfg cb creds name q c0 s0 x \<and> \<not> S_GRACEFUL_FINISH_REQUIRED ccfg"
    "log_in_forced L ccfg cfg cb creds name x y"
  then show "log_in_work (asked_channels cb q s0) y < log_in_work (asked_channels cb q s0) x"
    using log_in_forced_less by blast
qed

lemma srv_step_or_waits:
  assumes i: "log_in_live L ccfg cfg cb creds name q c0 s0 x" and d: "s_done_calls (lsrv x) = []"
    and no: "\<not> (\<exists>y. log_in_srv L cfg cb creds name x y)"
  shows "\<exists>env. waits x = Some env \<and> lsch x = Ch_ok \<and> length (sent (lcli x)) \<le> taken x"
proof -
  from i have p: "asks_log_in q c0" "before_log_in L cfg cb creds name q s0" "srv_part L cfg cb creds name q c0 s0 x"
    "srv_status L cfg cb creds name (last (sent c0)) s0 x" "cli_part ccfg cb q c0 s0 x"
    by (simp_all add: log_in_live_def log_in_inv_def)
  note m = cli_part_keeps_request(2) [OF p(5,1)]
  have body: "body (last (sent c0)) = LogInReq q" using p(1) by (simp add: asks_log_in_def)
  have s: "lsch x \<noteq> Ch_err_emitted" "m_log_in_on_done_func (lsrv x) \<noteq> None" "Server_Session.m_master_channel (lsrv x) \<noteq> None"
    "s_expect_log_in (lsrv x) \<or> lsch x \<noteq> Ch_ok" using p(4) d by (simp_all add: srv_status_def)
  show ?thesis
  proof (cases "waits x")
    case None
    show ?thesis
    proof (cases "lsch x")
      case (Ch_err_pending e)
      from srv_error_returns [OF s(2,3)] obtain t where "Server_Session.on_master_channel_error cfg e (lsrv x) = Inr t" by blast
      from log_in_srv.srv_error [OF None Ch_err_pending this] no show ?thesis by blast
    next
      case Ch_ok
      with s(4) have e: "s_expect_log_in (lsrv x)" by simp
      note f = srv_part_fresh [OF p(3) None e]
      fix env :: "nat \<Rightarrow> srv_init_env"
      from handle_req_returns [OF p(2) body, of "(True, None)" Sent_ok env] f m obtain t where
        t: "handle_req L cfg cb creds name Sent_ok env (True, None) (log_in_req_msg x) (lsrv x) = Inr t" by auto
      show ?thesis
      proof (cases "waits_for_ack L cfg cb creds name Sent_ok env (log_in_req_msg x) (lsrv x)")
        case True
        from log_in_srv.srv_asks [OF None s(3) e Ch_ok True t] no show ?thesis by blast
      next
        case False
        have "\<exists>st. after_log_in t (lsch x) st"
          using Ch_ok by (cases "m_log_in_on_done_func t"; cases "Server_Session.m_master_channel t") auto
        then obtain st where "after_log_in t (lsch x) st" ..
        from log_in_srv.srv_request [OF None s(3) e False t this] no show ?thesis by blast
      qed
    qed (use s(1) in simp)
  next
    case (Some env)
    obtain rs t where w: "lsrv x = s0" "taken x = length (sent c0)"
      "handle_req L cfg cb creds name Sent_ok env (True, None) (last (sent c0)) s0 = Inr t"
      by (rule srv_part_ask [OF p(3) Some]) blast
    show ?thesis
    proof (cases "lsch x")
      case (Ch_err_pending e)
      from handle_req_returns [OF p(2) body, of "(False, None)" Sent_ok env] w m obtain u where
        "handle_req L cfg cb creds name Sent_ok env (False, None) (log_in_req_msg x) (lsrv x) = Inr u" by auto
      from log_in_srv.srv_unacked [OF Some Ch_err_pending this] no show ?thesis by blast
    next
      case Ch_ok
      have t: "handle_req L cfg cb creds name Sent_ok env (True, None) (log_in_req_msg x) (lsrv x) = Inr t" using w m by simp
      from log_in_srv.srv_acked [OF Some Ch_ok _ t] no have "\<not> taken x < length (sent (lcli x))" by blast
      with Some Ch_ok show ?thesis by simp
    qed (use s(1) in simp)
  qed
qed

text \<open>A server that will send nothing more has sent the whole log-in, or dropped its channel.\<close>

lemma srv_at_end:
  assumes i: "log_in_live L ccfg cfg cb creds name q c0 s0 x" and no: "\<not> (\<exists>y. log_in_srv L cfg cb creds name x y)"
  shows "(\<exists>rs. wire x = granting_rsp cb q s0 # map req_of rs \<and> length rs = asked_channels cb q s0) \<or>
    (Server_Session.m_master_channel (lsrv x) = None \<and> waits x = None)"
proof -
  from i have p: "before_log_in L cfg cb creds name q s0" "srv_part L cfg cb creds name q c0 s0 x"
    "srv_status L cfg cb creds name (last (sent c0)) s0 x" by (simp_all add: log_in_live_def log_in_inv_def)
  show ?thesis
  proof (cases "s_done_calls (lsrv x) = []")
    case True
    from srv_step_or_waits [OF i True no] obtain env where "waits x = Some env" by blast
    then show ?thesis by (rule srv_part_ask [OF p(2)]) (auto simp: offered_def granted_def)
  next
    case False
    show ?thesis
    proof (cases "logged_in (lsrv x)")
      case True
      then show ?thesis by (rule logged_case [OF p(2) _ p(1)]) (use True in \<open>auto simp: offered_def granted_def\<close>)
    next
      case f: False
      with False p(3) show ?thesis by (cases "waits x") (simp_all add: srv_status_def)
    qed
  qed
qed

lemma cli_at_end:
  assumes i: "log_in_live L cfg cfg cb creds name q c0 s0 x" and cfg: "\<not> S_GRACEFUL_FINISH_REQUIRED cfg"
    and no: "\<not> (\<exists>y. log_in_forced L cfg cfg cb creds name x y)"
  shows "done_calls (lcli x) \<noteq> []"
proof
  assume d: "done_calls (lcli x) = []"
  from i have p: "asks_log_in q c0" "before_log_in L cfg cb creds name q s0" "srv_part L cfg cb creds name q c0 s0 x"
    "cli_part cfg cb q c0 s0 x" "cli_status (lcli x) (lcch x)" by (simp_all add: log_in_live_def log_in_inv_def)
  have cno: "\<not> (\<exists>y. log_in_cli L cfg x y)" and sno: "\<not> (\<exists>y. log_in_srv L cfg cb creds name x y)" and
    gno: "\<not> (\<exists>y. log_in_gone x y)" using no by (auto simp: log_in_forced_def)
  have c: "m_state (lcli x) = S_CONNECTING" "Client_Session.m_master_channel (lcli x) \<noteq> None" "lcch x \<noteq> Ch_err_emitted"
    using p(5) d by (simp_all add: cli_status_def)
  have ok: "lcch x = Ch_ok"
  proof (cases "lcch x")
    case (Ch_err_pending e)
    from cli_error_step [OF p(5) d this] cno show ?thesis by blast
  qed (use c(3) in simp_all)
  have hears: "\<not> (Server_Session.m_master_channel (lsrv x) = None \<and> waits x = None \<and> got x = length (wire x))"
    using log_in_gone.cli_hears [OF _ _ _ ok c(2)] gno by blast
  have "got x \<le> length (wire x)" using p(4) by (simp add: cli_part_def)
  note e = p(5) [unfolded cli_status_def if_P [OF d]]
  show False
  proof (cases "c_expect (lcli x)")
    case Expect_log_in_rsp
    note x = rsp_at_start [OF p(4,1) Expect_log_in_rsp c(1)]
    show False
    proof (cases "wire x = []")
      case True
      with srv_at_end [OF i sno] hears x show False by simp
    next
      case w: False
      obtain env rs where g: "first_failure (log_in_checks L cfg cb creds name q s0) = None" "offered cfg cb q s0 env rs (wire x)"
        by (rule srv_part_granted [OF p(3) w])
      then have "wire x ! got x = granting_rsp cb q s0" "got x < length (wire x)" using x(2) by (simp_all add: offered_def)
      with cli_rsp_step [OF p(1), of x, OF _ _ cfg x(1) ok] granting_rsp_body [of cb q s0] granting_rsp_fits [OF p(1,2) g(1)] cno
      show False by auto
    qed
  next
    case (Expect_init_channels n chans md)
    with e ok have r: "client_init_ready n chans md (lcli x)" "length chans < n" by simp_all
    from p(4) c(1) Expect_init_channels r(2) p(1) obtain rs chs where w: "wire x = granting_rsp cb q s0 # map req_of rs" "0 < got x"
      "made_from cfg chs (take (got x - 1) rs)" and
      col: "collecting (asked_channels cb q s0) (cli_namespace_func cb) (log_in_mdt cb q c0) c0 chs (lcli x)"
      by (auto simp: cli_part_def gave_up_def in_peer_def asks_log_in_def)
    from col Expect_init_channels have n: "n = asked_channels cb q s0" "chs = chans" by (simp_all add: collecting_def)
    show False
    proof (cases "got x < length (wire x)")
      case True
      have ne: "wire x \<noteq> []" using w(1) by simp
      obtain env rs' where g: "offered cfg cb q s0 env rs' (wire x)" by (rule srv_part_granted [OF p(3) ne])
      then have "got x - 1 < length rs'" "wire x ! got x = req_of (rs' ! (got x - 1))"
        using True w(2) by (auto simp: offered_def nth_Cons')
      with g have "good_channel_msg cfg (wire x ! got x)" using fits_good by (auto simp: offered_def)
      from cli_init_step [OF r c(2) this cfg ok True] cno show False by blast
    next
      case False
      with \<open>got x \<le> length (wire x)\<close> w have "got x = length (wire x)" "length chans = length rs"
        using n(2) by (auto simp: made_from_def dest: list_all2_lengthD)
      with srv_at_end [OF i sno] hears r(2) n(1) w(1) show False by (auto dest: arg_cong [where f = length])
    qed
  qed (use e ok in simp_all)
qed

lemma srv_at_end_waits:
  assumes i: "log_in_live L cfg cfg cb creds name q c0 s0 x" and cfg: "\<not> S_GRACEFUL_FINISH_REQUIRED cfg"
    and no: "\<not> (\<exists>y. log_in_forced L cfg cfg cb creds name x y)" and d: "s_done_calls (lsrv x) = []"
  shows "waits x \<noteq> None \<and> m_state (lcli x) = S_NULL \<and> Client_Session.m_master_channel (lcli x) \<noteq> None"
proof -
  from i have p: "asks_log_in q c0" "srv_part L cfg cb creds name q c0 s0 x"
    "cli_part cfg cb q c0 s0 x" "cli_status (lcli x) (lcch x)" "srv_status L cfg cb creds name (last (sent c0)) s0 x"
    by (simp_all add: log_in_live_def log_in_inv_def)
  have sno: "\<not> (\<exists>y. log_in_srv L cfg cb creds name x y)" and gno: "\<not> (\<exists>y. log_in_gone x y)"
    using no by (auto simp: log_in_forced_def)
  from srv_step_or_waits [OF i d sno] obtain env where w: "waits x = Some env" "lsch x = Ch_ok" "length (sent (lcli x)) \<le> taken x" by blast
  have t: "taken x = length (sent c0)" "0 < asked_channels cb q s0" by (rule srv_part_ask [OF p(2) w(1)], assumption)+
  have dn: "m_state (lcli x) \<noteq> S_CONNECTING" using p(4) cli_at_end [OF i cfg no] by (simp add: cli_status_def)
  have "m_state (lcli x) \<noteq> S_PEER"
  proof
    assume s: "m_state (lcli x) = S_PEER"
    show False by (rule peer_case [OF p(3) s p(1)]) (use w(3) t in \<open>simp add: in_peer_def\<close>)
  qed
  with dn have n: "m_state (lcli x) = S_NULL" by (cases "m_state (lcli x)") simp_all
  with p(3,1) have "sent (lcli x) = sent c0" by (auto simp: cli_part_def gave_up_def collecting_def in_peer_def)
  with log_in_gone.srv_hears [of x] gno w(2) t(1) p(5) d n have "Client_Session.m_master_channel (lcli x) \<noteq> None"
    by (auto simp: srv_status_def)
  with w(1) n show ?thesis by simp
qed

lemma reach_and: "reach ini stp x \<Longrightarrow> P \<Longrightarrow> reach (\<lambda>x. ini x \<and> P) stp x"
  by (induction rule: reach.induct) (auto intro: reach_init reach_step)



end
