(* ===== verification/Spec2Isabelle.thy ===== *)
theory Spec2Isabelle
  imports Sync_Io_Properties Sync_Io_Accept Graceful_Finish Session_Handles Open_Race_Properties Log_In_Progress
begin

text \<open>
  A model of the session layer of Flow-IPC (\<^verbatim>\<open>src/src/ipc/session\<close>): how a client process finds
  a server, opens a session with it, how both then open channels in it, and how it ends.

  \<^bold>\<open>Parts of the program.\<close> Applications are described by \<^verbatim>\<open>App\<close> records. A server keeps its current
  namespace in a file, the namespace store, and listens on a socket named after it
  (\<^verbatim>\<open>Session_server_impl\<close>). A client (\<^verbatim>\<open>Client_session_impl\<close>) reads the store, connects, and sends a
  log-in request on the session master channel; the server's \<^verbatim>\<open>Server_session_impl\<close> checks it and
  answers. Then channels are opened: so-called init-channels during the log-in, and on demand
  afterwards by either side (\<^verbatim>\<open>open_channel()\<close>). Each session does its work in one thread, called W. Users hold sessions through
  movable objects (\<^verbatim>\<open>Session_mv\<close>) or, if they have an event loop of their own, through adapters that
  turn the calls from thread W into events of that loop (\<^verbatim>\<open>sync_io::Session_adapter\<close>).

  \<^bold>\<open>Theories.\<close> One or more for each part; an operation of the code is a definition of the same name.
    \<^item> \<open>Prelude\<close>: results with errors (\<open>'a res\<close>: \<open>Inl\<close> is an assertion that trips, an exception, or a
      lock-up), decimal numerals, reachable states, and the locale of step relations with an invariant.
    \<^item> \<open>Errors\<close>: \<^verbatim>\<open>error.hpp\<close>, \<^verbatim>\<open>error.cpp\<close>.
    \<^item> \<open>Shared_Names\<close>: \<^verbatim>\<open>session_shared_name.cpp\<close>, the conventional names of resources.
    \<^item> \<open>Apps\<close>: \<^verbatim>\<open>app.hpp\<close>, \<^verbatim>\<open>app.cpp\<close>.
    \<^item> \<open>Session_Base\<close>: \<^verbatim>\<open>session_base.hpp\<close>, what both sides of a session share, with the graceful finisher.
    \<^item> \<open>Messages\<close>: the messages of the session master channel (\<^verbatim>\<open>schema/\<close>), and what the channel may answer.
    \<^item> \<open>Client_Session\<close>, \<open>Client_System\<close>, \<open>Client_Properties\<close>: \<^verbatim>\<open>client_session_impl.hpp\<close>; the
      operations and handlers, the machine they form with its invariant, and the properties.
    \<^item> \<open>Server_Session\<close>, \<open>Server_System\<close>, \<open>Server_Channels\<close>, \<open>Server_Properties\<close>: the same for
      \<^verbatim>\<open>server_session_impl.hpp\<close>; \<open>Server_Channels\<close> is about the message queues of its channels.
    \<^item> \<open>Session_Server\<close>, \<open>Session_Server_System\<close>, \<open>Session_Server_Properties\<close>: \<^verbatim>\<open>session_server_impl.hpp\<close>; the
      constructor, the accepting of sessions, the machine with its incomplete sessions, the destructor, which destroys one
      member after the other and yields the states in between, too; the order within the unordered set of incomplete sessions is an argument.
    \<^item> \<open>Session_Protocol\<close>: both sides together; finding the server, the log-in, a channel opened by either side.
    \<^item> \<open>Log_In_System\<close>, \<open>Log_In_Agreement\<close>, \<open>Log_In_Progress\<close>: the log-in of both sides as a machine in which either side's
      operations and channels may fail at any time; that it leads both to the same session or to none, and comes to an end.
    \<^item> \<open>Open_Race\<close>, \<open>Open_Race_Properties\<close>: both sides with their threads W, the messages between them and the calls of
      both users interleaved; which calls return, and with what.
    \<^item> \<open>Graceful_Finish\<close>: both sides' destructors and the handshake of the graceful finishers.
    \<^item> \<open>Session_Handles\<close>: \<^verbatim>\<open>session.hpp\<close>, \<^verbatim>\<open>client_session.hpp\<close>, \<^verbatim>\<open>server_session.hpp\<close>, \<^verbatim>\<open>session_server.hpp\<close>; objects that own
      sessions, how ownership moves, and the calls they forward.
    \<^item> \<open>Sync_Io\<close>, \<open>Sync_Io_System\<close>, \<open>Sync_Io_Cores\<close>, \<open>Sync_Io_Properties\<close>, \<open>Sync_Io_Accept\<close>:
      \<^verbatim>\<open>sync_io/detail/session_adapter.hpp\<close>, \<^verbatim>\<open>sync_io/session_server_adapter.hpp\<close>; the adapters, the machine of an adapter and its
      user's loop over any session with a given contract, the contract for client and server sessions.

  \<^bold>\<open>How state and steps are modelled.\<close> The members of a class are the fields of a record, with its logs of
  what was sent and which handlers were called with what. A method is a function of that record; a task of
  thread W is one function and runs as one step. What the operating system and the channel answer
  is an argument (the records named \<^verbatim>\<open>_env\<close>), so that a property holds for all answers; where it matters later which answers those were, as
  for the handles of the socket pair behind a channel, the machine records them (\<open>ran_with\<close>, \<open>renv_of\<close>); the channel's documented behaviour, one
  channel-hosing error at most, is the relations \<open>op_answer\<close>, \<open>sending\<close>, \<open>requesting\<close> of \<open>Messages\<close>. Library code (names, PID
  parsing, protocol negotiation) is the record \<open>session_lib\<close>, with its documented laws as hypotheses and an instance that
  satisfies them. Machine integers are words: 64 bits for the namespace counter and the numbers of channels, 32 for the
  message-queue counter.

  \<^bold>\<open>What the lemmas show.\<close> For each operation its outcome on every branch (\<open>_outcome\<close>, \<open>_cases\<close>). For each machine an
  invariant, through an interpretation of \<open>invariant_system\<close>, from which follow the exactly-once guarantees of
  handlers, and progress: what waits has something on its way to it. For the two sides together: they
  agree on the log-in, also when something fails in its course, and on every channel; messages are well typed; calls pair up. The server's
  checks equal a reference list of checks. The adapters deliver exactly what the sessions report, the \<open>k\<close>th result of an accept to the \<open>k\<close>th handler, and trip
  no assertion, except in an \<^verbatim>\<open>init_handlers()\<close> after an error was delivered. Moving
  objects keeps one owner for each session, and every forwarded call reaches the call of the same name. Where the code does not do what it says, a theorem shows that, too.

  \<^bold>\<open>Bounds.\<close> No fuel is used: loops are structural recursions. Where something must come to an end a
  measure bounds it: \<open>fin_work\<close> (steps left of the graceful finish), \<open>log_in_work\<close> (steps left of a log-in), \<open>race_work\<close> (steps left until messages in flight
  are handled: three for a request, one for a response). Freshness of queue names and of namespaces holds below
  the wrap of their counters, as the theorems state.

  \<^bold>\<open>Not modelled.\<close> Logging and output to streams. The serialization of messages (Cap'n Proto) and the transports of
  the other repositories; SHM-backed sessions, which are in another repository and derive from
  these classes (the customization points they use, such as the completion hook and leaving PEER state
  again, are modelled). The thread loops themselves: their tasks are atomic steps, except where the
  interleaving inside a task matters (\<open>Log_In_System\<close>, \<open>Open_Race\<close>, \<open>Graceful_Finish\<close>, and the destructors that wait). Forward
  declarations, concept documentation, \<^verbatim>\<open>Server_session_dtl\<close> (which only widens access), the forwarding of heap
  configurations and loggers, the link test and the build.
\<close>

end
